(* ===== verification/Cart_Prelude.thy ===== *)
theory Cart_Prelude
  imports Complex_Main
begin

text \<open>
  Shared vocabulary of the development: the array methods of JavaScript that the cart
  calls (\<open>Array.prototype.findIndex\<close>, \<open>find\<close> followed by an in-place field write,
  \<open>splice(i, 1)\<close>, \<open>reduce\<close>), written as executable list functions, and the generic
  lemmas about them that the component theories use.  The collection \<open>cart_simps\<close>
  gathers the characteristic equations the component proofs unfold.
\<close>

named_theorems cart_simps "characteristic equations of the cart model"

section \<open>Array methods\<close>

text \<open>
  \<open>xs.findIndex(P)\<close>: the index of the first element satisfying \<open>P\<close>, or \<open>-1\<close>.
  The result is a JavaScript number, here an \<open>int\<close>.
\<close>

fun js_find_index :: "('a \<Rightarrow> bool) \<Rightarrow> 'a list \<Rightarrow> int" where
  "js_find_index P [] = -1"
| "js_find_index P (x # xs) =
     (if P x then 0 else (let j = js_find_index P xs in if j = -1 then -1 else j + 1))"

text \<open>\<open>xs.splice(i, 1)\<close> for an index inside the array: drop the element at \<open>i\<close>.\<close>

definition splice1 :: "nat \<Rightarrow> 'a list \<Rightarrow> 'a list" where
  "splice1 i xs = take i xs @ drop (Suc i) xs"

text \<open>
  \<open>const e = xs.find(P); e.f = g(e.f)\<close>: the object found is the first one satisfying
  \<open>P\<close>, and the write changes that element in place.
\<close>

fun update_first :: "('a \<Rightarrow> bool) \<Rightarrow> ('a \<Rightarrow> 'a) \<Rightarrow> 'a list \<Rightarrow> 'a list" where
  "update_first P f [] = []"
| "update_first P f (x # xs) = (if P x then f x # xs else x # update_first P f xs)"

text \<open>The reference behaviour of removing the first element that satisfies \<open>P\<close>.\<close>

fun remove_first :: "('a \<Rightarrow> bool) \<Rightarrow> 'a list \<Rightarrow> 'a list" where
  "remove_first P [] = []"
| "remove_first P (x # xs) = (if P x then xs else x # remove_first P xs)"

section \<open>Lemmas on the array methods\<close>

lemma js_find_index_eq:
  "js_find_index P xs =
     (if \<exists>x \<in> set xs. P x then int (length (takeWhile (\<lambda>x. \<not> P x) xs)) else -1)"
  by (induction xs) (auto simp: Let_def)

lemma js_find_index_neg_iff [cart_simps]:
  "js_find_index P xs = -1 \<longleftrightarrow> (\<forall>x \<in> set xs. \<not> P x)"
  by (simp add: js_find_index_eq)

lemma length_takeWhile_less_ex:
  "\<exists>x \<in> set xs. \<not> Q x \<Longrightarrow> length (takeWhile Q xs) < length xs"
  by (induction xs) auto

lemma remove_first_eq:
  "remove_first P xs = takeWhile (\<lambda>x. \<not> P x) xs @ drop 1 (dropWhile (\<lambda>x. \<not> P x) xs)"
  by (induction xs) auto

lemma js_find_index_found:
  assumes "js_find_index P xs \<noteq> -1"
  shows "P (xs ! nat (js_find_index P xs)) \<and> (\<forall>k < nat (js_find_index P xs). \<not> P (xs ! k))"
proof -
  from assms have ex: "\<exists>x \<in> set xs. P x" by (auto simp: js_find_index_eq split: if_splits)
  then have idx: "nat (js_find_index P xs) = length (takeWhile (\<lambda>x. \<not> P x) xs)"
    by (simp add: js_find_index_eq)
  have "length (takeWhile (\<lambda>x. \<not> P x) xs) < length xs"
    using ex by (simp add: length_takeWhile_less_ex)
  then have "P (xs ! length (takeWhile (\<lambda>x. \<not> P x) xs))"
    using nth_length_takeWhile [of "\<lambda>x. \<not> P x" xs] by simp
  moreover have "\<forall>k < length (takeWhile (\<lambda>x. \<not> P x) xs). \<not> P (xs ! k)"
    by (metis nth_mem set_takeWhileD takeWhile_nth)
  ultimately show ?thesis by (simp add: idx)
qed

text \<open>\<open>splice\<close> at the index \<open>findIndex\<close> returned removes the first match.\<close>

lemma splice1_find_index [cart_simps]:
  assumes "js_find_index P xs \<noteq> -1"
  shows "splice1 (nat (js_find_index P xs)) xs = remove_first P xs"
proof -
  let ?n = "length (takeWhile (\<lambda>x. \<not> P x) xs)"
  from assms have n: "nat (js_find_index P xs) = ?n"
    by (auto simp: js_find_index_eq split: if_splits)
  have "takeWhile (\<lambda>x. \<not> P x) xs = take ?n xs"
    by (rule takeWhile_eq_take)
  moreover have "drop 1 (dropWhile (\<lambda>x. \<not> P x) xs) = drop (Suc ?n) xs"
    by (simp add: dropWhile_eq_drop [of "\<lambda>x. \<not> P x" xs])
  ultimately show ?thesis by (simp add: n splice1_def remove_first_eq)
qed

lemma remove_first_no_match [cart_simps]:
  "\<forall>x \<in> set xs. \<not> P x \<Longrightarrow> remove_first P xs = xs"
  by (induction xs) auto

lemma update_first_no_match [cart_simps]:
  "\<forall>x \<in> set xs. \<not> P x \<Longrightarrow> update_first P f xs = xs"
  by (induction xs) auto

lemma length_update_first [cart_simps]: "length (update_first P f xs) = length xs"
  by (induction xs) auto

lemma length_remove_first:
  "\<exists>x \<in> set xs. P x \<Longrightarrow> Suc (length (remove_first P xs)) = length xs"
  by (induction xs) auto

lemma set_remove_first: "set (remove_first P xs) \<subseteq> set xs"
  by (induction xs) auto

lemma set_update_first:
  "set (update_first P f xs) \<subseteq> set xs \<union> f ` {x \<in> set xs. P x}"
  by (induction xs) auto

lemma map_update_first:
  "(\<And>x. P x \<Longrightarrow> g (f x) = g x) \<Longrightarrow> map g (update_first P f xs) = map g xs"
  by (induction xs) auto

lemma distinct_map_remove_first:
  "distinct (map g xs) \<Longrightarrow> distinct (map g (remove_first P xs))"
  by (induction xs) (auto dest: subsetD [OF set_remove_first])

lemma distinct_map_update_first:
  "(\<And>x. P x \<Longrightarrow> g (f x) = g x) \<Longrightarrow> distinct (map g xs) \<Longrightarrow> distinct (map g (update_first P f xs))"
  by (simp add: map_update_first)

lemma list_all_update_first:
  "list_all Q xs \<Longrightarrow> (\<And>x. x \<in> set xs \<Longrightarrow> P x \<Longrightarrow> Q x \<Longrightarrow> Q (f x)) \<Longrightarrow>
   list_all Q (update_first P f xs)"
  by (induction xs) auto

lemma list_all_remove_first: "list_all Q xs \<Longrightarrow> list_all Q (remove_first P xs)"
  by (induction xs) auto

lemma update_first_append_no_match:
  "\<forall>x \<in> set xs. \<not> P x \<Longrightarrow> update_first P f (xs @ ys) = xs @ update_first P f ys"
  by (induction xs) auto

lemma find_Some_iff_index:
  "(find P xs = None) \<longleftrightarrow> js_find_index P xs = -1"
  unfolding js_find_index_neg_iff find_None_iff by blast

text \<open>\<open>xs.reduce((s, x) => s + f(x), 0)\<close> is the sum of \<open>f\<close> over the list.\<close>

lemma foldl_add_sum_list [cart_simps]:
  "foldl (\<lambda>s x. s + f x) a xs = a + sum_list (map f xs)"
  by (induction xs arbitrary: a) (auto simp: add.assoc)

lemma find_distinct_nth:
  "distinct (map f xs) \<Longrightarrow> k < length xs \<Longrightarrow> find (\<lambda>x. f x = f (xs ! k)) xs = Some (xs ! k)"
proof (induction xs arbitrary: k)
  case (Cons x xs)
  show ?case
  proof (cases k)
    case (Suc j)
    with Cons.prems have j: "j < length xs" and "f x \<notin> f ` set xs" and "xs ! j \<in> set xs"
      by auto
    then have "f x \<noteq> f (xs ! j)" by blast
    with Cons.IH [of j] Cons.prems j Suc show ?thesis by simp
  qed simp
qed simp

end
