(* ===== verification/Js_Values.thy ===== *)
theory Js_Values
  imports Cart_Prelude
begin

text \<open>
  The JavaScript values the cart handles.  Product fields (\<open>id\<close>, \<open>name\<close>, \<open>image\<close>)
  are copied verbatim from the caller and may be of any type; persisted data comes back
  from \<open>JSON.parse\<close> as an arbitrary JSON tree.  Both are values of \<open>jsval\<close>.
  A JavaScript number is modelled by an exact rational: the finite numbers the cart
  computes with.  \<open>NaN\<close> and the infinities are outside the model (see the header of
  the root theory).  Property access on a value, \<open>typeof\<close>, truthiness, \<open>Math.round\<close>
  and the value transformation of \<open>JSON.stringify\<close> are defined here, with the
  conversion of a value to the string of a template literal and \<open>Number()\<close> of a
  decimal string, for the ids the page writes into and reads from its markup.
\<close>

datatype jsval =
    JUndef
  | JNull
  | JBool bool
  | JNum rat
  | JStr string
  | JArr "jsval list"
  | JObj "(string \<times> jsval) list"

section \<open>Truthiness and typeof\<close>

text \<open>\<open>!!v\<close>: the falsy values are \<open>undefined\<close>, \<open>null\<close>, \<open>false\<close>, \<open>0\<close>, \<open>""\<close>.\<close>

fun truthy :: "jsval \<Rightarrow> bool" where
  "truthy JUndef = False"
| "truthy JNull = False"
| "truthy (JBool b) = b"
| "truthy (JNum r) = (r \<noteq> 0)"
| "truthy (JStr s) = (s \<noteq> [])"
| "truthy (JArr vs) = True"
| "truthy (JObj kvs) = True"

fun js_typeof :: "jsval \<Rightarrow> string" where
  "js_typeof JUndef = ''undefined''"
| "js_typeof JNull = ''object''"
| "js_typeof (JBool b) = ''boolean''"
| "js_typeof (JNum r) = ''number''"
| "js_typeof (JStr s) = ''string''"
| "js_typeof (JArr vs) = ''object''"
| "js_typeof (JObj kvs) = ''object''"

text \<open>
  \<open>v.k\<close> for the keys the cart reads (\<open>id\<close>, \<open>price\<close>, \<open>quantity\<close>, \<open>name\<close>,
  \<open>image\<close>): an own property of an object, \<open>undefined\<close> otherwise.  None of these
  keys is a built-in property of strings, numbers or arrays.  An object produced by
  \<open>JSON.parse\<close> has distinct keys.
\<close>

fun get_prop :: "jsval \<Rightarrow> string \<Rightarrow> jsval" where
  "get_prop (JObj kvs) k = (case map_of kvs k of Some v \<Rightarrow> v | None \<Rightarrow> JUndef)"
| "get_prop v k = JUndef"

section \<open>Numbers\<close>

text \<open>\<open>Math.round(x)\<close>: the nearest integer, ties rounded towards \<open>+\<infinity>\<close>.\<close>

definition js_round :: "rat \<Rightarrow> rat" where
  "js_round x = of_int \<lfloor>x + 1/2\<rfloor>"

text \<open>The number inside a value known to be a number (\<open>typeof v === "number"\<close>).\<close>

fun num_val :: "jsval \<Rightarrow> rat" where
  "num_val (JNum r) = r"
| "num_val v = 0"

section \<open>JSON.stringify as a value transformation\<close>

text \<open>
  \<open>JSON.stringify\<close> followed by \<open>JSON.parse\<close> maps a value to a JSON tree: an
  object member whose value is \<open>undefined\<close> is omitted, an array element that is
  \<open>undefined\<close> becomes \<open>null\<close>.  The text in between is the subject of theory
  \<open>Json_Text\<close>; the persisted channel of theory \<open>Persistence\<close> stores the tree.
\<close>

fun json_of :: "jsval \<Rightarrow> jsval" where
  "json_of (JArr vs) = JArr (map (\<lambda>v. if v = JUndef then JNull else json_of v) vs)"
| "json_of (JObj kvs) = JObj (map (\<lambda>kv. (fst kv, json_of (snd kv))) (filter (\<lambda>kv. snd kv \<noteq> JUndef) kvs))"
| "json_of v = v"

text \<open>A value that \<open>JSON.stringify\<close> keeps as it is: no \<open>undefined\<close> nested inside.\<close>

fun json_clean :: "jsval \<Rightarrow> bool" where
  "json_clean (JArr vs) = (\<forall>v \<in> set vs. v \<noteq> JUndef \<and> json_clean v)"
| "json_clean (JObj kvs) = (\<forall>kv \<in> set kvs. snd kv \<noteq> JUndef \<and> json_clean (snd kv))"
| "json_clean v = True"

section \<open>Numbers in markup: \<open>String(n)\<close> and \<open>Number(s)\<close>\<close>

text \<open>
  The storefront writes ids into \<open>data-\<close> attributes with a template literal
  (\<open>data-product-id="${product.id}"\<close>) and reads them back with \<open>Number(...)\<close>.
  For a non-negative integer \<open>String\<close> gives its decimal digits.
\<close>

definition digit_char :: "nat \<Rightarrow> char" where
  "digit_char d = char_of (48 + d)"

fun dec_string :: "nat \<Rightarrow> string" where
  "dec_string n = (if n < 10 then [digit_char n] else dec_string (n div 10) @ [digit_char (n mod 10)])"

declare dec_string.simps [simp del]

text \<open>\<open>`${v}`\<close> for the values the model prints; \<open>None\<close> for the ones it does not
  (fractions and negative numbers, arrays, objects).\<close>

fun js_to_string :: "jsval \<Rightarrow> string option" where
  "js_to_string JUndef = Some ''undefined''"
| "js_to_string JNull = Some ''null''"
| "js_to_string (JBool b) = Some (if b then ''true'' else ''false'')"
| "js_to_string (JNum r) = (if 0 \<le> r \<and> of_int \<lfloor>r\<rfloor> = r then Some (dec_string (nat \<lfloor>r\<rfloor>)) else None)"
| "js_to_string (JStr s) = Some s"
| "js_to_string v = None"

definition is_digit :: "char \<Rightarrow> bool" where
  "is_digit c \<longleftrightarrow> 48 \<le> (of_char c :: nat) \<and> (of_char c :: nat) \<le> 57"

definition digits_value :: "string \<Rightarrow> nat" where
  "digits_value s = foldl (\<lambda>acc c. 10 * acc + (of_char c - 48)) 0 s"

text \<open>
  \<open>Number(s)\<close> on a string of decimal digits.  \<open>None\<close> stands for \<open>NaN\<close> and for
  the numeric forms the model does not parse (sign, fraction, exponent, surrounding
  white space, the empty string); the storefront only parses strings it printed.
\<close>

definition js_number :: "string \<Rightarrow> rat option" where
  "js_number s = (if s \<noteq> [] \<and> list_all is_digit s then Some (of_nat (digits_value s)) else None)"

section \<open>Lemmas\<close>

lemma typeof_number_iff [cart_simps]: "js_typeof v = ''number'' \<longleftrightarrow> (\<exists>r. v = JNum r)"
  by (cases v) auto

lemma json_of_clean [cart_simps]: "json_clean v \<Longrightarrow> json_of v = v"
proof (induction v rule: json_of.induct)
  case (1 vs)
  then show ?case by (auto intro: map_idI)
next
  case (2 kvs)
  then have "filter (\<lambda>kv. snd kv \<noteq> JUndef) kvs = kvs" by (auto simp: filter_id_conv)
  with 2 show ?case by (auto intro: map_idI)
qed simp_all

lemma json_of_undef_iff [cart_simps]: "json_of v = JUndef \<longleftrightarrow> v = JUndef"
  by (cases v) auto

lemma json_of_num [cart_simps]: "json_of v = JNum r \<longleftrightarrow> v = JNum r"
  by (cases v) auto

lemma json_clean_json_of: "json_clean (json_of v)"
  by (induction v rule: json_of.induct) (auto simp: json_of_undef_iff)

lemma digit_char_digit: "d < 10 \<Longrightarrow> is_digit (digit_char d) \<and> (of_char (digit_char d) :: nat) - 48 = d"
  by (simp add: digit_char_def is_digit_def of_char_of)

lemma digits_value_snoc: "digits_value (s @ [c]) = 10 * digits_value s + (of_char c - 48)"
  by (simp add: digits_value_def)

lemma dec_string_digits: "dec_string n \<noteq> [] \<and> list_all is_digit (dec_string n) \<and> digits_value (dec_string n) = n"
proof (induction n rule: dec_string.induct)
  case (1 n)
  show ?case
  proof (cases "n < 10")
    case True
    then show ?thesis using digit_char_digit [of n] by (simp add: digits_value_def dec_string.simps)
  next
    case False
    then have "dec_string n = dec_string (n div 10) @ [digit_char (n mod 10)]"
      by (simp add: dec_string.simps)
    with 1 False digit_char_digit [of "n mod 10"] show ?thesis by (simp add: digits_value_snoc)
  qed
qed

lemma js_number_dec_string: "js_number (dec_string n) = Some (of_nat n)"
  using dec_string_digits [of n] by (simp add: js_number_def)

lemma js_to_string_nat: "js_to_string (JNum (of_nat n)) = Some (dec_string n)"
  by simp

end
