(* ===== verification/Line_Items.thy ===== *)
theory Line_Items
  imports Js_Values
begin

text \<open>
  The data of \<open>CartManager\<close> (src/app.js, lines 56--201): the product a caller
  passes to \<open>addItem\<close>, the line item the cart stores in \<open>#items\<close>, the constant
  \<open>MAX_QUANTITY\<close>, and the item-list transformations each mutating method performs
  before it persists and notifies (merge in \<open>addItem\<close>, \<open>splice\<close> in
  \<open>removeItem\<close>, the quantity write in \<open>updateQuantity\<close>), with the read-only
  accessors.  The invariant \<open>wf_items\<close> is the data-model invariant of the spec; the
  abstraction \<open>qty_map\<close> views the list as a finite map from id to quantity.
\<close>

definition MAX_QUANTITY :: rat where
  "MAX_QUANTITY = 99"

text \<open>
  A product reference as \<open>addItem\<close> reads it: \<open>id\<close>, \<open>name\<close> and \<open>image\<close> are
  arbitrary values (\<open>JUndef\<close> when absent); the price is a number, \<open>None\<close> when the
  property is absent.  The catalog fields \<open>series\<close> and \<open>category\<close> are carried
  for the product grid (theory \<open>Rendering\<close>); \<open>addItem\<close> does not read them.
\<close>

record product =
  prod_id :: jsval
  prod_name :: jsval
  prod_series :: jsval
  prod_price :: "rat option"
  prod_image :: jsval
  prod_category :: jsval

text \<open>The value of \<open>product.price\<close>.\<close>

definition price_val :: "product \<Rightarrow> jsval" where
  "price_val p = (case prod_price p of None \<Rightarrow> JUndef | Some r \<Rightarrow> JNum r)"

text \<open>An element of \<open>#items\<close>: \<open>{ id, name, price, image, quantity }\<close>.\<close>

record line_item =
  item_id :: jsval
  item_name :: jsval
  item_price :: rat
  item_image :: jsval
  item_quantity :: rat

type_synonym items = "line_item list"

section \<open>addItem: guard, clamp and merge (lines 72--89)\<close>

text \<open>\<open>if (!product?.id || !product?.price) throw ...\<close>\<close>

definition invalid_product :: "product \<Rightarrow> bool" where
  "invalid_product p \<longleftrightarrow> \<not> truthy (prod_id p) \<or> \<not> truthy (price_val p)"

text \<open>\<open>Math.max(1, Math.min(quantity, MAX_QUANTITY))\<close>\<close>

definition clamp_quantity :: "rat \<Rightarrow> rat" where
  "clamp_quantity q = max 1 (min q MAX_QUANTITY)"

text \<open>The object literal pushed for a product not yet in the cart.\<close>

definition new_line_item :: "product \<Rightarrow> rat \<Rightarrow> line_item" where
  "new_line_item p qty =
     \<lparr>item_id = prod_id p, item_name = prod_name p, item_price = num_val (price_val p),
      item_image = prod_image p, item_quantity = qty\<rparr>"

definition merge_item :: "items \<Rightarrow> product \<Rightarrow> rat \<Rightarrow> items" where
  "merge_item its p quantity =
     (let qty = clamp_quantity quantity;
          existing = find (\<lambda>i. item_id i = prod_id p) its
      in case existing of
           Some e \<Rightarrow> update_first (\<lambda>i. item_id i = prod_id p)
                      (\<lambda>e. e\<lparr>item_quantity := min (item_quantity e + qty) MAX_QUANTITY\<rparr>) its
         | None \<Rightarrow> its @ [new_line_item p qty])"

section \<open>removeItem: findIndex and splice (lines 96--99)\<close>

text \<open>\<open>None\<close> is the early \<open>return false\<close>; otherwise the spliced list.\<close>

definition splice_item :: "jsval \<Rightarrow> items \<Rightarrow> items option" where
  "splice_item pid its =
     (let idx = js_find_index (\<lambda>i. item_id i = pid) its
      in if idx = -1 then None else Some (splice1 (nat idx) its))"

section \<open>updateQuantity: the write of the positive branch (line 111)\<close>

definition set_quantity :: "jsval \<Rightarrow> rat \<Rightarrow> items \<Rightarrow> items" where
  "set_quantity pid quantity its =
     update_first (\<lambda>i. item_id i = pid)
       (\<lambda>e. e\<lparr>item_quantity := min quantity MAX_QUANTITY\<rparr>) its"

section \<open>Accessors (lines 117--127, 152--154)\<close>

text \<open>\<open>getItems\<close> returns \<open>{...i}\<close> for every item: a copy with the same fields.\<close>

definition get_items :: "items \<Rightarrow> items" where
  "get_items its = map (\<lambda>i. \<lparr>item_id = item_id i, item_name = item_name i,
     item_price = item_price i, item_image = item_image i, item_quantity = item_quantity i\<rparr>) its"

definition get_item_count :: "items \<Rightarrow> rat" where
  "get_item_count its = foldl (\<lambda>sum i. sum + item_quantity i) 0 its"

definition get_subtotal :: "items \<Rightarrow> rat" where
  "get_subtotal its = foldl (\<lambda>sum i. sum + item_price i * item_quantity i) 0 its"

definition is_empty :: "items \<Rightarrow> bool" where
  "is_empty its \<longleftrightarrow> length its = 0"

section \<open>Invariant and abstraction\<close>

text \<open>A JavaScript number that is an integer (\<open>Number.isInteger\<close>).\<close>

definition is_integer :: "rat \<Rightarrow> bool" where
  "is_integer q \<longleftrightarrow> of_int \<lfloor>q\<rfloor> = q"

definition qty_ok :: "rat \<Rightarrow> bool" where
  "qty_ok q \<longleftrightarrow> is_integer q \<and> 1 \<le> q \<and> q \<le> MAX_QUANTITY"

text \<open>The data-model invariant: ids unique, every quantity an integer in \<open>[1, 99]\<close>.\<close>

definition wf_items :: "items \<Rightarrow> bool" where
  "wf_items its \<longleftrightarrow> distinct (map item_id its) \<and> list_all (\<lambda>i. qty_ok (item_quantity i)) its"

text \<open>
  What every mutation keeps whatever its arguments: ids unique, every quantity positive
  and at most \<open>MAX_QUANTITY\<close>.
\<close>

definition cart_inv :: "items \<Rightarrow> bool" where
  "cart_inv its \<longleftrightarrow>
     distinct (map item_id its) \<and> list_all (\<lambda>i. 0 < item_quantity i \<and> item_quantity i \<le> MAX_QUANTITY) its"

text \<open>Abstraction: the item stored under each id, and the quantity under each id.\<close>

definition item_map :: "items \<Rightarrow> jsval \<Rightarrow> line_item option" where
  "item_map its = map_of (map (\<lambda>i. (item_id i, i)) its)"

definition qty_map :: "items \<Rightarrow> jsval \<Rightarrow> rat option" where
  "qty_map its k = map_option item_quantity (item_map its k)"

section \<open>Lemmas: lookup\<close>

lemma find_item_map [cart_simps]:
  "find (\<lambda>i. item_id i = k) its = item_map its k"
  by (induction its) (auto simp: item_map_def)

lemma item_map_None_iff [cart_simps]:
  "item_map its k = None \<longleftrightarrow> k \<notin> set (map item_id its)"
  by (induction its) (auto simp: item_map_def)

lemma item_map_Some:
  "item_map its k = Some e \<Longrightarrow> e \<in> set its \<and> item_id e = k"
  by (induction its) (auto simp: item_map_def split: if_splits)

lemma item_map_append [cart_simps]:
  "item_map (its @ [x]) = (\<lambda>k. case item_map its k of None \<Rightarrow> (if k = item_id x then Some x else None) | Some e \<Rightarrow> Some e)"
  by (induction its) (auto simp: item_map_def fun_eq_iff split: option.splits)

lemma item_map_update_first:
  assumes "\<And>x. item_id (f x) = item_id x"
  shows "item_map (update_first (\<lambda>i. item_id i = k) f its) = (item_map its)(k := map_option f (item_map its k))"
  using assms by (induction its) (auto simp: item_map_def fun_eq_iff)

lemma item_map_remove_first:
  "distinct (map item_id its) \<Longrightarrow>
   item_map (remove_first (\<lambda>i. item_id i = k) its) = (item_map its)(k := None)"
proof (induction its)
  case Nil
  then show ?case by (simp add: item_map_def)
next
  case (Cons x its)
  show ?case
  proof (cases "item_id x = k")
    case True
    with Cons.prems have "item_map its k = None" by (simp add: item_map_None_iff)
    with True show ?thesis by (auto simp: item_map_def fun_eq_iff)
  next
    case False
    with Cons show ?thesis by (auto simp: item_map_def fun_eq_iff)
  qed
qed

lemma qty_map_None_iff [cart_simps]:
  "qty_map its k = None \<longleftrightarrow> k \<notin> set (map item_id its)"
  by (simp add: qty_map_def item_map_None_iff)

lemma qty_map_wf:
  "wf_items its \<Longrightarrow> qty_map its k = Some r \<Longrightarrow> qty_ok r"
  by (auto simp: qty_map_def wf_items_def list_all_iff dest: item_map_Some)

section \<open>Lemmas: the operations in terms of the abstraction\<close>

lemma clamp_quantity_bounds: "1 \<le> clamp_quantity q \<and> clamp_quantity q \<le> MAX_QUANTITY"
  by (simp add: clamp_quantity_def MAX_QUANTITY_def)

lemma merge_item_found:
  "item_map its (prod_id p) \<noteq> None \<Longrightarrow>
   merge_item its p q = update_first (\<lambda>i. item_id i = prod_id p)
     (\<lambda>e. e\<lparr>item_quantity := min (item_quantity e + clamp_quantity q) MAX_QUANTITY\<rparr>) its"
  by (auto simp: merge_item_def find_item_map)

lemma merge_item_new:
  "item_map its (prod_id p) = None \<Longrightarrow>
   merge_item its p q = its @ [new_line_item p (clamp_quantity q)]"
  by (simp add: merge_item_def find_item_map)

lemma splice_item_eq:
  "splice_item k its = (if k \<in> set (map item_id its) then Some (remove_first (\<lambda>i. item_id i = k) its) else None)"
proof (cases "js_find_index (\<lambda>i. item_id i = k) its = -1")
  case True
  then show ?thesis by (auto simp: splice_item_def js_find_index_neg_iff)
next
  case False
  then show ?thesis
    by (auto simp: splice_item_def splice1_find_index js_find_index_neg_iff)
qed

section \<open>Lemmas: accessors\<close>

lemma get_item_count_sum [cart_simps]: "get_item_count its = sum_list (map item_quantity its)"
  by (simp add: get_item_count_def foldl_add_sum_list)

lemma get_subtotal_sum [cart_simps]:
  "get_subtotal its = sum_list (map (\<lambda>i. item_price i * item_quantity i) its)"
  by (simp add: get_subtotal_def foldl_add_sum_list)

lemma get_items_copy [cart_simps]: "get_items its = its"
  by (induction its) (auto simp: get_items_def)

lemma is_empty_iff [cart_simps]: "is_empty its \<longleftrightarrow> its = []"
  by (simp add: is_empty_def)

section \<open>Lemmas: integer quantities\<close>

lemma is_integer_Ints: "is_integer q \<longleftrightarrow> q \<in> \<int>"
  by (metis Ints_cases Ints_of_int floor_of_int is_integer_def)

lemma MAX_QUANTITY_pos [cart_simps]: "1 \<le> MAX_QUANTITY" "0 < MAX_QUANTITY"
  by (simp_all add: MAX_QUANTITY_def)

lemma is_integer_closed [cart_simps]:
  "is_integer 1" "is_integer MAX_QUANTITY"
  "is_integer a \<Longrightarrow> is_integer b \<Longrightarrow> is_integer (a + b)"
  "is_integer a \<Longrightarrow> is_integer b \<Longrightarrow> is_integer (min a b)"
  "is_integer a \<Longrightarrow> is_integer b \<Longrightarrow> is_integer (max a b)"
  by (auto simp: is_integer_Ints MAX_QUANTITY_def min_def max_def)

lemma is_integer_pos_ge1:
  assumes "is_integer q" and "0 < q"
  shows "1 \<le> q"
proof -
  from assms(1) have q: "q = of_int \<lfloor>q\<rfloor>" unfolding is_integer_def by (rule sym)
  with assms(2) have "0 < \<lfloor>q\<rfloor>" by linarith
  then have "(1::rat) \<le> of_int \<lfloor>q\<rfloor>" by simp
  with q show ?thesis by simp
qed

lemma qty_ok_clamp [cart_simps]: "is_integer q \<Longrightarrow> qty_ok (clamp_quantity q)"
  using clamp_quantity_bounds [of q]
  by (simp add: qty_ok_def clamp_quantity_def is_integer_closed)

lemma qty_ok_merge:
  "qty_ok a \<Longrightarrow> is_integer q \<Longrightarrow> qty_ok (min (a + clamp_quantity q) MAX_QUANTITY)"
  using clamp_quantity_bounds [of q] qty_ok_clamp [of q] MAX_QUANTITY_pos
  by (auto simp: qty_ok_def is_integer_closed)

section \<open>Lemmas: the operations against the abstraction and the invariant\<close>

lemma qty_map_merge_item:
  "qty_map (merge_item its p q) =
     (qty_map its)(prod_id p \<mapsto>
        min ((case qty_map its (prod_id p) of None \<Rightarrow> 0 | Some k \<Rightarrow> k) + clamp_quantity q) MAX_QUANTITY)"
proof (cases "item_map its (prod_id p)")
  case None
  have "min (clamp_quantity q) MAX_QUANTITY = clamp_quantity q"
    using clamp_quantity_bounds [of q] by simp
  with None show ?thesis
    by (auto simp: merge_item_new qty_map_def item_map_append new_line_item_def fun_eq_iff
             split: option.splits)
next
  case (Some e)
  then show ?thesis
    by (auto simp: merge_item_found qty_map_def item_map_update_first fun_eq_iff)
qed

lemma wf_merge_item:
  assumes wf: "wf_items its" and q: "is_integer q"
  shows "wf_items (merge_item its p q)"
proof (cases "item_map its (prod_id p)")
  case None
  then have "prod_id p \<notin> set (map item_id its)" by (simp add: item_map_None_iff)
  with wf q None show ?thesis
    by (simp add: wf_items_def merge_item_new new_line_item_def qty_ok_clamp)
next
  case (Some e)
  let ?f = "\<lambda>e. e\<lparr>item_quantity := min (item_quantity e + clamp_quantity q) MAX_QUANTITY\<rparr>"
  have "distinct (map item_id (update_first (\<lambda>i. item_id i = prod_id p) ?f its))"
    using wf by (intro distinct_map_update_first) (simp_all add: wf_items_def)
  moreover have "list_all (\<lambda>i. qty_ok (item_quantity i)) (update_first (\<lambda>i. item_id i = prod_id p) ?f its)"
    using wf q by (intro list_all_update_first) (simp_all add: wf_items_def qty_ok_merge)
  ultimately show ?thesis
    using Some by (simp add: wf_items_def merge_item_found)
qed

lemma wf_splice_item:
  "wf_items its \<Longrightarrow> splice_item k its = Some its' \<Longrightarrow> wf_items its'"
  by (auto simp: wf_items_def splice_item_eq distinct_map_remove_first list_all_remove_first
           split: if_splits)

lemma wf_set_quantity:
  assumes wf: "wf_items its" and q: "is_integer q" "0 < q"
  shows "wf_items (set_quantity k q its)"
proof -
  have "qty_ok (min q MAX_QUANTITY)"
    using q is_integer_pos_ge1 [OF q] MAX_QUANTITY_pos by (simp add: qty_ok_def is_integer_closed)
  then show ?thesis
    using wf unfolding wf_items_def set_quantity_def
    by (auto intro: distinct_map_update_first list_all_update_first)
qed

lemma qty_map_set_quantity:
  "qty_map (set_quantity k q its) = (qty_map its)(k := map_option (\<lambda>_. min q MAX_QUANTITY) (qty_map its k))"
  by (auto simp: fun_eq_iff qty_map_def set_quantity_def item_map_update_first option.map_comp comp_def)

lemma qty_map_remove_first:
  "distinct (map item_id its) \<Longrightarrow> qty_map (remove_first (\<lambda>i. item_id i = k) its) = (qty_map its)(k := None)"
  by (simp add: qty_map_def item_map_remove_first fun_eq_iff)

lemma qty_map_splice_item:
  "distinct (map item_id its) \<Longrightarrow> splice_item k its = Some its' \<Longrightarrow> qty_map its' = (qty_map its)(k := None)"
  by (auto simp: splice_item_eq qty_map_def item_map_remove_first fun_eq_iff split: if_splits)

lemma inv_merge_item:
  assumes inv: "cart_inv its"
  shows "cart_inv (merge_item its p q)"
proof (cases "item_map its (prod_id p)")
  case None
  then have "prod_id p \<notin> set (map item_id its)" by (simp add: item_map_None_iff)
  with inv None clamp_quantity_bounds [of q] show ?thesis
    by (simp add: cart_inv_def merge_item_new new_line_item_def)
next
  case (Some e)
  let ?f = "\<lambda>e. e\<lparr>item_quantity := min (item_quantity e + clamp_quantity q) MAX_QUANTITY\<rparr>"
  have "distinct (map item_id (update_first (\<lambda>i. item_id i = prod_id p) ?f its))"
    using inv by (intro distinct_map_update_first) (simp_all add: cart_inv_def)
  moreover have "list_all (\<lambda>i. 0 < item_quantity i \<and> item_quantity i \<le> MAX_QUANTITY)
                   (update_first (\<lambda>i. item_id i = prod_id p) ?f its)"
    using inv clamp_quantity_bounds [of q] MAX_QUANTITY_pos
    by (intro list_all_update_first) (auto simp: cart_inv_def)
  ultimately show ?thesis
    using Some by (simp add: cart_inv_def merge_item_found)
qed

lemma inv_splice_item:
  "cart_inv its \<Longrightarrow> splice_item k its = Some its' \<Longrightarrow> cart_inv its'"
  by (auto simp: cart_inv_def splice_item_eq distinct_map_remove_first list_all_remove_first
           split: if_splits)

lemma inv_set_quantity:
  assumes inv: "cart_inv its" and q: "0 < q"
  shows "cart_inv (set_quantity k q its)"
  using inv q MAX_QUANTITY_pos unfolding cart_inv_def set_quantity_def
  by (auto intro: distinct_map_update_first list_all_update_first)

lemma wf_remove_first: "wf_items its \<Longrightarrow> wf_items (remove_first P its)"
  by (simp add: wf_items_def distinct_map_remove_first list_all_remove_first)

lemma inv_remove_first: "cart_inv its \<Longrightarrow> cart_inv (remove_first P its)"
  by (simp add: cart_inv_def distinct_map_remove_first list_all_remove_first)

lemma wf_items_Nil [cart_simps]: "wf_items []" and cart_inv_Nil [cart_simps]: "cart_inv []"
  by (simp_all add: wf_items_def cart_inv_def)

lemma filter_id_absent:
  "k \<notin> set (map item_id its) \<Longrightarrow> filter (\<lambda>i. item_id i = k) its = []"
  by (induction its) auto

end
