(* ===== verification/Catalog.thy ===== *)
theory Catalog
  imports Line_Items
begin

text \<open>
  The product catalog \<open>PRODUCTS\<close> (src/app.js, lines 23--44): twenty frozen product
  objects, the only products the storefront ever passes to \<open>addItem\<close>.  Each entry is
  a product record with all six fields (\<open>id\<close>, \<open>name\<close>, \<open>series\<close>, \<open>price\<close>,
  \<open>image\<close>, \<open>category\<close>); the cart reads four of them, the product grid renders
  \<open>series\<close> too, and \<open>category\<close> is read by no code.
  The lemma \<open>catalog_entries_valid\<close> shows that every entry passes the guard of \<open>addItem\<close>
  and that the ids are distinct, so a product found by id is the one clicked.
\<close>

definition mk_product :: "nat \<Rightarrow> string \<Rightarrow> string \<Rightarrow> rat \<Rightarrow> string \<Rightarrow> string \<Rightarrow> product" where
  "mk_product i nm series pr img cat =
     \<lparr>prod_id = JNum (of_nat i), prod_name = JStr nm, prod_series = JStr series, prod_price = Some pr,
      prod_image = JStr img, prod_category = JStr cat\<rparr>"

definition PRODUCTS :: "product list" where
  "PRODUCTS =
    [
     mk_product 1 ''Mai Sakurajima'' ''Rascal Does Not Dream of Bunny Girl Senpai'' 250 ''images/mai-sakurajima.png'' ''figure'',
     mk_product 2 ''Suou Yuki'' ''Tokidoki Bosotto Russia-go de Dereru Tonari no Alya-san'' 260 ''images/marin-my-dress-up-darling.png'' ''figure'',
     mk_product 3 ''Asuna Yuuki'' ''Sword Art Online'' 270 ''images/asuna-sword-art-online.png'' ''figure'',
     mk_product 4 ''Zero Two'' ''Darling in the FranXX'' 290 ''images/zero-two-darling-in-the-franxx.png'' ''figure'',
     mk_product 5 ''Alisa Mikhailovna'' ''Tokidoki Bosotto Russia-go de Dereru Tonari no Alya-san'' 300 ''images/saber-fate.png'' ''figure'',
     mk_product 6 ''Nezuko Kamado'' ''Demon Slayer'' 280 ''images/nezuko-demon-slayer.png'' ''figure'',
     mk_product 7 ''Kaguya Shinomiya'' ''Kaguya-sama: Love is War'' 250 ''images/kaguya-love-is-war.png'' ''figure'',
     mk_product 8 ''Nino Nakano'' ''The Quintessential Quintuplets'' 265 ''images/nino-nakano.png'' ''figure'',
     mk_product 9 ''Miku Nakano'' ''The Quintessential Quintuplets'' 270 ''images/miku-nakano.png'' ''figure'',
     mk_product 10 ''Yotsuba Nakano'' ''The Quintessential Quintuplets'' 275 ''images/yotsuba-nakano.png'' ''figure'',
     mk_product 11 ''Itsuki Nakano'' ''The Quintessential Quintuplets'' 280 ''images/itsuki-nakano.png'' ''figure'',
     mk_product 12 ''Ichika Nakano'' ''The Quintessential Quintuplets'' 260 ''images/ichika-nakano.png'' ''figure'',
     mk_product 13 ''Suma'' ''Demon Slayer'' 250 ''images/suma.png'' ''figure'',
     mk_product 14 ''Rio Futaba'' ''Rascal Does Not Dream of Bunny Girl Senpai'' 245 ''images/rio-futaba.png'' ''figure'',
     mk_product 15 ''Kaede Azusagawa'' ''Rascal Does Not Dream of Bunny Girl Senpai'' 245 ''images/kaede-azusagawa.png'' ''figure'',
     mk_product 16 ''Alya Kujou'' ''Tokidoki Bosotto Russia-go de Dereru Tonari no Alya-san'' 260 ''images/alya-kujou.png'' ''figure'',
     mk_product 17 ''Yuki Suou'' ''Tokidoki Bosotto Russia-go de Dereru Tonari no Alya-san'' 260 ''images/makio.png'' ''figure'',
     mk_product 18 ''Shinobu Kocho'' ''Demon Slayer'' 280 ''images/shinobu-kocho.png'' ''figure'',
     mk_product 19 ''Mitsuri Kanroji'' ''Demon Slayer'' 290 ''images/mitsuri-kanroji.png'' ''figure'',
     mk_product 20 ''Tamayo'' ''Demon Slayer'' 275 ''images/tamayo.png'' ''figure''
    ]"

text \<open>\<open>PRODUCTS.find((p) => p.id === id)\<close> in the click handler (lines 377--379).\<close>

definition find_product :: "jsval \<Rightarrow> product option" where
  "find_product pid = find (\<lambda>p. prod_id p = pid) PRODUCTS"

section \<open>Lemmas\<close>

lemma catalog_entries_valid:
  "list_all (\<lambda>p. \<not> invalid_product p \<and> js_typeof (prod_id p) = ''number'' \<and>
                 json_clean (prod_name p) \<and> json_clean (prod_image p)) PRODUCTS"
  by (simp add: PRODUCTS_def mk_product_def invalid_product_def price_val_def)

lemma catalog_ids_distinct: "distinct (map prod_id PRODUCTS)"
  by (simp add: PRODUCTS_def mk_product_def)

lemma find_product_Some:
  "find_product pid = Some p \<Longrightarrow> p \<in> set PRODUCTS \<and> prod_id p = pid"
  by (auto simp: find_product_def find_Some_iff nth_mem)

end
