(* ===== verification/Pricing.thy ===== *)
theory Pricing
  imports Line_Items Catalog
begin

text \<open>
  \<open>CartManager.getSummary(options)\<close> (src/app.js, lines 133--144): the derived price
  summary of the current items under a set of pricing options.  The options object is
  destructured with defaults, so an absent option (\<open>None\<close>) counts as \<open>0\<close>.  The
  lemmas give the summary field by field, its bounds (the total is never negative, the
  tax is whole cents within half a cent of the exact tax), and the two behaviours the
  spec singles out: shipping is suppressed on an empty cart, and the worked example
  with a coupon, a tax rate and a shipping cost.
\<close>

record pricing_options =
  coupon_discount :: "rat option"
  tax_rate :: "rat option"
  shipping_cost :: "rat option"

text \<open>\<open>getSummary()\<close>: the default argument \<open>{}\<close>.\<close>

definition no_options :: pricing_options where
  "no_options = \<lparr>coupon_discount = None, tax_rate = None, shipping_cost = None\<rparr>"

record summary =
  sm_subtotal :: rat
  sm_discount :: rat
  sm_tax :: rat
  sm_shipping :: rat
  sm_total :: rat
  sm_item_count :: rat

text \<open>\<open>const { x = 0 } = options\<close>\<close>

definition opt_or_zero :: "rat option \<Rightarrow> rat" where
  "opt_or_zero v = (case v of None \<Rightarrow> 0 | Some r \<Rightarrow> r)"

definition get_summary :: "items \<Rightarrow> pricing_options \<Rightarrow> summary" where
  "get_summary its options =
     (let couponDiscount = opt_or_zero (coupon_discount options);
          taxRate = opt_or_zero (tax_rate options);
          shippingCost = opt_or_zero (shipping_cost options);
          subtotal = get_subtotal its;
          discount = min couponDiscount subtotal;
          taxableAmount = subtotal - discount;
          tax = js_round (taxableAmount * taxRate * 100) / 100;
          shipping = (if is_empty its then 0 else shippingCost);
          total = max 0 (taxableAmount + tax + shipping)
      in \<lparr>sm_subtotal = subtotal, sm_discount = discount, sm_tax = tax,
          sm_shipping = shipping, sm_total = total, sm_item_count = get_item_count its\<rparr>)"

section \<open>Lemmas\<close>

lemma get_summary_fields [cart_simps]:
  "sm_subtotal (get_summary its opts) = get_subtotal its"
  "sm_discount (get_summary its opts) = min (opt_or_zero (coupon_discount opts)) (get_subtotal its)"
  "sm_tax (get_summary its opts) =
     js_round ((get_subtotal its - min (opt_or_zero (coupon_discount opts)) (get_subtotal its))
               * opt_or_zero (tax_rate opts) * 100) / 100"
  "sm_shipping (get_summary its opts) = (if its = [] then 0 else opt_or_zero (shipping_cost opts))"
  "sm_total (get_summary its opts) =
     max 0 (get_subtotal its - sm_discount (get_summary its opts) + sm_tax (get_summary its opts)
            + sm_shipping (get_summary its opts))"
  "sm_item_count (get_summary its opts) = get_item_count its"
  by (simp_all add: get_summary_def Let_def is_empty_iff)

lemma js_round_bounds: "x - 1/2 < js_round x \<and> js_round x \<le> x + 1/2"
proof -
  have "of_int \<lfloor>x + 1/2\<rfloor> \<le> x + 1/2" by (rule of_int_floor_le)
  moreover have "x + 1/2 < of_int \<lfloor>x + 1/2\<rfloor> + 1" using floor_correct [of "x + 1/2"] by simp
  ultimately show ?thesis by (simp add: js_round_def)
qed

lemma js_round_integer: "js_round x \<in> \<int>"
  by (simp add: js_round_def)

lemma get_subtotal_Nil [cart_simps]: "get_subtotal [] = 0"
  by (simp add: get_subtotal_def)

lemma js_round_of_int: "js_round (of_int k) = of_int k"
proof -
  have "\<lfloor>of_int k + 1/2 :: rat\<rfloor> = k" by (rule floor_unique) simp_all
  then show ?thesis by (simp add: js_round_def)
qed

lemma js_round_numeral [cart_simps]: "js_round (numeral n) = numeral n" and js_round_0 [cart_simps]: "js_round 0 = 0"
  using js_round_of_int [of "numeral n"] js_round_of_int [of 0] by simp_all

lemma js_round_cents: "\<bar>js_round (x * 100) / 100 - x\<bar> \<le> 1/200"
proof -
  have "x * 100 - 1/2 < js_round (x * 100) \<and> js_round (x * 100) \<le> x * 100 + 1/2"
    by (rule js_round_bounds)
  then show ?thesis unfolding abs_le_iff by linarith
qed

lemma js_round_mono: "x \<le> y \<Longrightarrow> js_round x \<le> js_round y"
  by (simp add: js_round_def floor_mono)

lemma js_round_nonneg: "0 \<le> x \<Longrightarrow> 0 \<le> js_round x"
  using js_round_mono [of 0 x] by (simp add: js_round_0)

lemma get_subtotal_nonempty: "get_subtotal its \<noteq> 0 \<Longrightarrow> its \<noteq> []"
  by (auto simp: get_subtotal_Nil)

section \<open>Properties\<close>

text \<open>
  C13.  The spec's worked example: on a cart with subtotal 300,
  \<open>getSummary({couponDiscount: 20, taxRate: 0.16, shippingCost: 50})\<close> gives
  discount 20, tax 44.8 (rounded to cents), shipping 50 and total 374.8.
\<close>

theorem summary_example:
  assumes "get_subtotal its = 300"
  shows "get_summary its \<lparr>coupon_discount = Some 20, tax_rate = Some (16/100), shipping_cost = Some 50\<rparr> =
         \<lparr>sm_subtotal = 300, sm_discount = 20, sm_tax = 224/5, sm_shipping = 50,
          sm_total = 1874/5, sm_item_count = get_item_count its\<rparr>"
proof -
  have "its \<noteq> []" using assms by (intro get_subtotal_nonempty) simp
  with assms show ?thesis
    by (simp add: get_summary_def Let_def opt_or_zero_def is_empty_iff js_round_numeral)
qed

theorem summary_example_witness:
  "get_summary [new_line_item (PRODUCTS ! 4) 1]
     \<lparr>coupon_discount = Some 20, tax_rate = Some (16/100), shipping_cost = Some 50\<rparr> =
   \<lparr>sm_subtotal = 300, sm_discount = 20, sm_tax = 224/5, sm_shipping = 50,
    sm_total = 1874/5, sm_item_count = 1\<rparr>"
proof -
  have s: "get_subtotal [new_line_item (PRODUCTS ! 4) 1] = 300"
    by (simp add: get_subtotal_def new_line_item_def PRODUCTS_def mk_product_def price_val_def)
  have c: "get_item_count [new_line_item (PRODUCTS ! 4) 1] = 1"
    by (simp add: get_item_count_def new_line_item_def)
  from summary_example [OF s] show ?thesis by (simp add: c)
qed

text \<open>
  C14.  On an empty cart, with any tax rate and shipping cost and a coupon that is not
  negative (in particular for \<open>getSummary()\<close>), the subtotal, the shipping and the
  total are 0: shipping is suppressed when the cart is empty.
\<close>

theorem summary_empty_cart:
  assumes "0 \<le> opt_or_zero (coupon_discount opts)"
  shows "sm_subtotal (get_summary [] opts) = 0 \<and> sm_shipping (get_summary [] opts) = 0 \<and>
         sm_total (get_summary [] opts) = 0"
  using assms by (simp add: get_summary_def Let_def is_empty_iff get_subtotal_Nil js_round_0)

theorem summary_empty_cart_witness:
  "sm_subtotal (get_summary [] \<lparr>coupon_discount = Some 20, tax_rate = Some (16/100), shipping_cost = Some 50\<rparr>) = 0 \<and>
   sm_shipping (get_summary [] \<lparr>coupon_discount = Some 20, tax_rate = Some (16/100), shipping_cost = Some 50\<rparr>) = 0 \<and>
   sm_total (get_summary [] \<lparr>coupon_discount = Some 20, tax_rate = Some (16/100), shipping_cost = Some 50\<rparr>) = 0"
  by (rule summary_empty_cart) (simp add: opt_or_zero_def)

text \<open>
  C15.  Bounds of every summary: the total is never negative, the discount never
  exceeds the subtotal, and the tax is a whole number of cents within half a cent of the
  exact tax \<open>taxableAmount \<times> taxRate\<close>.
\<close>

theorem summary_bounds:
  "0 \<le> sm_total (get_summary its opts) \<and>
   sm_discount (get_summary its opts) \<le> sm_subtotal (get_summary its opts) \<and>
   \<bar>sm_tax (get_summary its opts) -
      (sm_subtotal (get_summary its opts) - sm_discount (get_summary its opts)) * opt_or_zero (tax_rate opts)\<bar> \<le> 1/200 \<and>
   sm_tax (get_summary its opts) * 100 \<in> \<int>"
proof -
  let ?x = "(get_subtotal its - min (opt_or_zero (coupon_discount opts)) (get_subtotal its)) * opt_or_zero (tax_rate opts)"
  have "\<bar>js_round (?x * 100) / 100 - ?x\<bar> \<le> 1/200" by (rule js_round_cents)
  moreover have "js_round (?x * 100) / 100 * 100 \<in> \<int>" by (simp add: js_round_integer)
  ultimately show ?thesis
    by (simp add: get_summary_fields mult.assoc)
qed

text \<open>
  C16.  The coupon is not bounded below (line 137 takes
  \<open>Math.min(couponDiscount, subtotal)\<close> only): for every cart with a nonnegative
  subtotal, a nonnegative tax rate and shipping cost, a negative coupon \<open>c\<close> is the
  discount, and the total is at least \<open>|c|\<close> more than with no coupon at all; on an
  empty cart the customer is charged for nothing.
\<close>

theorem negative_coupon_raises_total:
  assumes "coupon_discount opts = Some c" and "c < 0" and "0 \<le> get_subtotal its"
    and "0 \<le> opt_or_zero (tax_rate opts)" and "0 \<le> opt_or_zero (shipping_cost opts)"
  shows "sm_discount (get_summary its opts) = c \<and>
         sm_total (get_summary its (opts\<lparr>coupon_discount := None\<rparr>)) - c \<le> sm_total (get_summary its opts)"
proof -
  let ?S = "get_subtotal its" and ?r = "opt_or_zero (tax_rate opts)"
  let ?sh = "if is_empty its then 0 else opt_or_zero (shipping_cost opts)"
  have sh: "0 \<le> ?sh" using assms(5) by simp
  have t0: "0 \<le> js_round (?S * ?r * 100)" using assms(3,4) by (simp add: js_round_nonneg)
  have "?S * ?r * 100 \<le> (?S - c) * ?r * 100" using assms(2,4) by (simp add: mult_right_mono)
  then have t: "js_round (?S * ?r * 100) \<le> js_round ((?S - c) * ?r * 100)" by (rule js_round_mono)
  have e: "opt_or_zero None = 0" "opt_or_zero (Some c) = c" by (simp_all add: opt_or_zero_def)
  have "0 \<le> ?S + js_round (?S * ?r * 100) / 100 + ?sh" using assms(3) t0 sh by simp
  then have "sm_total (get_summary its (opts\<lparr>coupon_discount := None\<rparr>)) = ?S + js_round (?S * ?r * 100) / 100 + ?sh"
    using assms(3) by (simp add: get_summary_def Let_def e)
  moreover have "sm_total (get_summary its opts) = max 0 (?S - c + js_round ((?S - c) * ?r * 100) / 100 + ?sh)"
    and "sm_discount (get_summary its opts) = c"
    using assms(1-3) by (simp_all add: get_summary_def Let_def e)
  ultimately show ?thesis using t by (simp add: divide_right_mono)
qed

theorem negative_coupon_raises_total_witness:
  "sm_discount (get_summary [] \<lparr>coupon_discount = Some (-5), tax_rate = None, shipping_cost = None\<rparr>) = -5 \<and>
   sm_total (get_summary [] (\<lparr>coupon_discount = Some (-5), tax_rate = None, shipping_cost = None\<rparr>
     \<lparr>coupon_discount := None\<rparr>)) - (-5) \<le>
   sm_total (get_summary [] \<lparr>coupon_discount = Some (-5), tax_rate = None, shipping_cost = None\<rparr>)"
  by (rule negative_coupon_raises_total) (simp_all add: opt_or_zero_def get_subtotal_Nil)

end
