(* ===== verification/Events.thy ===== *)
theory Events
  imports Js_Values
begin

text \<open>
  The observer registry of \<open>CartManager\<close> (src/app.js, lines 158--170): the private
  field \<open>#listeners\<close>, a plain object from event name to an array of callbacks; \<open>on\<close>,
  which appends a callback and returns a closure that filters it out again; and
  \<open>#emit\<close>, which calls every callback of the event in registration order, each inside
  its own \<open>try\<close>/\<open>catch\<close> that logs the error and goes on.
  Callbacks are values of a type variable \<open>'cb\<close> compared by identity (\<open>!==\<close>), and
  which of them throw on which data is the parameter \<open>throws\<close>.  What a callback does
  besides throwing (re-rendering the page) is not the cart's concern; a callback that
  calls back into the cart is not modelled.
\<close>

text \<open>The \<open>action\<close> of a change event and the event data \<open>{ action, productId }\<close>.\<close>

datatype action = ActAdd | ActRemove | ActUpdate | ActClear

datatype change = Change action "jsval option"

text \<open>Observable effects, in the order they happen: a callback invoked with its data, a
  message written to \<open>console.error\<close>.\<close>

datatype 'cb effect = Invoked 'cb change | Logged string

type_synonym 'cb listeners = "string \<Rightarrow> 'cb list option"

definition on :: "string \<Rightarrow> 'cb \<Rightarrow> 'cb listeners \<Rightarrow> 'cb listeners" where
  "on event callback ls =
     (let l = (case ls event of None \<Rightarrow> [] | Some l \<Rightarrow> l) in ls(event \<mapsto> l @ [callback]))"

text \<open>
  The closure \<open>on\<close> returns.  It is created only after \<open>on\<close> has stored an array
  under \<open>event\<close>, so the \<open>None\<close> branch is never taken (\<open>listeners_on_defined\<close>).
\<close>

definition unsubscribe :: "string \<Rightarrow> 'cb \<Rightarrow> 'cb listeners \<Rightarrow> 'cb listeners" where
  "unsubscribe event callback ls =
     (case ls event of
        None \<Rightarrow> ls
      | Some l \<Rightarrow> ls(event \<mapsto> filter (\<lambda>cb. cb \<noteq> callback) l))"

text \<open>\<open>forEach\<close> with the \<open>try\<close>/\<open>catch\<close> of each callback.\<close>

fun notify_all :: "('cb \<Rightarrow> change \<Rightarrow> bool) \<Rightarrow> 'cb list \<Rightarrow> change \<Rightarrow> 'cb effect list" where
  "notify_all throws [] data = []"
| "notify_all throws (cb # cbs) data =
     Invoked cb data # (if throws cb data then [Logged ''Cart event error:''] else [])
     @ notify_all throws cbs data"

definition emit :: "('cb \<Rightarrow> change \<Rightarrow> bool) \<Rightarrow> string \<Rightarrow> change \<Rightarrow> 'cb listeners \<Rightarrow> 'cb effect list" where
  "emit throws event data ls = notify_all throws (case ls event of None \<Rightarrow> [] | Some l \<Rightarrow> l) data"

text \<open>The callbacks invoked in a list of effects, in order.\<close>

fun invoked :: "'cb effect list \<Rightarrow> ('cb \<times> change) list" where
  "invoked [] = []"
| "invoked (Invoked cb d # es) = (cb, d) # invoked es"
| "invoked (Logged m # es) = invoked es"

definition subscribers :: "'cb listeners \<Rightarrow> string \<Rightarrow> 'cb list" where
  "subscribers ls event = (case ls event of None \<Rightarrow> [] | Some l \<Rightarrow> l)"

section \<open>Lemmas\<close>

lemma invoked_append [cart_simps]: "invoked (es @ fs) = invoked es @ invoked fs"
  by (induction es rule: invoked.induct) auto

lemma invoked_notify_all [cart_simps]:
  "invoked (notify_all throws cbs data) = map (\<lambda>cb. (cb, data)) cbs"
  by (induction cbs) (auto simp: invoked_append)

lemma invoked_emit [cart_simps]:
  "invoked (emit throws event data ls) = map (\<lambda>cb. (cb, data)) (subscribers ls event)"
  by (simp add: emit_def subscribers_def invoked_notify_all)

lemma subscribers_on [cart_simps]:
  "subscribers (on event cb ls) e = (if e = event then subscribers ls e @ [cb] else subscribers ls e)"
  by (simp add: on_def subscribers_def Let_def)

lemma subscribers_unsubscribe [cart_simps]:
  "subscribers (unsubscribe event cb ls) e =
     (if e = event then filter (\<lambda>c. c \<noteq> cb) (subscribers ls e) else subscribers ls e)"
  by (simp add: unsubscribe_def subscribers_def split: option.splits)

lemma invoked_Logged [cart_simps]: "invoked (map Logged ms) = []"
  by (induction ms) auto

lemma listeners_on_defined: "on event cb ls event \<noteq> None"
  by (simp add: on_def Let_def)

lemma logged_notify_all:
  "filter (\<lambda>e. e = Logged ''Cart event error:'') (notify_all throws cbs data) =
   map (\<lambda>cb. Logged ''Cart event error:'') (filter (\<lambda>cb. throws cb data) cbs)"
  by (induction cbs) auto

section \<open>Properties\<close>

text \<open>
  C17.  Subscriber failures are isolated: which callbacks \<open>#emit\<close> invokes, and in
  which order, does not depend on which of them throw, and each throw is logged exactly
  once.
\<close>

theorem emit_isolation:
  "invoked (emit throws event data ls) = invoked (emit (\<lambda>cb d. False) event data ls) \<and>
   length (filter (\<lambda>e. e = Logged ''Cart event error:'') (emit throws event data ls)) =
   length (filter (\<lambda>cb. throws cb data) (subscribers ls event))"
proof -
  have "invoked (notify_all throws cbs data) = invoked (notify_all (\<lambda>cb d. False) cbs data) \<and>
        length (filter (\<lambda>e. e = Logged ''Cart event error:'') (notify_all throws cbs data)) =
        length (filter (\<lambda>cb. throws cb data) cbs)" for cbs
    by (induction cbs) (auto simp: invoked_append)
  then show ?thesis by (simp add: emit_def subscribers_def)
qed

text \<open>
  C18.  After calling the function \<open>on\<close> returned, the callback is no longer notified,
  and the other callbacks of the event are still notified in their order.
\<close>

theorem unsubscribe_stops:
  "invoked (emit throws event data (unsubscribe event cb ls)) =
   map (\<lambda>c. (c, data)) (filter (\<lambda>c. c \<noteq> cb) (subscribers ls event))"
  by (simp add: invoked_emit subscribers_unsubscribe)

text \<open>Calling the unsubscribe function twice has the effect of calling it once.\<close>

theorem unsubscribe_idempotent:
  "unsubscribe event cb (unsubscribe event cb ls) = unsubscribe event cb ls"
  by (auto simp: unsubscribe_def fun_eq_iff split: option.splits)

text \<open>
  \<open>on\<close> appends: after subscribing a callback, every emission of that event
  notifies the earlier subscribers as before and then the new one.
\<close>

theorem on_appends:
  "invoked (emit throws event data (on event cb ls)) = invoked (emit throws event data ls) @ [(cb, data)]"
  by (simp add: invoked_emit subscribers_on)

text \<open>
  The unsubscribe function removes the callback by identity from the whole array,
  so when the same function is subscribed twice, calling either returned function stops
  both registrations: the spec's "removes exactly that callback" holds per function,
  not per subscription.
\<close>

theorem unsubscribe_removes_all_registrations:
  "invoked (emit (\<lambda>cb d. False) ''change'' (Change ActClear None) (on ''change'' (1::nat) (on ''change'' 1 Map.empty)))
     = [(1, Change ActClear None), (1, Change ActClear None)] \<and>
   invoked (emit (\<lambda>cb d. False) ''change'' (Change ActClear None)
     (unsubscribe ''change'' (1::nat) (on ''change'' 1 (on ''change'' 1 Map.empty)))) = []"
  by (simp add: invoked_emit subscribers_def on_def unsubscribe_def)

end
