(* ===== verification/Persistence.thy ===== *)
theory Persistence
  imports Line_Items
begin

text \<open>
  Persistence of \<open>CartManager\<close> (src/app.js, lines 56, 174--200): \<open>#save\<close> writes
  \<open>JSON.stringify(this.#items)\<close> to \<open>localStorage\<close> under \<open>STORAGE_KEY\<close>, and
  \<open>#load\<close>, run by the constructor, reads it back, keeps the array elements that are
  well-formed records and drops the rest.  The channel is a record: the stored payload
  under each key, and whether reads and writes succeed (\<open>localStorage\<close> disabled,
  quota exceeded).  A payload is kept as the outcome of \<open>JSON.parse\<close> on its text:
  a JSON tree, or a text that does not parse (which includes the empty string).  The
  lemmas give the validation of \<open>#load\<close>, the effect of a failed write, and the round
  trip: what \<open>#save\<close> writes, \<open>#load\<close> reads back as the same items, for items
  with numeric ids and JSON values as names and images.
\<close>

definition STORAGE_KEY :: string where
  "STORAGE_KEY = ''anime_queens_cart''"

datatype stored = Stored jsval | Unparseable

record storage =
  st_data :: "string \<Rightarrow> stored option"
  st_readable :: bool
  st_writable :: bool

section \<open>save\<close>

text \<open>An item as the object literal \<open>JSON.stringify\<close> sees: keys in insertion order.\<close>

definition item_to_json :: "line_item \<Rightarrow> jsval" where
  "item_to_json i =
     JObj [(''id'', item_id i), (''name'', item_name i), (''price'', JNum (item_price i)),
           (''image'', item_image i), (''quantity'', JNum (item_quantity i))]"

definition serialize :: "items \<Rightarrow> stored" where
  "serialize its = Stored (json_of (JArr (map item_to_json its)))"

text \<open>The new channel and the messages written to \<open>console.error\<close>.\<close>

definition save :: "items \<Rightarrow> storage \<Rightarrow> storage \<times> string list" where
  "save its st =
     (if st_writable st then (st\<lparr>st_data := (st_data st)(STORAGE_KEY \<mapsto> serialize its)\<rparr>, [])
      else (st, [''CartManager: failed to persist cart'']))"

section \<open>load\<close>

text \<open>The filter predicate of \<open>#load\<close> (lines 190--195).\<close>

definition valid_record :: "jsval \<Rightarrow> bool" where
  "valid_record item \<longleftrightarrow>
     truthy item \<and>
     js_typeof (get_prop item ''id'') = ''number'' \<and>
     js_typeof (get_prop item ''price'') = ''number'' \<and>
     js_typeof (get_prop item ''quantity'') = ''number'' \<and>
     0 < num_val (get_prop item ''quantity'')"

text \<open>A kept record, read through the fields the cart uses.\<close>

definition item_of_json :: "jsval \<Rightarrow> line_item" where
  "item_of_json v =
     \<lparr>item_id = get_prop v ''id'', item_name = get_prop v ''name'',
      item_price = num_val (get_prop v ''price''), item_image = get_prop v ''image'',
      item_quantity = num_val (get_prop v ''quantity'')\<rparr>"

text \<open>
  \<open>#load\<close>: the items the constructor starts with.  A read that throws, a missing
  key, a payload that does not parse and a payload that is not an array all leave the
  initial \<open>[]\<close>.
\<close>

definition load :: "storage \<Rightarrow> items" where
  "load st =
     (if \<not> st_readable st then []
      else case st_data st STORAGE_KEY of
        None \<Rightarrow> []
      | Some Unparseable \<Rightarrow> []
      | Some (Stored parsed) \<Rightarrow>
          (case parsed of
             JArr vs \<Rightarrow> map item_of_json (filter valid_record vs)
           | _ \<Rightarrow> []))"

section \<open>What survives a round trip\<close>

text \<open>
  The items whose stored form \<open>#load\<close> reads back: a numeric id, a positive quantity,
  and a name and image that \<open>JSON.stringify\<close> keeps as they are.
\<close>

definition persistable :: "line_item \<Rightarrow> bool" where
  "persistable i \<longleftrightarrow>
     js_typeof (item_id i) = ''number'' \<and> 0 < item_quantity i \<and>
     json_clean (item_name i) \<and> json_clean (item_image i)"

section \<open>Lemmas\<close>

lemma get_prop_json_of_JObj:
  "distinct (map fst kvs) \<Longrightarrow> get_prop (json_of (JObj kvs)) k = json_of (get_prop (JObj kvs) k)"
proof (induction kvs)
  case Nil
  then show ?case by simp
next
  case (Cons kv kvs)
  then have "fst kv \<notin> set (map fst kvs)" by simp
  then have "map_of kvs (fst kv) = None" by (simp add: map_of_eq_None_iff)
  with Cons show ?case by (cases kv) auto
qed

lemma json_item_fields [cart_simps]:
  "get_prop (json_of (item_to_json i)) ''id'' = json_of (item_id i)"
  "get_prop (json_of (item_to_json i)) ''name'' = json_of (item_name i)"
  "get_prop (json_of (item_to_json i)) ''price'' = JNum (item_price i)"
  "get_prop (json_of (item_to_json i)) ''image'' = json_of (item_image i)"
  "get_prop (json_of (item_to_json i)) ''quantity'' = JNum (item_quantity i)"
  by (simp_all add: item_to_json_def get_prop_json_of_JObj del: json_of.simps(2))

lemma persistable_valid_record:
  "persistable i \<Longrightarrow> valid_record (json_of (item_to_json i))"
  by (auto simp: valid_record_def persistable_def json_item_fields typeof_number_iff
           item_to_json_def)

lemma persistable_item_of_json:
  "persistable i \<Longrightarrow> item_of_json (json_of (item_to_json i)) = i"
  by (auto simp: item_of_json_def persistable_def json_item_fields typeof_number_iff json_of_clean)

lemma load_serialize:
  "st_readable st \<Longrightarrow> st_data st STORAGE_KEY = Some (serialize its) \<Longrightarrow> list_all persistable its \<Longrightarrow>
   load st = its"
proof -
  assume r: "st_readable st" and d: "st_data st STORAGE_KEY = Some (serialize its)"
    and p: "list_all persistable its"
  have "json_of (JArr (map item_to_json its)) = JArr (map (\<lambda>i. json_of (item_to_json i)) its)"
    by (simp add: item_to_json_def del: json_of.simps(2))
  with d have d': "st_data st STORAGE_KEY = Some (Stored (JArr (map (\<lambda>i. json_of (item_to_json i)) its)))"
    by (simp only: serialize_def)
  have "filter valid_record (map (\<lambda>i. json_of (item_to_json i)) its) = map (\<lambda>i. json_of (item_to_json i)) its"
    using p by (induction its) (auto simp: persistable_valid_record)
  moreover have "map item_of_json (map (\<lambda>i. json_of (item_to_json i)) its) = its"
    using p by (induction its) (auto simp: persistable_item_of_json)
  ultimately show ?thesis
    using r d' by (simp add: load_def del: json_of.simps)
qed

lemma save_storage_flags [cart_simps]:
  "st_readable (fst (save its st)) = st_readable st"
  "st_writable (fst (save its st)) = st_writable st"
  by (simp_all add: save_def)

lemma persistable_merge_item:
  assumes "list_all persistable its" and "js_typeof (prod_id p) = ''number''"
    and "json_clean (prod_name p)" and "json_clean (prod_image p)"
  shows "list_all persistable (merge_item its p q)"
proof (cases "item_map its (prod_id p)")
  case None
  with assms clamp_quantity_bounds [of q] show ?thesis
    by (simp add: merge_item_new new_line_item_def persistable_def)
next
  case (Some e)
  with assms clamp_quantity_bounds [of q] MAX_QUANTITY_pos show ?thesis
    by (simp add: merge_item_found, intro list_all_update_first) (auto simp: persistable_def)
qed

lemma persistable_set_quantity:
  "list_all persistable its \<Longrightarrow> 0 < q \<Longrightarrow> list_all persistable (set_quantity k q its)"
  using MAX_QUANTITY_pos unfolding set_quantity_def
  by (intro list_all_update_first) (auto simp: persistable_def)

section \<open>Properties\<close>

lemma load_ids_number:
  "list_all (\<lambda>i. js_typeof (item_id i) = ''number'') (load st)"
  by (auto simp: load_def valid_record_def item_of_json_def list_all_iff
           split: stored.splits jsval.splits option.splits)

text \<open>
  C19.  Round trip of \<open>#save\<close> and \<open>#load\<close>: on a storage that accepts the write and
  the read, loading after saving gives back the same items, for items with numeric
  ids, positive quantities and JSON values as names and images.
\<close>

theorem save_load_roundtrip:
  assumes "st_readable st" and "st_writable st" and "list_all persistable its"
  shows "load (fst (save its st)) = its"
proof -
  have "st_data (fst (save its st)) STORAGE_KEY = Some (serialize its)"
    using assms(2) by (simp add: save_def)
  moreover have "st_readable (fst (save its st))" using assms(1) by (simp add: save_storage_flags)
  ultimately show ?thesis using assms(3) by (intro load_serialize)
qed

theorem save_load_roundtrip_witness:
  "load (fst (save [\<lparr>item_id = JNum 1, item_name = JStr ''Mai Sakurajima'', item_price = 250,
       item_image = JStr ''images/mai-sakurajima.png'', item_quantity = 2\<rparr>] \<lparr>st_data = Map.empty, st_readable = True, st_writable = True\<rparr>)) = [\<lparr>item_id = JNum 1, item_name = JStr ''Mai Sakurajima'', item_price = 250,
       item_image = JStr ''images/mai-sakurajima.png'', item_quantity = 2\<rparr>]"
  by (rule save_load_roundtrip) (simp_all add: persistable_def)

text \<open>
  C20.  Whatever is stored, every item \<open>#load\<close> admits comes from a record of the
  stored array whose \<open>id\<close> is a number, whose \<open>price\<close> is a number and is the
  item's price, and whose \<open>quantity\<close> is a positive number and is the item's
  quantity: malformed records never enter the cart (lines 190--195).
\<close>

theorem load_sound:
  "list_all (\<lambda>i. \<exists>vs v. st_readable st \<and> st_data st STORAGE_KEY = Some (Stored (JArr vs)) \<and> v \<in> set vs \<and>
       get_prop v ''id'' = item_id i \<and> js_typeof (item_id i) = ''number'' \<and>
       get_prop v ''price'' = JNum (item_price i) \<and>
       get_prop v ''quantity'' = JNum (item_quantity i) \<and> 0 < item_quantity i) (load st)"
proof -
  have r: "get_prop v ''id'' = item_id (item_of_json v) \<and> js_typeof (item_id (item_of_json v)) = ''number'' \<and>
           get_prop v ''price'' = JNum (item_price (item_of_json v)) \<and>
           get_prop v ''quantity'' = JNum (item_quantity (item_of_json v)) \<and> 0 < item_quantity (item_of_json v)"
    if "valid_record v" for v
    using that by (auto simp: valid_record_def item_of_json_def typeof_number_iff)
  show ?thesis unfolding list_all_iff
  proof
    fix i assume "i \<in> set (load st)"
    then obtain vs v where "st_readable st" "st_data st STORAGE_KEY = Some (Stored (JArr vs))"
      "v \<in> set vs" "valid_record v" "i = item_of_json v"
      by (auto simp: load_def split: if_splits option.splits stored.splits jsval.splits) metis
    with r show "\<exists>vs v. st_readable st \<and> st_data st STORAGE_KEY = Some (Stored (JArr vs)) \<and> v \<in> set vs \<and>
       get_prop v ''id'' = item_id i \<and> js_typeof (item_id i) = ''number'' \<and>
       get_prop v ''price'' = JNum (item_price i) \<and>
       get_prop v ''quantity'' = JNum (item_quantity i) \<and> 0 < item_quantity i" by blast
  qed
qed

text \<open>
  The spec's example: a payload holding one well-formed record and one record
  without \<open>price\<close> loads as a cart with the well-formed record only.
\<close>

theorem load_drops_malformed:
  "load \<lparr>st_data = [STORAGE_KEY \<mapsto> Stored (JArr
       [JObj [(''id'', JNum 1), (''name'', JStr ''Mai Sakurajima''), (''price'', JNum 250),
                 (''image'', JStr ''images/mai-sakurajima.png''), (''quantity'', JNum 2)],
        JObj [(''id'', JNum 2), (''name'', JStr ''Suou Yuki''), (''quantity'', JNum 1)]])],
     st_readable = True, st_writable = True\<rparr> =
   [\<lparr>item_id = JNum 1, item_name = JStr ''Mai Sakurajima'', item_price = 250,
       item_image = JStr ''images/mai-sakurajima.png'', item_quantity = 2\<rparr>]"
  by (simp add: load_def valid_record_def item_of_json_def)

text \<open>
  C21.  Loading fails safe: when the read throws, the key is absent, the payload does
  not parse, or it parses to something other than an array, the cart starts empty.
\<close>

theorem load_fail_safe:
  assumes "\<not> st_readable st \<or> st_data st STORAGE_KEY = None \<or> st_data st STORAGE_KEY = Some Unparseable \<or>
           (\<exists>v. st_data st STORAGE_KEY = Some (Stored v) \<and> (\<forall>vs. v \<noteq> JArr vs))"
  shows "load st = []"
  using assms by (auto simp: load_def split: jsval.splits)

theorem load_fail_safe_witness:
  "load \<lparr>st_data = [STORAGE_KEY \<mapsto> Stored (JObj [(''id'', JNum 1)])], st_readable = True, st_writable = True\<rparr> = []"
  by (rule load_fail_safe) simp

text \<open>
  C22.  \<open>#load\<close> checks types and positivity only (lines 190--195): for every
  storage and every stored array, a record with a numeric \<open>id\<close> and \<open>price\<close> and a
  positive \<open>quantity\<close> above \<open>MAX_QUANTITY\<close> or not an integer enters the cart as it
  is, so a freshly constructed cart breaks the data-model invariant.
\<close>

theorem load_breaks_invariant:
  assumes "st_readable st" and "st_data st STORAGE_KEY = Some (Stored (JArr vs))" and "v \<in> set vs"
    and "js_typeof (get_prop v ''id'') = ''number''" and "js_typeof (get_prop v ''price'') = ''number''"
    and "get_prop v ''quantity'' = JNum n" and "0 < n" and "MAX_QUANTITY < n \<or> \<not> is_integer n"
  shows "item_of_json v \<in> set (load st) \<and> item_quantity (item_of_json v) = n \<and> \<not> wf_items (load st)"
proof -
  have "truthy v" using assms(4) by (cases v) simp_all
  with assms(4-7) have "valid_record v" by (simp add: valid_record_def)
  with assms(1-3) have m: "item_of_json v \<in> set (load st)" by (simp add: load_def)
  have q: "item_quantity (item_of_json v) = n" using assms(6) by (simp add: item_of_json_def)
  have "\<not> qty_ok n" using assms(8) by (auto simp: qty_ok_def)
  with m q have "\<not> wf_items (load st)" by (auto simp: wf_items_def list_all_iff)
  with m q show ?thesis by blast
qed

theorem load_breaks_invariant_witness:
  "item_of_json (JObj [(''id'', JNum 1), (''price'', JNum 250), (''quantity'', JNum 500)]) \<in>
     set (load \<lparr>st_data = [STORAGE_KEY \<mapsto> Stored (JArr
       [JObj [(''id'', JNum 1), (''price'', JNum 250), (''quantity'', JNum 500)]])],
       st_readable = True, st_writable = True\<rparr>) \<and>
   item_quantity (item_of_json (JObj [(''id'', JNum 1), (''price'', JNum 250), (''quantity'', JNum 500)])) = 500 \<and>
   \<not> wf_items (load \<lparr>st_data = [STORAGE_KEY \<mapsto> Stored (JArr
       [JObj [(''id'', JNum 1), (''price'', JNum 250), (''quantity'', JNum 500)]])],
       st_readable = True, st_writable = True\<rparr>)"
  by (rule load_breaks_invariant [where vs = "[JObj [(''id'', JNum 1), (''price'', JNum 250), (''quantity'', JNum 500)]]"])
     (simp_all add: MAX_QUANTITY_def)

text \<open>
  What \<open>#save\<close> stores is a JSON array: every element and member of the stored tree
  is a JSON value (no \<open>undefined\<close> inside), and a second \<open>JSON.stringify\<close> /
  \<open>JSON.parse\<close> cycle leaves it as it is, whatever the items hold.
\<close>

theorem serialize_json_typed:
  "\<exists>v. serialize its = Stored v \<and> js_typeof v = ''object'' \<and> json_clean v \<and> json_of v = v"
proof -
  let ?v = "json_of (JArr (map item_to_json its))"
  have c: "json_clean ?v" by (rule json_clean_json_of)
  then have "json_of ?v = ?v" by (rule json_of_clean)
  moreover have "js_typeof ?v = ''object''" by simp
  ultimately show ?thesis using c unfolding serialize_def by blast
qed

end
