(* ===== verification/Cart_Manager.thy ===== *)
theory Cart_Manager
  imports Pricing Events Persistence Catalog
begin

text \<open>
  The class \<open>CartManager\<close> (src/app.js, lines 59--201) as explicit state passing.
  The state holds the two private fields \<open>#items\<close> and \<open>#listeners\<close>, the
  \<open>localStorage\<close> channel the class writes, the sequence of observable effects
  (callbacks invoked, messages logged), and the behaviour of the subscribed callbacks
  (which of them throw on which event data).  Each public method is one definition,
  composed as the source composes it: the item-list transformation of theory
  \<open>Line_Items\<close>, then \<open>#save\<close> (theory \<open>Persistence\<close>), then
  \<open>#emit("change", ...)\<close> (theory \<open>Events\<close>).  The thrown error of \<open>addItem\<close> is
  the left value of a sum; the boolean outcome of \<open>removeItem\<close> and
  \<open>updateQuantity\<close> is returned with the state.  \<open>cart_op\<close> and \<open>exec_op\<close> name
  the public mutations so that runs and reachable states can be stated.
\<close>

datatype cart_error = InvalidProduct

record 'cb cart_state =
  cs_items :: items
  cs_listeners :: "'cb listeners"
  cs_storage :: storage
  cs_trace :: "'cb effect list"
  cs_throws :: "'cb \<Rightarrow> change \<Rightarrow> bool"

section \<open>Private methods\<close>

definition cart_save :: "'cb cart_state \<Rightarrow> 'cb cart_state" where
  "cart_save st =
     (let (stg, errs) = save (cs_items st) (cs_storage st)
      in st\<lparr>cs_storage := stg, cs_trace := cs_trace st @ map Logged errs\<rparr>)"

definition cart_emit :: "string \<Rightarrow> change \<Rightarrow> 'cb cart_state \<Rightarrow> 'cb cart_state" where
  "cart_emit event data st =
     st\<lparr>cs_trace := cs_trace st @ emit (cs_throws st) event data (cs_listeners st)\<rparr>"

section \<open>Constructor\<close>

definition new_cart :: "storage \<Rightarrow> ('cb \<Rightarrow> change \<Rightarrow> bool) \<Rightarrow> 'cb cart_state" where
  "new_cart stg throws =
     \<lparr>cs_items = load stg, cs_listeners = Map.empty, cs_storage = stg, cs_trace = [],
      cs_throws = throws\<rparr>"

section \<open>Public methods\<close>

definition add_item :: "'cb cart_state \<Rightarrow> product \<Rightarrow> rat \<Rightarrow> cart_error + 'cb cart_state" where
  "add_item st product quantity =
     (if invalid_product product then Inl InvalidProduct
      else Inr (cart_emit ''change'' (Change ActAdd (Some (prod_id product)))
                 (cart_save (st\<lparr>cs_items := merge_item (cs_items st) product quantity\<rparr>))))"

definition remove_item :: "'cb cart_state \<Rightarrow> jsval \<Rightarrow> bool \<times> 'cb cart_state" where
  "remove_item st productId =
     (case splice_item productId (cs_items st) of
        None \<Rightarrow> (False, st)
      | Some its \<Rightarrow>
          (True, cart_emit ''change'' (Change ActRemove (Some productId))
                   (cart_save (st\<lparr>cs_items := its\<rparr>))))"

definition update_quantity :: "'cb cart_state \<Rightarrow> jsval \<Rightarrow> rat \<Rightarrow> bool \<times> 'cb cart_state" where
  "update_quantity st productId quantity =
     (case find (\<lambda>i. item_id i = productId) (cs_items st) of
        None \<Rightarrow> (False, st)
      | Some item \<Rightarrow>
          (if quantity \<le> 0 then remove_item st productId
           else (True, cart_emit ''change'' (Change ActUpdate (Some productId))
                         (cart_save (st\<lparr>cs_items := set_quantity productId quantity (cs_items st)\<rparr>)))))"

definition clear :: "'cb cart_state \<Rightarrow> 'cb cart_state" where
  "clear st = cart_emit ''change'' (Change ActClear None) (cart_save (st\<lparr>cs_items := []\<rparr>))"

definition cart_on :: "'cb cart_state \<Rightarrow> string \<Rightarrow> 'cb \<Rightarrow> 'cb cart_state" where
  "cart_on st event callback = st\<lparr>cs_listeners := on event callback (cs_listeners st)\<rparr>"

definition cart_unsubscribe :: "'cb cart_state \<Rightarrow> string \<Rightarrow> 'cb \<Rightarrow> 'cb cart_state" where
  "cart_unsubscribe st event callback =
     st\<lparr>cs_listeners := unsubscribe event callback (cs_listeners st)\<rparr>"

section \<open>Operations and runs\<close>

text \<open>
  The public mutations.  An \<open>addItem\<close> that throws leaves the cart as it was (the
  guard runs before any write), which \<open>exec_op\<close> records as the unchanged state.
\<close>

datatype 'cb cart_op =
    AddItem product rat
  | RemoveItem jsval
  | UpdateQuantity jsval rat
  | ClearCart
  | On string 'cb
  | Unsubscribe string 'cb

fun exec_op :: "'cb cart_state \<Rightarrow> 'cb cart_op \<Rightarrow> 'cb cart_state" where
  "exec_op st (AddItem p q) = (case add_item st p q of Inl e \<Rightarrow> st | Inr st' \<Rightarrow> st')"
| "exec_op st (RemoveItem pid) = snd (remove_item st pid)"
| "exec_op st (UpdateQuantity pid q) = snd (update_quantity st pid q)"
| "exec_op st ClearCart = clear st"
| "exec_op st (On ev cb) = cart_on st ev cb"
| "exec_op st (Unsubscribe ev cb) = cart_unsubscribe st ev cb"

fun exec_ops :: "'cb cart_state \<Rightarrow> 'cb cart_op list \<Rightarrow> 'cb cart_state" where
  "exec_ops st [] = st"
| "exec_ops st (op # ops) = exec_ops (exec_op st op) ops"

text \<open>
  The arguments the storefront passes (theory \<open>Storefront\<close>): integer quantities,
  and products with a numeric id whose name and image are JSON values.
\<close>

fun sane_op :: "'cb cart_op \<Rightarrow> bool" where
  "sane_op (AddItem p q) \<longleftrightarrow>
     is_integer q \<and> js_typeof (prod_id p) = ''number'' \<and> json_clean (prod_name p) \<and> json_clean (prod_image p)"
| "sane_op (UpdateQuantity pid q) \<longleftrightarrow> is_integer q"
| "sane_op op \<longleftrightarrow> True"

text \<open>
  The states reached from a cart constructed on a well-formed persisted payload by
  such calls.
\<close>

inductive reachable :: "'cb cart_state \<Rightarrow> bool" where
  init: "wf_items (load stg) \<Longrightarrow> list_all persistable (load stg) \<Longrightarrow> reachable (new_cart stg throws)"
| step: "reachable st \<Longrightarrow> sane_op op \<Longrightarrow> reachable (exec_op st op)"

section \<open>Lemmas: the private methods\<close>

lemma cart_save_fields [cart_simps]:
  "cs_items (cart_save st) = cs_items st"
  "cs_listeners (cart_save st) = cs_listeners st"
  "cs_throws (cart_save st) = cs_throws st"
  "cs_storage (cart_save st) = fst (save (cs_items st) (cs_storage st))"
  by (simp_all add: cart_save_def split: prod.splits)

lemma cart_emit_fields [cart_simps]:
  "cs_items (cart_emit ev d st) = cs_items st"
  "cs_listeners (cart_emit ev d st) = cs_listeners st"
  "cs_throws (cart_emit ev d st) = cs_throws st"
  "cs_storage (cart_emit ev d st) = cs_storage st"
  by (simp_all add: cart_emit_def)

lemma cart_save_trace:
  "cs_trace (cart_save st) =
     cs_trace st @ (if st_writable (cs_storage st) then [] else [Logged ''CartManager: failed to persist cart''])"
  by (simp add: cart_save_def save_def)

lemma cart_emit_trace:
  "cs_trace (cart_emit ev d st) = cs_trace st @ emit (cs_throws st) ev d (cs_listeners st)"
  by (simp add: cart_emit_def)

section \<open>Lemmas: the public methods\<close>

lemma add_item_valid:
  "\<not> invalid_product p \<Longrightarrow>
   add_item st p q = Inr (cart_emit ''change'' (Change ActAdd (Some (prod_id p)))
                            (cart_save (st\<lparr>cs_items := merge_item (cs_items st) p q\<rparr>)))"
  by (simp add: add_item_def invalid_product_def)

lemma add_item_Inr:
  "add_item st p q = Inr st' \<Longrightarrow>
   st' = cart_emit ''change'' (Change ActAdd (Some (prod_id p)))
           (cart_save (st\<lparr>cs_items := merge_item (cs_items st) p q\<rparr>))"
  by (simp add: add_item_def split: if_splits)

lemma remove_item_eq:
  "remove_item st pid =
     (if pid \<in> set (map item_id (cs_items st))
      then (True, cart_emit ''change'' (Change ActRemove (Some pid))
                    (cart_save (st\<lparr>cs_items := remove_first (\<lambda>i. item_id i = pid) (cs_items st)\<rparr>)))
      else (False, st))"
  by (simp add: remove_item_def splice_item_eq)

lemma update_quantity_eq:
  "update_quantity st pid q =
     (if pid \<in> set (map item_id (cs_items st))
      then (if q \<le> 0 then remove_item st pid
            else (True, cart_emit ''change'' (Change ActUpdate (Some pid))
                          (cart_save (st\<lparr>cs_items := set_quantity pid q (cs_items st)\<rparr>))))
      else (False, st))"
proof (cases "item_map (cs_items st) pid")
  case None
  then have "pid \<notin> set (map item_id (cs_items st))" by (simp add: item_map_None_iff)
  with None show ?thesis by (simp add: update_quantity_def find_item_map)
next
  case (Some e)
  then have "pid \<in> set (map item_id (cs_items st))" by (auto dest: item_map_Some)
  with Some show ?thesis by (simp add: update_quantity_def find_item_map)
qed

lemmas cart_method_simps = add_item_valid remove_item_eq update_quantity_eq

lemma cs_items_exec_op:
  "cs_items (exec_op st op) =
     (case op of
        AddItem p q \<Rightarrow>
          (case add_item st p q of Inl e \<Rightarrow> cs_items st | Inr st' \<Rightarrow> merge_item (cs_items st) p q)
      | RemoveItem pid \<Rightarrow>
          if pid \<in> set (map item_id (cs_items st)) then remove_first (\<lambda>i. item_id i = pid) (cs_items st)
          else cs_items st
      | UpdateQuantity pid q \<Rightarrow>
          if pid \<in> set (map item_id (cs_items st))
          then (if q \<le> 0 then remove_first (\<lambda>i. item_id i = pid) (cs_items st)
                else set_quantity pid q (cs_items st))
          else cs_items st
      | ClearCart \<Rightarrow> []
      | On ev cb \<Rightarrow> cs_items st
      | Unsubscribe ev cb \<Rightarrow> cs_items st)"
  by (cases op)
     (auto simp: cart_method_simps clear_def cart_on_def cart_unsubscribe_def
                 cart_save_fields cart_emit_fields split: sum.splits dest: add_item_Inr)

lemma exec_op_storage:
  "(cs_storage (exec_op st op) = cs_storage st \<and> cs_items (exec_op st op) = cs_items st) \<or>
   cs_storage (exec_op st op) = fst (save (cs_items (exec_op st op)) (cs_storage st))"
  by (cases op)
     (auto simp: cart_method_simps clear_def cart_on_def cart_unsubscribe_def
                 cart_save_fields cart_emit_fields split: sum.splits dest: add_item_Inr)

lemma exec_op_storage_flags [cart_simps]:
  "st_readable (cs_storage (exec_op st op)) = st_readable (cs_storage st)"
  "st_writable (cs_storage (exec_op st op)) = st_writable (cs_storage st)"
  using exec_op_storage [of st op] by (auto simp: save_storage_flags simp del: exec_op.simps)

lemma exec_op_wf:
  "wf_items (cs_items st) \<Longrightarrow> sane_op op \<Longrightarrow> wf_items (cs_items (exec_op st op))"
  by (cases op)
     (auto simp: cs_items_exec_op wf_merge_item wf_remove_first wf_items_Nil not_le
           intro: wf_set_quantity split: sum.splits simp del: exec_op.simps)

lemma exec_op_persistable:
  "list_all persistable (cs_items st) \<Longrightarrow> sane_op op \<Longrightarrow> list_all persistable (cs_items (exec_op st op))"
  by (cases op)
     (auto simp: cs_items_exec_op persistable_merge_item list_all_remove_first not_le
           intro: persistable_set_quantity split: sum.splits simp del: exec_op.simps)

section \<open>Properties of the public methods\<close>

lemmas example_simps = new_cart_def load_def PRODUCTS_def mk_product_def invalid_product_def
  price_val_def clamp_quantity_def MAX_QUANTITY_def

text \<open>
  C1.  \<open>addItem\<close> merges instead of duplicating: for a product that passes the guard,
  the call succeeds, and viewed as a map from id to quantity the cart afterwards maps
  the product's id to the previous quantity (0 when absent) plus the clamped quantity,
  capped at \<open>MAX_QUANTITY\<close>; every other id keeps its quantity.
\<close>

theorem add_item_merges:
  assumes "\<not> invalid_product p"
  shows "\<exists>st'. add_item st p q = Inr st' \<and>
           qty_map (cs_items st') =
             (qty_map (cs_items st))(prod_id p \<mapsto>
                min ((case qty_map (cs_items st) (prod_id p) of None \<Rightarrow> 0 | Some k \<Rightarrow> k)
                     + clamp_quantity q) MAX_QUANTITY)"
  using assms by (simp add: add_item_def cart_emit_fields cart_save_fields qty_map_merge_item)

theorem add_item_merges_witness:
  "\<exists>st'. add_item (new_cart \<lparr>st_data = Map.empty, st_readable = True, st_writable = True\<rparr> (\<lambda>(cb::nat) d. False)) (PRODUCTS ! 0) 2 = Inr st' \<and>
     qty_map (cs_items st') (JNum 1) = Some 2"
proof -
  let ?st = "(new_cart \<lparr>st_data = Map.empty, st_readable = True, st_writable = True\<rparr> (\<lambda>(cb::nat) d. False))"
  have v: "\<not> invalid_product (PRODUCTS ! 0)" by (simp add: example_simps)
  obtain st' where a: "add_item ?st (PRODUCTS ! 0) 2 = Inr st'"
    and m: "qty_map (cs_items st') = (qty_map (cs_items ?st))(prod_id (PRODUCTS ! 0) \<mapsto>
              min ((case qty_map (cs_items ?st) (prod_id (PRODUCTS ! 0)) of None \<Rightarrow> 0 | Some k \<Rightarrow> k)
                   + clamp_quantity 2) MAX_QUANTITY)"
    using add_item_merges [OF v, of ?st 2] by blast
  have "qty_map (cs_items ?st) (JNum 1) = None" by (simp add: example_simps qty_map_None_iff)
  with a m show ?thesis by (simp add: example_simps)
qed

text \<open>
  C2.  \<open>addItem\<close> throws its invalid-product error exactly when the product's
  \<open>id\<close> is falsy or its \<open>price\<close> is missing or 0 (line 72:
  \<open>!product?.id || !product?.price\<close>); otherwise it returns normally.
\<close>

theorem add_item_error:
  "add_item st p q = Inl InvalidProduct \<longleftrightarrow>
     \<not> truthy (prod_id p) \<or> prod_price p = None \<or> prod_price p = Some 0"
  by (cases "prod_price p") (simp_all add: add_item_def invalid_product_def price_val_def)

theorem add_item_error_witness:
  "add_item \<lparr>cs_items = [], cs_listeners = Map.empty,
      cs_storage = \<lparr>st_data = Map.empty, st_readable = True, st_writable = True\<rparr>,
      cs_trace = [], cs_throws = \<lambda>(cb::nat) d. False\<rparr> ((PRODUCTS ! 0)\<lparr>prod_price := None\<rparr>) 1 =
   Inl InvalidProduct"
  using add_item_error [of _ "(PRODUCTS ! 0)\<lparr>prod_price := None\<rparr>"] by simp

text \<open>
  C3.  The data-model invariant holds in every reachable state: ids are unique and every
  quantity is an integer between 1 and \<open>MAX_QUANTITY\<close>, for a cart loaded from a
  well-formed payload and driven by calls with integer quantities.
\<close>

theorem reachable_wf:
  "reachable st \<Longrightarrow> wf_items (cs_items st)"
proof (induction rule: reachable.induct)
  case (init stg throws)
  then show ?case by (simp add: new_cart_def)
next
  case (step st op)
  from step.IH step.hyps(2) show ?case by (rule exec_op_wf)
qed

theorem reachable_wf_witness:
  "wf_items (cs_items (exec_op (new_cart \<lparr>st_data = Map.empty, st_readable = True, st_writable = True\<rparr> (\<lambda>(cb::nat) d. False)) (AddItem (PRODUCTS ! 0) 3)))"
proof -
  have "reachable (new_cart \<lparr>st_data = Map.empty, st_readable = True, st_writable = True\<rparr> (\<lambda>(cb::nat) d. False))"
    by (rule reachable.init) (simp_all add: load_def wf_items_Nil)
  then have "reachable (exec_op (new_cart \<lparr>st_data = Map.empty, st_readable = True, st_writable = True\<rparr> (\<lambda>(cb::nat) d. False)) (AddItem (PRODUCTS ! 0) 3))"
    by (rule reachable.step) (simp add: example_simps is_integer_def)
  then show ?thesis by (rule reachable_wf)
qed

text \<open>
  C4.  \<open>updateQuantity(id, q)\<close> with \<open>q \<le> 0\<close> is \<open>removeItem(id)\<close>: the same outcome,
  the same new state, the same persisted payload and the same notifications, whether or
  not the id is in the cart.
\<close>

theorem update_nonpositive_is_remove:
  assumes "q \<le> 0"
  shows "update_quantity st pid q = remove_item st pid"
proof (cases "find (\<lambda>i. item_id i = pid) (cs_items st)")
  case None
  then have "pid \<notin> set (map item_id (cs_items st))" by (auto simp: find_None_iff)
  with None show ?thesis by (simp add: update_quantity_def remove_item_eq)
next
  case (Some e)
  with assms show ?thesis by (simp add: update_quantity_def)
qed

theorem update_nonpositive_is_remove_witness:
  "update_quantity (\<lparr>cs_items = [new_line_item (PRODUCTS ! 0) 1], cs_listeners = [''change'' \<mapsto> [7::nat]],
        cs_storage = \<lparr>st_data = Map.empty, st_readable = True, st_writable = True\<rparr>,
        cs_trace = [], cs_throws = \<lambda>cb d. False\<rparr>) (JNum 1) 0 =
   remove_item (\<lparr>cs_items = [new_line_item (PRODUCTS ! 0) 1], cs_listeners = [''change'' \<mapsto> [7::nat]],
        cs_storage = \<lparr>st_data = Map.empty, st_readable = True, st_writable = True\<rparr>,
        cs_trace = [], cs_throws = \<lambda>cb d. False\<rparr>) (JNum 1)"
  using update_nonpositive_is_remove [where q = 0] by simp

text \<open>
  C5.  \<open>removeItem\<close> and \<open>updateQuantity\<close> on an id that is not in the cart return
  \<open>false\<close> and leave everything unchanged: items, storage, and no notification.
\<close>

theorem missing_id_not_found:
  "pid \<notin> set (map item_id (cs_items st)) \<Longrightarrow>
   remove_item st pid = (False, st) \<and> update_quantity st pid q = (False, st)"
  by (simp add: remove_item_eq update_quantity_eq)

theorem missing_id_not_found_witness:
  "remove_item (new_cart \<lparr>st_data = Map.empty, st_readable = True, st_writable = True\<rparr> (\<lambda>(cb::nat) d. False)) (JNum 4) = (False, (new_cart \<lparr>st_data = Map.empty, st_readable = True, st_writable = True\<rparr> (\<lambda>(cb::nat) d. False))) \<and>
   update_quantity (new_cart \<lparr>st_data = Map.empty, st_readable = True, st_writable = True\<rparr> (\<lambda>(cb::nat) d. False)) (JNum 4) 5 = (False, (new_cart \<lparr>st_data = Map.empty, st_readable = True, st_writable = True\<rparr> (\<lambda>(cb::nat) d. False)))"
  by (rule missing_id_not_found) (simp add: new_cart_def load_def)

text \<open>
  Adding a valid product that is not yet in the cart with a quantity in
  \<open>[1, MAX_QUANTITY]\<close>: \<open>getItems()\<close> then holds exactly one entry with that id,
  carrying the product's fields and that quantity.
\<close>

theorem add_new_entry:
  assumes "\<not> invalid_product p" and "prod_id p \<notin> set (map item_id (cs_items st))"
    and "1 \<le> q" and "q \<le> MAX_QUANTITY" and "add_item st p q = Inr st'"
  shows "filter (\<lambda>i. item_id i = prod_id p) (get_items (cs_items st')) = [new_line_item p q]"
proof -
  from assms(2) have "item_map (cs_items st) (prod_id p) = None" by (simp add: item_map_None_iff)
  moreover from assms(3,4) have "clamp_quantity q = q" by (simp add: clamp_quantity_def)
  moreover from assms(1,5) have "cs_items st' = merge_item (cs_items st) p q"
    by (auto simp: add_item_valid cart_emit_fields cart_save_fields)
  ultimately show ?thesis
    using assms(2) by (simp add: merge_item_new get_items_copy new_line_item_def filter_id_absent)
qed

theorem add_new_entry_witness:
  "\<exists>st'. add_item (new_cart \<lparr>st_data = Map.empty, st_readable = True, st_writable = True\<rparr> (\<lambda>(cb::nat) d. False)) (PRODUCTS ! 0) 2 = Inr st' \<and>
     filter (\<lambda>i. item_id i = JNum 1) (get_items (cs_items st')) = [new_line_item (PRODUCTS ! 0) 2]"
proof -
  let ?st = "(new_cart \<lparr>st_data = Map.empty, st_readable = True, st_writable = True\<rparr> (\<lambda>(cb::nat) d. False))"
  have v: "\<not> invalid_product (PRODUCTS ! 0)" by (simp add: example_simps)
  then obtain st' where a: "add_item ?st (PRODUCTS ! 0) 2 = Inr st'" by (simp add: add_item_valid)
  have "filter (\<lambda>i. item_id i = prod_id (PRODUCTS ! 0)) (get_items (cs_items st')) =
        [new_line_item (PRODUCTS ! 0) 2]"
    by (rule add_new_entry [OF v _ _ _ a]) (simp_all add: example_simps)
  with a show ?thesis by (simp add: example_simps)
qed

text \<open>
  Adding the same product twice, starting from a cart without it and with
  quantities \<open>q1, q2\<close> in \<open>[1, MAX_QUANTITY]\<close>, leaves a single entry for it whose
  quantity is \<open>min(q1 + q2, MAX_QUANTITY)\<close>: a merge, not a duplicate.
\<close>

theorem add_twice_merges:
  assumes v: "\<not> invalid_product p" and absent: "prod_id p \<notin> set (map item_id (cs_items st))"
    and q1: "1 \<le> q1" "q1 \<le> MAX_QUANTITY" and q2: "1 \<le> q2" "q2 \<le> MAX_QUANTITY"
    and a1: "add_item st p q1 = Inr st1" and a2: "add_item st1 p q2 = Inr st2"
  shows "filter (\<lambda>i. item_id i = prod_id p) (get_items (cs_items st2)) =
           [new_line_item p (min (q1 + q2) MAX_QUANTITY)]"
proof -
  have n: "item_map (cs_items st) (prod_id p) = None" using absent by (simp add: item_map_None_iff)
  have c1: "clamp_quantity q1 = q1" and c2: "clamp_quantity q2 = q2"
    using q1 q2 by (simp_all add: clamp_quantity_def)
  have i1: "cs_items st1 = cs_items st @ [new_line_item p q1]"
    using v a1 n c1 by (auto simp: add_item_valid cart_emit_fields cart_save_fields merge_item_new)
  then have "item_map (cs_items st1) (prod_id p) \<noteq> None"
    by (simp add: item_map_None_iff new_line_item_def)
  then have "cs_items st2 = update_first (\<lambda>i. item_id i = prod_id p)
              (\<lambda>e. e\<lparr>item_quantity := min (item_quantity e + q2) MAX_QUANTITY\<rparr>) (cs_items st1)"
    using v a2 c2 by (auto simp: add_item_valid cart_emit_fields cart_save_fields merge_item_found)
  also have "\<dots> = cs_items st @ [new_line_item p (min (q1 + q2) MAX_QUANTITY)]"
  proof -
    have "\<forall>x \<in> set (cs_items st). \<not> item_id x = prod_id p" using absent by (auto simp: image_iff)
    then show ?thesis by (simp add: i1 update_first_append_no_match new_line_item_def)
  qed
  finally show ?thesis
    using absent by (simp add: get_items_copy filter_id_absent new_line_item_def)
qed

theorem add_twice_merges_witness:
  "\<exists>st1 st2. add_item (new_cart \<lparr>st_data = Map.empty, st_readable = True, st_writable = True\<rparr> (\<lambda>(cb::nat) d. False)) (PRODUCTS ! 0) 60 = Inr st1 \<and>
     add_item st1 (PRODUCTS ! 0) 70 = Inr st2 \<and>
     filter (\<lambda>i. item_id i = JNum 1) (get_items (cs_items st2)) = [new_line_item (PRODUCTS ! 0) 99]"
proof -
  let ?st = "(new_cart \<lparr>st_data = Map.empty, st_readable = True, st_writable = True\<rparr> (\<lambda>(cb::nat) d. False))"
  have v: "\<not> invalid_product (PRODUCTS ! 0)" by (simp add: example_simps)
  then obtain st1 where a1: "add_item ?st (PRODUCTS ! 0) 60 = Inr st1" by (simp add: add_item_valid)
  from v obtain st2 where a2: "add_item st1 (PRODUCTS ! 0) 70 = Inr st2" by (simp add: add_item_valid)
  have "filter (\<lambda>i. item_id i = prod_id (PRODUCTS ! 0)) (get_items (cs_items st2)) =
        [new_line_item (PRODUCTS ! 0) (min (60 + 70) MAX_QUANTITY)]"
    by (rule add_twice_merges [OF v _ _ _ _ _ a1 a2]) (simp_all add: example_simps)
  with a1 a2 show ?thesis by (simp add: example_simps)
qed

text \<open>
  C6.  \<open>removeItem\<close> on an id in a cart with unique ids returns \<open>true\<close>, removes
  exactly that id, and notifies every \<open>change\<close> subscriber once, in registration
  order, with \<open>{action: "remove", productId}\<close>.
\<close>

theorem remove_item_found:
  assumes "distinct (map item_id (cs_items st))" and "pid \<in> set (map item_id (cs_items st))"
  shows "\<exists>st'. remove_item st pid = (True, st') \<and>
           qty_map (cs_items st') = (qty_map (cs_items st))(pid := None) \<and>
           invoked (cs_trace st') =
             invoked (cs_trace st) @ map (\<lambda>cb. (cb, Change ActRemove (Some pid))) (subscribers (cs_listeners st) ''change'')"
  using assms
  by (auto simp: remove_item_eq cart_emit_fields cart_save_fields cart_emit_trace cart_save_trace
      invoked_append invoked_emit qty_map_def item_map_remove_first fun_eq_iff)

theorem remove_item_found_witness:
  "\<exists>st'. remove_item (\<lparr>cs_items = [new_line_item (PRODUCTS ! 0) 1], cs_listeners = [''change'' \<mapsto> [7::nat]],
        cs_storage = \<lparr>st_data = Map.empty, st_readable = True, st_writable = True\<rparr>,
        cs_trace = [], cs_throws = \<lambda>cb d. False\<rparr>) (JNum 1) = (True, st') \<and>
     qty_map (cs_items st') (JNum 1) = None \<and>
     invoked (cs_trace st') = [(7, Change ActRemove (Some (JNum 1)))]"
proof -
  let ?st = "\<lparr>cs_items = [new_line_item (PRODUCTS ! 0) 1], cs_listeners = [''change'' \<mapsto> [7::nat]],
        cs_storage = \<lparr>st_data = Map.empty, st_readable = True, st_writable = True\<rparr>,
        cs_trace = [], cs_throws = \<lambda>cb d. False\<rparr>"
  have "distinct (map item_id (cs_items ?st))" and "JNum 1 \<in> set (map item_id (cs_items ?st))"
    by (simp_all add: example_simps new_line_item_def)
  from remove_item_found [OF this] show ?thesis by (auto simp: subscribers_def)
qed

text \<open>
  C7.  \<open>updateQuantity(id, q)\<close> with \<open>q > 0\<close> on an id in the cart returns \<open>true\<close>,
  sets that id's quantity to \<open>min(q, MAX_QUANTITY)\<close>, leaves the other ids alone, and
  notifies every subscriber once with \<open>{action: "update", productId}\<close>.
\<close>

theorem update_quantity_positive:
  assumes "pid \<in> set (map item_id (cs_items st))" and "0 < q"
  shows "\<exists>st'. update_quantity st pid q = (True, st') \<and>
           qty_map (cs_items st') = (qty_map (cs_items st))(pid \<mapsto> min q MAX_QUANTITY) \<and>
           invoked (cs_trace st') =
             invoked (cs_trace st) @ map (\<lambda>cb. (cb, Change ActUpdate (Some pid))) (subscribers (cs_listeners st) ''change'')"
proof -
  from assms(1) obtain k where "qty_map (cs_items st) pid = Some k"
    by (cases "qty_map (cs_items st) pid") (auto simp: qty_map_None_iff)
  with assms show ?thesis
    by (auto simp: update_quantity_eq cart_emit_fields cart_save_fields cart_emit_trace cart_save_trace
        invoked_append invoked_emit qty_map_set_quantity)
qed

theorem update_quantity_positive_witness:
  "\<exists>st'. update_quantity (\<lparr>cs_items = [new_line_item (PRODUCTS ! 0) 1], cs_listeners = [''change'' \<mapsto> [7::nat]],
        cs_storage = \<lparr>st_data = Map.empty, st_readable = True, st_writable = True\<rparr>,
        cs_trace = [], cs_throws = \<lambda>cb d. False\<rparr>) (JNum 1) 150 = (True, st') \<and>
     qty_map (cs_items st') (JNum 1) = Some 99 \<and>
     invoked (cs_trace st') = [(7, Change ActUpdate (Some (JNum 1)))]"
proof -
  let ?st = "\<lparr>cs_items = [new_line_item (PRODUCTS ! 0) 1], cs_listeners = [''change'' \<mapsto> [7::nat]],
        cs_storage = \<lparr>st_data = Map.empty, st_readable = True, st_writable = True\<rparr>,
        cs_trace = [], cs_throws = \<lambda>cb d. False\<rparr>"
  have "JNum 1 \<in> set (map item_id (cs_items ?st))" and "(0::rat) < 150"
    by (simp_all add: example_simps new_line_item_def)
  from update_quantity_positive [OF this] show ?thesis
    by (auto simp: subscribers_def MAX_QUANTITY_def)
qed

text \<open>
  C8.  \<open>clear()\<close> (lines 146--150) empties the cart, writes the empty cart to
  \<open>localStorage\<close> through \<open>#save\<close>, keeps the subscriptions, and fires exactly one
  change event: each subscriber is invoked once with \<open>{action: "clear"}\<close>, in
  registration order.
\<close>

theorem clear_empties:
  "cs_items (clear st) = [] \<and> cs_storage (clear st) = fst (save [] (cs_storage st)) \<and>
   cs_listeners (clear st) = cs_listeners st \<and>
   invoked (cs_trace (clear st)) =
     invoked (cs_trace st) @ map (\<lambda>cb. (cb, Change ActClear None)) (subscribers (cs_listeners st) ''change'')"
  by (simp add: clear_def cart_emit_fields cart_save_fields cart_emit_trace cart_save_trace
      invoked_append invoked_emit)

text \<open>
  C9.  Whatever the arguments (fractional or out-of-range quantities included), every
  public mutation keeps ids unique and every quantity positive and at most
  \<open>MAX_QUANTITY\<close>.
\<close>

theorem exec_op_cart_inv:
  "cart_inv (cs_items st) \<Longrightarrow> cart_inv (cs_items (exec_op st op))"
  by (cases op)
     (auto simp: cs_items_exec_op inv_merge_item inv_remove_first cart_inv_Nil not_le
           intro: inv_set_quantity split: sum.splits simp del: exec_op.simps)

theorem exec_op_cart_inv_witness:
  "cart_inv (cs_items (exec_op (new_cart \<lparr>st_data = Map.empty, st_readable = True, st_writable = True\<rparr> (\<lambda>(cb::nat) d. False)) (AddItem (PRODUCTS ! 0) (1/2))))"
  by (rule exec_op_cart_inv) (simp add: new_cart_def load_def cart_inv_Nil)

text \<open>
  C10.  A failed write to \<open>localStorage\<close> does not make \<open>addItem\<close> fail: the call
  returns normally with the merged items in memory, the stored payload unchanged, and
  the failure written to \<open>console.error\<close>.
\<close>

theorem save_failure_tolerated:
  assumes "\<not> st_writable (cs_storage st)" and "\<not> invalid_product p"
  shows "\<exists>st'. add_item st p q = Inr st' \<and> cs_items st' = merge_item (cs_items st) p q \<and>
           cs_storage st' = cs_storage st \<and>
           Logged ''CartManager: failed to persist cart'' \<in> set (cs_trace st')"
  using assms
  by (simp add: add_item_valid cart_emit_fields cart_save_fields cart_emit_trace cart_save_trace save_def)

theorem save_failure_tolerated_witness:
  "\<exists>st'. add_item (new_cart \<lparr>st_data = Map.empty, st_readable = True, st_writable = False\<rparr> (\<lambda>(cb::nat) d. False)) (PRODUCTS ! 0) 1 = Inr st' \<and>
     cs_items st' = [new_line_item (PRODUCTS ! 0) 1] \<and>
     Logged ''CartManager: failed to persist cart'' \<in> set (cs_trace st')"
proof -
  let ?st = "(new_cart \<lparr>st_data = Map.empty, st_readable = True, st_writable = False\<rparr> (\<lambda>(cb::nat) d. False))"
  have "\<not> st_writable (cs_storage ?st)" and "\<not> invalid_product (PRODUCTS ! 0)"
    by (simp_all add: example_simps)
  from save_failure_tolerated [OF this, of 1] show ?thesis
    by (auto simp: example_simps merge_item_def)
qed

text \<open>
  C11.  \<open>updateQuantity\<close> clamps only from above (line 111 takes
  \<open>Math.min(quantity, MAX_QUANTITY)\<close> and no lower bound): for every cart and every
  id in it, a quantity strictly between 0 and 1 is accepted (\<open>true\<close>), stored as it
  is, and the cart then breaks the data-model invariant (quantities are integers
  \<open>\<ge> 1\<close>).
\<close>

theorem update_fraction_breaks_invariant:
  assumes "pid \<in> set (map item_id (cs_items st))" and "0 < q" and "q < 1"
  shows "\<exists>st'. update_quantity st pid q = (True, st') \<and> qty_map (cs_items st') pid = Some q \<and>
           \<not> wf_items (cs_items st')"
proof -
  let ?st' = "cart_emit ''change'' (Change ActUpdate (Some pid))
                (cart_save (st\<lparr>cs_items := set_quantity pid q (cs_items st)\<rparr>))"
  have u: "update_quantity st pid q = (True, ?st')" using assms(1,2) by (simp add: update_quantity_eq)
  from assms(1) obtain k where "qty_map (cs_items st) pid = Some k"
    by (cases "qty_map (cs_items st) pid") (auto simp: qty_map_None_iff)
  with assms(3) have m: "qty_map (cs_items ?st') pid = Some q"
    by (simp add: cart_emit_fields cart_save_fields qty_map_set_quantity MAX_QUANTITY_def)
  have "\<not> wf_items (cs_items ?st')"
  proof
    assume "wf_items (cs_items ?st')"
    from qty_map_wf [OF this m] assms(3) show False by (simp add: qty_ok_def)
  qed
  with u m show ?thesis by blast
qed

theorem update_fraction_breaks_invariant_witness:
  "\<exists>st'. update_quantity (\<lparr>cs_items = [new_line_item (PRODUCTS ! 0) 1], cs_listeners = [''change'' \<mapsto> [7::nat]],
        cs_storage = \<lparr>st_data = Map.empty, st_readable = True, st_writable = True\<rparr>,
        cs_trace = [], cs_throws = \<lambda>cb d. False\<rparr>) (JNum 1) (1/2) = (True, st') \<and>
     qty_map (cs_items st') (JNum 1) = Some (1/2) \<and> \<not> wf_items (cs_items st')"
proof -
  have "JNum 1 \<in> set (map item_id (cs_items (\<lparr>cs_items = [new_line_item (PRODUCTS ! 0) 1],
        cs_listeners = [''change'' \<mapsto> [7::nat]],
        cs_storage = \<lparr>st_data = Map.empty, st_readable = True, st_writable = True\<rparr>,
        cs_trace = [], cs_throws = \<lambda>cb d. False\<rparr>)))"
    by (simp add: example_simps new_line_item_def)
  moreover have "(0::rat) < 1/2" and "(1/2::rat) < 1" by simp_all
  ultimately show ?thesis by (rule update_fraction_breaks_invariant)
qed

text \<open>
  C23.  \<open>addItem\<close> accepts any truthy id (line 72) but \<open>#load\<close> keeps only records
  whose id is a number (line 192): for every cart, a valid product whose id is a
  non-empty string is added to the cart, and the storage the call leaves behind never
  loads it back, so the item is lost on the next reload.
\<close>

theorem string_id_lost:
  assumes "prod_id p = JStr s" and "s \<noteq> []" and "prod_price p \<noteq> None" and "prod_price p \<noteq> Some 0"
  shows "\<exists>st'. add_item st p q = Inr st' \<and> prod_id p \<in> set (map item_id (cs_items st')) \<and>
           prod_id p \<notin> set (map item_id (load (cs_storage st')))"
proof -
  have v: "\<not> invalid_product p"
    using assms by (cases "prod_price p") (simp_all add: invalid_product_def price_val_def)
  let ?st' = "cart_emit ''change'' (Change ActAdd (Some (prod_id p)))
                (cart_save (st\<lparr>cs_items := merge_item (cs_items st) p q\<rparr>))"
  have a: "add_item st p q = Inr ?st'" using v by (rule add_item_valid)
  have "qty_map (cs_items ?st') (prod_id p) \<noteq> None"
    by (simp add: cart_emit_fields cart_save_fields qty_map_merge_item)
  then have i: "prod_id p \<in> set (map item_id (cs_items ?st'))" by (simp add: qty_map_None_iff)
  have "JStr s \<notin> set (map item_id (load (cs_storage ?st')))"
  proof
    assume "JStr s \<in> set (map item_id (load (cs_storage ?st')))"
    then obtain i where "i \<in> set (load (cs_storage ?st'))" and "item_id i = JStr s" by auto
    with load_ids_number [of "cs_storage ?st'"] show False by (auto simp: list_all_iff)
  qed
  with a i assms(1) show ?thesis by auto
qed

theorem string_id_lost_witness:
  "\<exists>st'. add_item \<lparr>cs_items = [], cs_listeners = Map.empty,
        cs_storage = \<lparr>st_data = Map.empty, st_readable = True, st_writable = True\<rparr>,
        cs_trace = [], cs_throws = \<lambda>(cb::nat) d. False\<rparr> ((PRODUCTS ! 0)\<lparr>prod_id := JStr ''7''\<rparr>) 1 = Inr st' \<and>
     JStr ''7'' \<in> set (map item_id (cs_items st')) \<and>
     JStr ''7'' \<notin> set (map item_id (load (cs_storage st')))"
proof -
  have "prod_id ((PRODUCTS ! 0)\<lparr>prod_id := JStr ''7''\<rparr>) = JStr ''7''" and "''7'' \<noteq> []"
    and "prod_price ((PRODUCTS ! 0)\<lparr>prod_id := JStr ''7''\<rparr>) \<noteq> None"
    and "prod_price ((PRODUCTS ! 0)\<lparr>prod_id := JStr ''7''\<rparr>) \<noteq> Some 0"
    by (simp_all add: PRODUCTS_def mk_product_def)
  from string_id_lost [OF this, of _ 1] show ?thesis by simp
qed

end
