(* ===== verification/Rendering.thy ===== *)
theory Rendering
  imports Pricing Catalog
begin

text \<open>
  What the rendering functions of src/app.js (section 4, lines 229--345) write into the
  page, as values: the product grid of \<open>renderProducts\<close> (one card per catalog
  entry), the sidebar of \<open>renderCart\<close> (rows, empty message, total, item-count badge)
  and the checkout summary of \<open>openCheckout\<close>.  Markup is reduced to the values it
  interpolates; a value written into an attribute is the string the template literal
  produces (\<open>js_to_string\<close>).  The open/close state of the sidebar and the modal,
  and when each renderer runs, belong to the page (theory \<open>Storefront\<close>).
\<close>

section \<open>Product grid\<close>

text \<open>
  One card of \<open>renderProducts\<close> (lines 236--247): image, name, series and price as
  shown, and the \<open>data-product-id\<close> attribute of its button.
\<close>

record product_card =
  card_image :: jsval
  card_name :: jsval
  card_series :: jsval
  card_price :: jsval
  card_product_id :: "string option"

definition render_card :: "product \<Rightarrow> product_card" where
  "render_card product =
     \<lparr>card_image = prod_image product, card_name = prod_name product,
      card_series = prod_series product, card_price = price_val product,
      card_product_id = js_to_string (prod_id product)\<rparr>"

text \<open>\<open>renderProducts()\<close> (lines 233--253): the cards in catalog order.\<close>

definition render_products :: "product_card list" where
  "render_products = map render_card PRODUCTS"

section \<open>Rendering\<close>

text \<open>One row of the sidebar, as \<open>renderCart\<close> writes it (lines 281--297).\<close>

record cart_row =
  row_id :: jsval
  row_name :: jsval
  row_image :: jsval
  row_price :: rat
  row_quantity :: rat
  row_subtotal :: rat

record cart_view =
  cv_rows :: "cart_row list"
  cv_empty_message :: bool
  cv_total :: rat
  cv_count :: rat
  cv_count_visible :: bool

definition render_row :: "line_item \<Rightarrow> cart_row" where
  "render_row item =
     \<lparr>row_id = item_id item, row_name = item_name item, row_image = item_image item,
      row_price = item_price item, row_quantity = item_quantity item,
      row_subtotal = item_price item * item_quantity item\<rparr>"

text \<open>\<open>renderCart()\<close> (lines 270--304), reading \<open>cart.getItems()\<close> and \<open>cart.getSummary()\<close>.\<close>

definition render_cart :: "items \<Rightarrow> cart_view" where
  "render_cart its =
     (let items = get_items its; summary = get_summary its no_options
      in \<lparr>cv_rows = (if length items = 0 then [] else map render_row items),
          cv_empty_message = (length items = 0),
          cv_total = sm_total summary, cv_count = sm_item_count summary,
          cv_count_visible = (0 < sm_item_count summary)\<rparr>)"

text \<open>One row of the checkout summary (lines 334--340) and the modal's content.\<close>

record checkout_row =
  co_name :: jsval
  co_quantity :: rat
  co_amount :: rat

record checkout_view =
  co_rows :: "checkout_row list"
  co_total :: rat

definition render_checkout :: "items \<Rightarrow> checkout_view" where
  "render_checkout its =
     (let items = get_items its; summary = get_summary its no_options
      in \<lparr>co_rows = map (\<lambda>item. \<lparr>co_name = item_name item, co_quantity = item_quantity item,
                                  co_amount = item_price item * item_quantity item\<rparr>) items,
          co_total = sm_total summary\<rparr>)"

text \<open>The checkout summary before \<open>openCheckout\<close> first fills it.\<close>

definition empty_checkout :: checkout_view where
  "empty_checkout = \<lparr>co_rows = [], co_total = 0\<rparr>"

section \<open>Lemmas\<close>

lemma render_products_ids:
  "k < length PRODUCTS \<Longrightarrow>
   \<exists>n. prod_id (PRODUCTS ! k) = JNum (of_nat n) \<and> card_product_id (render_products ! k) = Some (dec_string n)"
  by (auto simp: render_products_def render_card_def PRODUCTS_def mk_product_def nth_Cons'
          simp del: of_nat_numeral intro!: exI [of _ "Suc _"])

lemma length_render_products [simp]: "length render_products = length PRODUCTS"
  by (simp add: render_products_def)

lemma card_click_product:
  assumes "k < length PRODUCTS"
  shows "\<exists>s r. card_product_id (render_products ! k) = Some s \<and> js_number s = Some r \<and>
               find_product (JNum r) = Some (PRODUCTS ! k)"
proof -
  obtain n where n: "prod_id (PRODUCTS ! k) = JNum (of_nat n)"
    and c: "card_product_id (render_products ! k) = Some (dec_string n)"
    using render_products_ids [OF assms] by blast
  have "find_product (JNum (of_nat n)) = Some (PRODUCTS ! k)"
    using find_distinct_nth [OF catalog_ids_distinct assms] n by (simp add: find_product_def)
  with c show ?thesis by (auto simp: js_number_dec_string)
qed

section \<open>Properties\<close>

text \<open>
  The ids of the product grid survive the round trip through the markup: the
  \<open>data-product-id\<close> that \<open>renderProducts\<close> writes on the \<open>k\<close>-th card is a decimal
  string that \<open>Number(...)\<close> reads back as a number, and looking that number up in
  \<open>PRODUCTS\<close> (as the click handler does) finds exactly the \<open>k\<close>-th product.
\<close>

theorem card_ids_roundtrip:
  "list_all2 (\<lambda>c p. \<exists>s r. card_product_id c = Some s \<and> js_number s = Some r \<and> find_product (JNum r) = Some p)
     render_products PRODUCTS"
  by (simp add: list_all2_conv_all_nth) (blast dest: card_click_product)

text \<open>
  C28.  The totals the page shows agree: the checkout modal's total equals the sidebar's
  total, and both are the sum of the line amounts (price times quantity) the checkout
  lists, floored at 0 (the default summary has no coupon, tax or shipping).
\<close>

theorem totals_agree:
  "co_total (render_checkout its) = max 0 (sum_list (map co_amount (co_rows (render_checkout its)))) \<and>
   cv_total (render_cart its) = co_total (render_checkout its)"
proof -
  have "co_rows (render_checkout its) =
          map (\<lambda>item. \<lparr>co_name = item_name item, co_quantity = item_quantity item,
                       co_amount = item_price item * item_quantity item\<rparr>) its"
    by (simp add: render_checkout_def get_items_copy Let_def)
  then have "sum_list (map co_amount (co_rows (render_checkout its))) = get_subtotal its"
    by (simp add: get_subtotal_sum o_def)
  then show ?thesis
    by (simp add: render_checkout_def render_cart_def Let_def get_summary_fields no_options_def
                  opt_or_zero_def js_round_0 min_def max_def)
qed


end
