(* ===== verification/Widgets.thy ===== *)
theory Widgets
  imports Js_Values
begin

text \<open>
  The page's widgets that keep their own state in the DOM (src/app.js): the feedback of
  the add buttons (\<open>showAddFeedback\<close>, lines 255--266) with its pending timers, the FAQ
  accordion (lines 428--443) and the contact form (lines 446--453).  Each is a small state
  with one definition per operation; the page (theory \<open>Storefront\<close>) holds them and
  calls the operations from its handlers.  Time is a millisecond clock \<open>now\<close>; a
  \<open>setTimeout\<close> callback is a pending timer that the event loop fires once the clock
  has reached its deadline (\<open>run_timers\<close>).  Characters outside ASCII in labels and
  messages (the check mark of \<open>"Agregado \<checkmark>"\<close>, the inverted exclamation mark) are
  left out of the strings.
\<close>

section \<open>Add-button feedback\<close>

text \<open>The state of one \<open>.btn-add-cart\<close> button: \<open>textContent\<close>, class \<open>btn-added\<close>, \<open>disabled\<close>.\<close>

record add_button =
  btn_label :: string
  btn_added :: bool
  btn_disabled :: bool

definition ADD_LABEL :: string where
  "ADD_LABEL = ''Agregar al carrito''"

definition ADDED_LABEL :: string where
  "ADDED_LABEL = ''Agregado''"

definition FEEDBACK_DELAY :: nat where
  "FEEDBACK_DELAY = 800"

text \<open>A button as \<open>renderProducts\<close> creates it.\<close>

definition idle_button :: add_button where
  "idle_button = \<lparr>btn_label = ADD_LABEL, btn_added = False, btn_disabled = False\<rparr>"

text \<open>A pending \<open>setTimeout\<close> of \<open>showAddFeedback\<close>: when it fires, which button it
  restores, and the label the closure captured (\<open>original\<close>).\<close>

record feedback_timer =
  tm_deadline :: nat
  tm_button :: nat
  tm_original :: string

type_synonym feedback = "add_button list \<times> feedback_timer list"

text \<open>\<open>showAddFeedback(btn)\<close> on the \<open>k\<close>-th button at time \<open>now\<close>.\<close>

definition show_add_feedback :: "nat \<Rightarrow> nat \<Rightarrow> feedback \<Rightarrow> feedback" where
  "show_add_feedback now k fb =
     (let bs = fst fb; ts = snd fb; original = btn_label (bs ! k)
      in (bs[k := (bs ! k)\<lparr>btn_label := ADDED_LABEL, btn_added := True, btn_disabled := True\<rparr>],
          ts @ [\<lparr>tm_deadline = now + FEEDBACK_DELAY, tm_button = k, tm_original = original\<rparr>]))"

text \<open>The timer's callback (lines 261--265).\<close>

definition fire_timer :: "feedback_timer \<Rightarrow> add_button list \<Rightarrow> add_button list" where
  "fire_timer t bs =
     bs[tm_button t := (bs ! tm_button t)\<lparr>btn_label := tm_original t, btn_added := False,
                                          btn_disabled := False\<rparr>]"

text \<open>
  The event loop at time \<open>now\<close>: while a timer is due, run the first due one and drop
  it.  All timers have the same delay and the clock never goes back, so the list, kept
  in creation order, is in deadline order, and the first due timer is the one the
  browser runs first (\<open>timers_sorted\<close> in theory \<open>Storefront\<close>).
\<close>

function run_timers :: "nat \<Rightarrow> feedback \<Rightarrow> feedback" where
  "run_timers now (bs, ts) =
     (case find (\<lambda>t. tm_deadline t \<le> now) ts of
        None \<Rightarrow> (bs, ts)
      | Some t \<Rightarrow> run_timers now (fire_timer t bs, remove1 t ts))"
  by pat_completeness auto

termination
proof (relation "measure (\<lambda>(now, bs, ts). length ts)")
  fix now :: nat and bs :: "add_button list" and ts :: "feedback_timer list" and t :: feedback_timer
  assume "find (\<lambda>t. tm_deadline t \<le> now) ts = Some t"
  then have "t \<in> set ts" by (auto simp: find_Some_iff)
  then have "0 < length ts" by (rule length_pos_if_in_set)
  with \<open>t \<in> set ts\<close>
  show "((now, fire_timer t bs, remove1 t ts), now, bs, ts) \<in> measure (\<lambda>(now, bs, ts). length ts)"
    by (simp add: length_remove1)
qed simp

declare run_timers.simps [simp del]

section \<open>FAQ accordion\<close>

text \<open>One \<open>.faq-item\<close>: its button's class \<open>active\<close>, and whether the answer (the
  button's next sibling) is displayed.\<close>

record faq_item =
  faq_active :: bool
  faq_shown :: bool

text \<open>
  The click handler of the \<open>k\<close>-th FAQ button: every other active button is
  deactivated and its answer hidden, then the clicked one is toggled.
\<close>

definition faq_click :: "nat \<Rightarrow> faq_item list \<Rightarrow> faq_item list" where
  "faq_click k fs =
     (let isActive = faq_active (fs ! k);
          closed = map (\<lambda>(j, f). if faq_active f \<and> j \<noteq> k then f\<lparr>faq_active := False, faq_shown := False\<rparr> else f)
                     (zip [0..<length fs] fs)
      in closed[k := (closed ! k)\<lparr>faq_active := \<not> isActive, faq_shown := \<not> isActive\<rparr>])"

section \<open>Contact form\<close>

text \<open>The form's controls: name, current value, default value (restored by \<open>reset()\<close>).\<close>

record form_field =
  ff_name :: string
  ff_value :: string
  ff_default :: string

text \<open>\<open>new FormData(form).get(name)\<close>: the first control of that name, \<open>null\<close> if none.\<close>

definition form_get :: "form_field list \<Rightarrow> string \<Rightarrow> string option" where
  "form_get fs n = map_option ff_value (find (\<lambda>f. ff_name f = n) fs)"

text \<open>The value as the template literal prints it (\<open>null\<close> for a missing control).\<close>

definition shown_value :: "string option \<Rightarrow> string" where
  "shown_value v = (case v of None \<Rightarrow> ''null'' | Some s \<Rightarrow> s)"

definition NEWLINE :: char where
  "NEWLINE = char_of (10::nat)"

definition contact_message :: "form_field list \<Rightarrow> string" where
  "contact_message fs =
     ''Mensaje enviado!'' @ [NEWLINE] @ ''Nombre: '' @ shown_value (form_get fs ''name'') @ [NEWLINE] @
     ''Email: '' @ shown_value (form_get fs ''email'')"

text \<open>The submit handler: the alert's message and the form after \<open>reset()\<close>.\<close>

definition contact_submit :: "form_field list \<Rightarrow> string \<times> form_field list" where
  "contact_submit fs = (contact_message fs, map (\<lambda>f. f\<lparr>ff_value := ff_default f\<rparr>) fs)"

section \<open>Invariants\<close>

definition busy_button :: add_button where
  "busy_button = \<lparr>btn_label = ADDED_LABEL, btn_added = True, btn_disabled = True\<rparr>"

text \<open>
  The buttons and timers as the page keeps them at time \<open>now\<close>: every pending timer
  restores the label \<open>renderProducts\<close> wrote and is due within \<open>FEEDBACK_DELAY\<close>; the
  timers are in deadline order; every button is idle, or shows the feedback and has a
  pending timer.
\<close>

definition feedback_ok :: "nat \<Rightarrow> feedback \<Rightarrow> bool" where
  "feedback_ok now fb \<longleftrightarrow>
     list_all (\<lambda>t. tm_button t < length (fst fb) \<and> tm_original t = ADD_LABEL \<and>
                   tm_deadline t \<le> now + FEEDBACK_DELAY) (snd fb) \<and>
     sorted (map tm_deadline (snd fb)) \<and>
     list_all (\<lambda>k. fst fb ! k = idle_button \<or>
                   (fst fb ! k = busy_button \<and> k \<in> set (map tm_button (snd fb))))
       [0..<length (fst fb)]"

definition faq_ok :: "faq_item list \<Rightarrow> bool" where
  "faq_ok fs \<longleftrightarrow> list_all (\<lambda>f. faq_shown f = faq_active f) fs"

section \<open>Lemmas: the event loop\<close>

lemma add_button_set_all:
  "b\<lparr>btn_label := l, btn_added := a, btn_disabled := d\<rparr> = \<lparr>btn_label = l, btn_added = a, btn_disabled = d\<rparr>"
  by (cases b) simp

lemma run_timers_None [cart_simps]:
  "find (\<lambda>t. tm_deadline t \<le> now) ts = None \<Longrightarrow> run_timers now (bs, ts) = (bs, ts)"
  by (simp add: run_timers.simps)

lemma run_timers_Some:
  "find (\<lambda>t. tm_deadline t \<le> now) ts = Some t \<Longrightarrow>
   run_timers now (bs, ts) = run_timers now (fire_timer t bs, remove1 t ts)"
  by (simp add: run_timers.simps)

lemma length_fire_timer [simp]: "length (fire_timer t bs) = length bs"
  by (simp add: fire_timer_def)

lemma run_timers_length: "length (fst (run_timers now fb)) = length (fst fb)"
proof (induction now fb rule: run_timers.induct)
  case (1 now bs ts)
  show ?case
  proof (cases "find (\<lambda>t. tm_deadline t \<le> now) ts")
    case None
    then show ?thesis by (simp only: run_timers_None)
  next
    case (Some t)
    then have "run_timers now (bs, ts) = run_timers now (fire_timer t bs, remove1 t ts)"
      by (rule run_timers_Some)
    with "1.IH" [OF Some] show ?thesis by simp
  qed
qed

lemma run_timers_subset: "set (snd (run_timers now fb)) \<subseteq> set (snd fb)"
proof (induction now fb rule: run_timers.induct)
  case (1 now bs ts)
  show ?case
  proof (cases "find (\<lambda>t. tm_deadline t \<le> now) ts")
    case None
    then show ?thesis by (simp only: run_timers_None)
  next
    case (Some t)
    then have "run_timers now (bs, ts) = run_timers now (fire_timer t bs, remove1 t ts)"
      by (rule run_timers_Some)
    with "1.IH" [OF Some] set_remove1_subset [of t ts] show ?thesis by auto
  qed
qed

lemma feedback_ok_iff:
  "feedback_ok now (bs, ts) \<longleftrightarrow>
     (\<forall>t \<in> set ts. tm_button t < length bs \<and> tm_original t = ADD_LABEL \<and>
                   tm_deadline t \<le> now + FEEDBACK_DELAY) \<and>
     sorted (map tm_deadline ts) \<and>
     (\<forall>k < length bs. bs ! k = idle_button \<or> (bs ! k = busy_button \<and> k \<in> tm_button ` set ts))"
  by (auto simp: feedback_ok_def list_all_iff)

lemma feedback_ok_mono: "feedback_ok now fb \<Longrightarrow> now \<le> now' \<Longrightarrow> feedback_ok now' fb"
  by (cases fb) (fastforce simp: feedback_ok_iff)

lemma fire_timer_ok:
  assumes "feedback_ok now (bs, ts)" and "t \<in> set ts"
  shows "feedback_ok now (fire_timer t bs, remove1 t ts)"
proof -
  have t: "tm_button t < length bs" "tm_original t = ADD_LABEL" using assms by (auto simp: feedback_ok_iff)
  have "fire_timer t bs = bs[tm_button t := idle_button]"
    using t by (simp add: fire_timer_def idle_button_def add_button_set_all)
  moreover have "k \<in> tm_button ` set (remove1 t ts)"
    if "k \<in> tm_button ` set ts" "k \<noteq> tm_button t" for k
    using that by (auto simp: image_iff) (metis in_set_remove1)
  ultimately show ?thesis
    using assms t
    by (auto simp: feedback_ok_iff nth_list_update sorted_map_remove1
             dest: set_remove1_subset [THEN subsetD])
qed

lemma run_timers_ok: "feedback_ok now fb \<Longrightarrow> feedback_ok now (run_timers now fb)"
proof (induction now fb rule: run_timers.induct)
  case (1 now bs ts)
  show ?case
  proof (cases "find (\<lambda>t. tm_deadline t \<le> now) ts")
    case None
    with "1.prems" show ?thesis by (simp only: run_timers_None)
  next
    case (Some t)
    then have "t \<in> set ts" by (auto simp: find_Some_iff)
    with "1.prems" have "feedback_ok now (fire_timer t bs, remove1 t ts)" by (rule fire_timer_ok)
    then have "feedback_ok now (run_timers now (fire_timer t bs, remove1 t ts))" by (rule "1.IH" [OF Some])
    with Some show ?thesis by (simp only: run_timers_Some)
  qed
qed

lemma show_add_feedback_ok:
  assumes "feedback_ok now fb" and "k < length (fst fb)" and "\<not> btn_disabled (fst fb ! k)"
  shows "feedback_ok now (show_add_feedback now k fb)"
proof (cases fb)
  case (Pair bs ts)
  from assms Pair have idle: "bs ! k = idle_button"
    by (auto simp: feedback_ok_iff busy_button_def)
  then have "bs[k := (bs ! k)\<lparr>btn_label := ADDED_LABEL, btn_added := True, btn_disabled := True\<rparr>] =
               bs[k := busy_button]"
    by (simp add: idle_button_def busy_button_def add_button_set_all)
  with assms Pair idle show ?thesis
    by (auto simp: feedback_ok_iff show_add_feedback_def Let_def nth_list_update idle_button_def
                   sorted_append)
qed

section \<open>Lemmas: the FAQ accordion\<close>

lemma faq_click_length [simp]: "length (faq_click k fs) = length fs"
  by (simp add: faq_click_def Let_def)

lemma faq_click_nth:
  assumes "k < length fs" and "j < length fs"
  shows "faq_active (faq_click k fs ! j) = (j = k \<and> \<not> faq_active (fs ! k))"
    and "faq_shown (faq_click k fs ! j) =
           (if j = k then \<not> faq_active (fs ! k) else faq_shown (fs ! j) \<and> \<not> faq_active (fs ! j))"
  using assms by (auto simp: faq_click_def Let_def nth_list_update)

lemma run_timers_no_due: "\<forall>t \<in> set (snd (run_timers now fb)). now < tm_deadline t"
proof (induction now fb rule: run_timers.induct)
  case (1 now bs ts)
  show ?case
  proof (cases "find (\<lambda>t. tm_deadline t \<le> now) ts")
    case None
    then have "\<forall>t \<in> set ts. now < tm_deadline t" by (auto simp: find_None_iff)
    with None show ?thesis by (simp only: run_timers_None snd_conv)
  next
    case (Some t)
    with "1.IH" [OF Some] show ?thesis by (simp only: run_timers_Some)
  qed
qed

lemma run_timers_keeps_pending:
  "t \<in> set (snd fb) \<Longrightarrow> now < tm_deadline t \<Longrightarrow> t \<in> set (snd (run_timers now fb))"
proof (induction now fb rule: run_timers.induct)
  case (1 now bs ts)
  show ?case
  proof (cases "find (\<lambda>t. tm_deadline t \<le> now) ts")
    case None
    with "1.prems" show ?thesis by (simp only: run_timers_None snd_conv)
  next
    case (Some t')
    then have "tm_deadline t' \<le> now" by (auto simp: find_Some_iff)
    with "1.prems" have "t \<noteq> t'" by auto
    with "1.prems" have "t \<in> set (remove1 t' ts)" by (simp add: in_set_remove1)
    with "1.IH" [OF Some] "1.prems"(2) Some show ?thesis by (simp only: run_timers_Some snd_conv)
  qed
qed

text \<open>Once the clock has moved on by the feedback delay, every button is back to idle.\<close>

lemma feedback_settles:
  assumes "feedback_ok now (bs, ts)" and "FEEDBACK_DELAY \<le> d"
  shows "run_timers (now + d) (bs, ts) = (replicate (length bs) idle_button, [])"
proof -
  obtain bs' ts' where r: "run_timers (now + d) (bs, ts) = (bs', ts')" by fastforce
  have ok: "feedback_ok (now + d) (bs', ts')"
    using run_timers_ok [OF feedback_ok_mono [OF assms(1)], of "now + d"] r by simp
  have due: "tm_deadline t \<le> now + d" if "t \<in> set ts'" for t
  proof -
    from that r run_timers_subset [of "now + d" "(bs, ts)"] have "t \<in> set ts" by auto
    with assms show ?thesis by (auto simp: feedback_ok_iff)
  qed
  have nd: "\<forall>t \<in> set ts'. now + d < tm_deadline t"
    using run_timers_no_due [of "now + d" "(bs, ts)"] r by simp
  have "set ts' = {}"
  proof (rule equals0I)
    fix t assume t: "t \<in> set ts'"
    with nd have "now + d < tm_deadline t" by blast
    with due [OF t] show False by simp
  qed
  then have ts': "ts' = []" by simp
  have len: "length bs' = length bs"
    using run_timers_length [of "now + d" "(bs, ts)"] r by simp
  have "bs' ! k = idle_button" if "k < length bs'" for k
    using ok that ts' by (auto simp: feedback_ok_iff)
  then have "bs' = replicate (length bs) idle_button"
    using len by (intro nth_equalityI) simp_all
  with r ts' show ?thesis by simp
qed

section \<open>Properties\<close>

text \<open>
  The event loop terminates and runs exactly what is due: \<open>run_timers\<close> is a
  total function (its termination is proved by the number of pending timers), and when
  it returns, the pending timers are exactly those of the start that are not yet due.
\<close>

theorem run_timers_drains:
  "set (snd (run_timers now fb)) = {t \<in> set (snd fb). now < tm_deadline t}"
  using run_timers_no_due [of now fb] run_timers_subset [of now fb] run_timers_keeps_pending [of _ fb now]
  by blast

text \<open>
  C33.  The accordion keeps at most one question open: after a click on the \<open>k\<close>-th
  question, at most one button is active, and the clicked one has been toggled.
\<close>

theorem faq_at_most_one_open:
  assumes "k < length fs"
  shows "length (filter faq_active (faq_click k fs)) \<le> 1 \<and>
         faq_active (faq_click k fs ! k) = (\<not> faq_active (fs ! k))"
proof -
  have "{j. j < length fs \<and> faq_active (faq_click k fs ! j)} \<subseteq> {k}"
    using faq_click_nth(1) [OF assms] by auto
  then have "card {j. j < length fs \<and> faq_active (faq_click k fs ! j)} \<le> 1"
    using card_mono [of "{k}"] by fastforce
  then show ?thesis
    using faq_click_nth(1) [OF assms assms] by (simp add: length_filter_conv_card)
qed

theorem faq_at_most_one_open_witness:
  "length (filter faq_active (faq_click 1 [\<lparr>faq_active = True, faq_shown = True\<rparr>,
       \<lparr>faq_active = False, faq_shown = False\<rparr>])) \<le> 1 \<and>
   faq_active (faq_click 1 [\<lparr>faq_active = True, faq_shown = True\<rparr>,
       \<lparr>faq_active = False, faq_shown = False\<rparr>] ! 1) = True"
  using faq_at_most_one_open [of 1 "[\<lparr>faq_active = True, faq_shown = True\<rparr>, \<lparr>faq_active = False, faq_shown = False\<rparr>]"]
  by simp

end
