(* ===== verification/Storefront.thy ===== *)
theory Storefront
  imports Cart_Manager Rendering Widgets
begin

text \<open>
  The presentation layer of src/app.js (sections 4--6, lines 203--464) as a page state
  and one handler per event listener.  The page holds the single \<open>CartManager\<close>
  instance \<open>cart\<close>, the two pieces of DOM state the handlers toggle (the sidebar's
  \<open>active\<close> class, the checkout modal's \<open>display\<close>), what \<open>renderCart\<close> and
  \<open>openCheckout\<close> last wrote into the DOM, and the \<open>alert\<close> messages shown.  The
  only callback the page subscribes is \<open>renderCart\<close> (\<open>RenderCart\<close>); its effect
  is modelled where the cart invokes it: \<open>after_cart\<close> re-renders the sidebar
  exactly when the trace of the cart method contains an invocation of it.  Clicks are
  values of \<open>ui_event\<close>; \<open>Number(btn.dataset...)\<close> is the rational carried by
  the event, except on the product grid, where the event names the card whose button
  was clicked and the handler reads the card's \<open>data-product-id\<close>.  The page also
  holds the product cards, the add buttons with their pending feedback timers and a
  millisecond clock, the FAQ items and the contact form (theory \<open>Widgets\<close>); time
  passing is the event \<open>Tick\<close>.  The hero button's scroll is the field \<open>pg_scroll\<close>.
\<close>

datatype ui_callback = RenderCart

section \<open>The page\<close>

record page =
  pg_cart :: "ui_callback cart_state"
  pg_sidebar_open :: bool
  pg_modal_open :: bool
  pg_cart_view :: cart_view
  pg_checkout_view :: checkout_view
  pg_alerts :: "string list"
  pg_cards :: "product_card list"
  pg_now :: nat
  pg_buttons :: "add_button list"
  pg_timers :: "feedback_timer list"
  pg_faq :: "faq_item list"
  pg_form :: "form_field list"
  pg_scroll :: "string option"

text \<open>
  A cart method called by a handler: the cart's new state, and \<open>renderCart\<close> run if
  the method invoked it (it runs inside \<open>#emit\<close>, the method's last step, so it reads
  the method's final state).
\<close>

definition after_cart :: "page \<Rightarrow> ui_callback cart_state \<Rightarrow> page" where
  "after_cart pg c =
     (let fired = invoked (drop (length (cs_trace (pg_cart pg))) (cs_trace c))
      in pg\<lparr>pg_cart := c,
            pg_cart_view := (if RenderCart \<in> set (map fst fired) then render_cart (cs_items c)
                             else pg_cart_view pg)\<rparr>)"

definition open_cart :: "page \<Rightarrow> page" where
  "open_cart pg = pg\<lparr>pg_sidebar_open := True\<rparr>"

definition close_cart :: "page \<Rightarrow> page" where
  "close_cart pg = pg\<lparr>pg_sidebar_open := False\<rparr>"

definition toggle_cart :: "page \<Rightarrow> page" where
  "toggle_cart pg = (if pg_sidebar_open pg then close_cart pg else open_cart pg)"

definition open_checkout :: "page \<Rightarrow> page" where
  "open_checkout pg =
     (if is_empty (cs_items (pg_cart pg)) then pg
      else pg\<lparr>pg_checkout_view := render_checkout (cs_items (pg_cart pg)), pg_modal_open := True\<rparr>)"

definition close_checkout :: "page \<Rightarrow> page" where
  "close_checkout pg = pg\<lparr>pg_modal_open := False\<rparr>"

definition ORDER_CONFIRMED :: string where
  "ORDER_CONFIRMED = ''Pedido confirmado! Gracias por tu compra.''"

definition confirm_order :: "page \<Rightarrow> page" where
  "confirm_order pg =
     (if is_empty (cs_items (pg_cart pg)) then pg
      else close_checkout (after_cart (pg\<lparr>pg_alerts := pg_alerts pg @ [ORDER_CONFIRMED]\<rparr>)
                                      (clear (pg_cart pg))))"

section \<open>Event listeners\<close>

text \<open>
  The clicks the page listens to.  \<open>None\<close> is a click inside the container that is
  not on a matching button (\<open>if (!btn) return\<close>).
\<close>

datatype ui_event =
    ProductsClick "nat option"
  | CartItemsClick "(string \<times> rat) option"
  | CartIconClick
  | CartCloseClick
  | OverlayClick
  | CheckoutClick
  | ModalCloseClick
  | ConfirmClick
  | ClearCartClick
  | ModalBackdropClick
  | FaqClick nat
  | ContactSubmit
  | Tick nat
  | HeroExploreClick

text \<open>\<open>showAddFeedback(btn)\<close> on the page (line 383).\<close>

definition add_feedback :: "nat \<Rightarrow> page \<Rightarrow> page" where
  "add_feedback k pg =
     (let fb = show_add_feedback (pg_now pg) k (pg_buttons pg, pg_timers pg)
      in pg\<lparr>pg_buttons := fst fb, pg_timers := snd fb\<rparr>)"

text \<open>
  The delegated click handler of the product grid (lines 373--384), for a click on the
  button of the \<open>k\<close>-th card: \<open>Number(btn.dataset.productId)\<close>, the catalog lookup,
  \<open>addItem(product)\<close>, \<open>openCart()\<close>, \<open>showAddFeedback(btn)\<close>.  If \<open>addItem\<close>
  throws, the rest of the handler does not run and the cart is unchanged.
\<close>

definition products_click :: "page \<Rightarrow> nat option \<Rightarrow> page" where
  "products_click pg target =
     (case target of
        None \<Rightarrow> pg
      | Some k \<Rightarrow>
          (if k < length (pg_cards pg) then
             (case card_product_id (pg_cards pg ! k) of
                None \<Rightarrow> pg
              | Some attr \<Rightarrow>
                  (case js_number attr of
                     None \<Rightarrow> pg
                   | Some pid \<Rightarrow>
                       (case find_product (JNum pid) of
                          None \<Rightarrow> pg
                        | Some product \<Rightarrow>
                            (case add_item (pg_cart pg) product 1 of
                               Inl e \<Rightarrow> pg
                             | Inr c \<Rightarrow> add_feedback k (open_cart (after_cart pg c))))))
           else pg))"

text \<open>
  A click on a disabled button is not dispatched (HTML: a disabled form control receives
  no click events), so while an add button shows its feedback, clicks on it do nothing.
\<close>

definition add_click_blocked :: "page \<Rightarrow> nat option \<Rightarrow> bool" where
  "add_click_blocked pg target =
     (case target of
        None \<Rightarrow> False
      | Some k \<Rightarrow> k < length (pg_buttons pg) \<and> btn_disabled (pg_buttons pg ! k))"

text \<open>The delegated click handler of the sidebar rows (lines 387--403).\<close>

definition cart_items_click :: "page \<Rightarrow> (string \<times> rat) option \<Rightarrow> page" where
  "cart_items_click pg target =
     (case target of
        None \<Rightarrow> pg
      | Some (action, pid) \<Rightarrow>
          (if action = ''increase'' then
             (case find (\<lambda>i. item_id i = JNum pid) (get_items (cs_items (pg_cart pg))) of
                None \<Rightarrow> pg
              | Some item \<Rightarrow> after_cart pg (snd (update_quantity (pg_cart pg) (JNum pid) (item_quantity item + 1))))
           else if action = ''decrease'' then
             (case find (\<lambda>i. item_id i = JNum pid) (get_items (cs_items (pg_cart pg))) of
                None \<Rightarrow> pg
              | Some item \<Rightarrow> after_cart pg (snd (update_quantity (pg_cart pg) (JNum pid) (item_quantity item - 1))))
           else if action = ''remove'' then after_cart pg (snd (remove_item (pg_cart pg) (JNum pid)))
           else pg))"

text \<open>The click handler of the \<open>k\<close>-th FAQ button (lines 429--442).\<close>

definition faq_button_click :: "page \<Rightarrow> nat \<Rightarrow> page" where
  "faq_button_click pg k = (if k < length (pg_faq pg) then pg\<lparr>pg_faq := faq_click k (pg_faq pg)\<rparr> else pg)"

text \<open>The submit handler of the contact form (lines 446--453).\<close>

definition contact_form_submit :: "page \<Rightarrow> page" where
  "contact_form_submit pg =
     (let r = contact_submit (pg_form pg) in pg\<lparr>pg_alerts := pg_alerts pg @ [fst r], pg_form := snd r\<rparr>)"

text \<open>Time passes: the clock advances by \<open>d\<close> and the event loop runs the due timers.\<close>

definition advance_clock :: "nat \<Rightarrow> page \<Rightarrow> page" where
  "advance_clock d pg =
     (let now = pg_now pg + d; fb = run_timers now (pg_buttons pg, pg_timers pg)
      in pg\<lparr>pg_now := now, pg_buttons := fst fb, pg_timers := snd fb\<rparr>)"

text \<open>
  The hero button (lines 423--425): \<open>scrollIntoView\<close> on the product grid.  The page
  records the id of the element the viewport was last scrolled to.
\<close>

definition hero_explore_click :: "page \<Rightarrow> page" where
  "hero_explore_click pg = pg\<lparr>pg_scroll := Some ''products-container''\<rparr>"

text \<open>\<open>bindEvents\<close>: which handler each event reaches (lines 371--453).\<close>

fun dispatch :: "page \<Rightarrow> ui_event \<Rightarrow> page" where
  "dispatch pg (ProductsClick t) = (if add_click_blocked pg t then pg else products_click pg t)"
| "dispatch pg (CartItemsClick t) = cart_items_click pg t"
| "dispatch pg CartIconClick = toggle_cart pg"
| "dispatch pg CartCloseClick = close_cart pg"
| "dispatch pg OverlayClick = close_cart pg"
| "dispatch pg CheckoutClick = open_checkout pg"
| "dispatch pg ModalCloseClick = close_checkout pg"
| "dispatch pg ConfirmClick = confirm_order pg"
| "dispatch pg ClearCartClick = after_cart pg (clear (pg_cart pg))"
| "dispatch pg ModalBackdropClick = close_checkout pg"
| "dispatch pg (FaqClick k) = faq_button_click pg k"
| "dispatch pg ContactSubmit = contact_form_submit pg"
| "dispatch pg (Tick d) = advance_clock d pg"
| "dispatch pg HeroExploreClick = hero_explore_click pg"

text \<open>
  The events whose handlers touch only the page's widgets (FAQ, form, clock and
  timers, scroll position), not the cart or its views.
\<close>

fun widget_event :: "ui_event \<Rightarrow> bool" where
  "widget_event (FaqClick k) = True"
| "widget_event ContactSubmit = True"
| "widget_event (Tick d) = True"
| "widget_event HeroExploreClick = True"
| "widget_event ev = False"

section \<open>Initialization\<close>

text \<open>
  Lines 460--464: \<open>new CartManager()\<close> on the browser's storage,
  \<open>renderProducts()\<close> (every add button idle), \<open>renderCart()\<close>, then
  \<open>bindEvents()\<close>, whose only effect on the cart is \<open>cart.on("change",
  renderCart)\<close>.  \<open>renderCart\<close> does not throw.  The sidebar and the modal start
  closed (the stylesheet's initial state); the FAQ items and the contact form come from
  the page's markup, which is outside src/, and are parameters; the clock starts at 0.
\<close>

definition page_init :: "storage \<Rightarrow> faq_item list \<Rightarrow> form_field list \<Rightarrow> page" where
  "page_init stg faqs form =
     (let cart = new_cart stg (\<lambda>cb d. False)
      in \<lparr>pg_cart = cart_on cart ''change'' RenderCart, pg_sidebar_open = False,
          pg_modal_open = False, pg_cart_view = render_cart (cs_items cart),
          pg_checkout_view = empty_checkout, pg_alerts = [], pg_cards = render_products,
          pg_now = 0, pg_buttons = replicate (length render_products) idle_button,
          pg_timers = [], pg_faq = faqs, pg_form = form, pg_scroll = None\<rparr>)"

text \<open>The pages the user can reach by clicking, from a well-formed stored cart.\<close>

inductive ui_reachable :: "page \<Rightarrow> bool" where
  init: "wf_items (load stg) \<Longrightarrow> list_all persistable (load stg) \<Longrightarrow> ui_reachable (page_init stg faqs form)"
| step: "ui_reachable pg \<Longrightarrow> ui_reachable (dispatch pg ev)"

definition page_inv :: "page \<Rightarrow> bool" where
  "page_inv pg \<longleftrightarrow>
     subscribers (cs_listeners (pg_cart pg)) ''change'' = [RenderCart] \<and>
     pg_cart_view pg = render_cart (cs_items (pg_cart pg))"

text \<open>The product grid and its buttons as \<open>renderProducts\<close> left them, with their timers.\<close>

definition widgets_inv :: "page \<Rightarrow> bool" where
  "widgets_inv pg \<longleftrightarrow>
     pg_cards pg = render_products \<and> length (pg_buttons pg) = length PRODUCTS \<and>
     feedback_ok (pg_now pg) (pg_buttons pg, pg_timers pg)"

text \<open>The shape of every state a cart method returns: unchanged, or saved and notified.\<close>

definition notified :: "'cb cart_state \<Rightarrow> 'cb cart_state \<Rightarrow> bool" where
  "notified c c' \<longleftrightarrow> c' = c \<or> (\<exists>d its. c' = cart_emit ''change'' d (cart_save (c\<lparr>cs_items := its\<rparr>)))"

section \<open>Lemmas: the page's calls into the cart\<close>

lemma after_cart_same [cart_simps]: "after_cart pg (pg_cart pg) = pg"
  by (simp add: after_cart_def)

lemma after_cart_emit:
  assumes "subscribers (cs_listeners (pg_cart pg)) ''change'' = [RenderCart]"
  shows "after_cart pg (cart_emit ''change'' d (cart_save ((pg_cart pg)\<lparr>cs_items := its\<rparr>))) =
           pg\<lparr>pg_cart := cart_emit ''change'' d (cart_save ((pg_cart pg)\<lparr>cs_items := its\<rparr>)),
              pg_cart_view := render_cart its\<rparr>"
  using assms
  by (simp add: after_cart_def cart_emit_trace cart_save_trace cart_save_fields cart_emit_fields
                invoked_append invoked_emit split: if_split)

lemma pg_cart_simps [cart_simps]:
  "pg_cart (after_cart pg c) = c"
  "pg_cart (open_cart pg) = pg_cart pg"
  "pg_cart (close_cart pg) = pg_cart pg"
  "pg_cart (toggle_cart pg) = pg_cart pg"
  "pg_cart (open_checkout pg) = pg_cart pg"
  "pg_cart (close_checkout pg) = pg_cart pg"
  "pg_cart (add_feedback k pg) = pg_cart pg"
  "pg_cart (faq_button_click pg k) = pg_cart pg"
  "pg_cart (contact_form_submit pg) = pg_cart pg"
  "pg_cart (advance_clock d pg) = pg_cart pg"
  "pg_cart (hero_explore_click pg) = pg_cart pg"
  by (simp_all add: after_cart_def open_cart_def close_cart_def toggle_cart_def
                    open_checkout_def close_checkout_def add_feedback_def Let_def
                    faq_button_click_def contact_form_submit_def advance_clock_def hero_explore_click_def)

text \<open>A click on the \<open>k\<close>-th card of the catalog grid is a call of \<open>addItem\<close> with the
  \<open>k\<close>-th product.\<close>

lemma products_click_catalog:
  assumes "pg_cards pg = render_products" and "k < length PRODUCTS"
  shows "products_click pg (Some k) =
           (case add_item (pg_cart pg) (PRODUCTS ! k) 1 of
              Inl e \<Rightarrow> pg
            | Inr c \<Rightarrow> add_feedback k (open_cart (after_cart pg c)))"
proof -
  obtain s r where "card_product_id (render_products ! k) = Some s" and "js_number s = Some r"
    and "find_product (JNum r) = Some (PRODUCTS ! k)"
    using card_click_product [OF assms(2)] by blast
  with assms show ?thesis by (simp add: products_click_def)
qed

lemma products_click_cart:
  "pg_cart (products_click pg t) = pg_cart pg \<or>
   (\<exists>pid p. find_product pid = Some p \<and> pg_cart (products_click pg t) = exec_op (pg_cart pg) (AddItem p 1))"
proof (cases "\<exists>k a pid p c. t = Some k \<and> k < length (pg_cards pg) \<and> card_product_id (pg_cards pg ! k) = Some a \<and>
                  js_number a = Some pid \<and> find_product (JNum pid) = Some p \<and> add_item (pg_cart pg) p 1 = Inr c")
  case True
  then obtain k a pid p c where t: "t = Some k" "k < length (pg_cards pg)"
    and a: "card_product_id (pg_cards pg ! k) = Some a" "js_number a = Some pid"
    and p: "find_product (JNum pid) = Some p" and c: "add_item (pg_cart pg) p 1 = Inr c" by blast
  then have "pg_cart (products_click pg t) = exec_op (pg_cart pg) (AddItem p 1)"
    by (simp add: products_click_def cart_simps)
  with p show ?thesis by blast
next
  case False
  then have "products_click pg t = pg"
    by (auto simp: products_click_def split: option.splits sum.splits)
  then show ?thesis by simp
qed

lemma is_integer_succ_pred:
  "is_integer q \<Longrightarrow> is_integer (q + 1)" "is_integer q \<Longrightarrow> is_integer (q - 1)"
  by (simp_all add: is_integer_Ints)

lemma find_wf_integer:
  "wf_items its \<Longrightarrow> find P its = Some item \<Longrightarrow> is_integer (item_quantity item)"
  by (auto simp: wf_items_def qty_ok_def list_all_iff find_Some_iff)

lemma catalog_sane:
  "find_product pid = Some p \<Longrightarrow> sane_op (AddItem p 1) \<and> \<not> invalid_product p"
  using catalog_entries_valid find_product_Some [of pid p]
  by (auto simp: list_all_iff is_integer_def)

lemma cart_items_click_cart:
  "pg_cart (cart_items_click pg (Some (action, pid))) =
     (if action = ''increase'' then
        (case find (\<lambda>i. item_id i = JNum pid) (cs_items (pg_cart pg)) of
           None \<Rightarrow> pg_cart pg
         | Some item \<Rightarrow> exec_op (pg_cart pg) (UpdateQuantity (JNum pid) (item_quantity item + 1)))
      else if action = ''decrease'' then
        (case find (\<lambda>i. item_id i = JNum pid) (cs_items (pg_cart pg)) of
           None \<Rightarrow> pg_cart pg
         | Some item \<Rightarrow> exec_op (pg_cart pg) (UpdateQuantity (JNum pid) (item_quantity item - 1)))
      else if action = ''remove'' then exec_op (pg_cart pg) (RemoveItem (JNum pid))
      else pg_cart pg)"
  by (simp add: cart_items_click_def get_items_copy pg_cart_simps split: option.splits)

text \<open>Every click leaves the cart alone or makes one call the cart's invariant allows.\<close>

lemma dispatch_cart:
  assumes "wf_items (cs_items (pg_cart pg))"
  shows "pg_cart (dispatch pg ev) = pg_cart pg \<or>
         (\<exists>op. sane_op op \<and> pg_cart (dispatch pg ev) = exec_op (pg_cart pg) op)"
proof (cases ev)
  case (ProductsClick t)
  have "pg_cart (products_click pg t) = pg_cart pg \<or>
        (\<exists>op. sane_op op \<and> pg_cart (products_click pg t) = exec_op (pg_cart pg) op)"
    using products_click_cart [of pg t] catalog_sane by blast
  with ProductsClick show ?thesis by simp
next
  case (CartItemsClick t)
  show ?thesis
  proof (cases t)
    case (Some ap)
    obtain action pid where ap: "ap = (action, pid)" by (cases ap)
    have int: "sane_op (UpdateQuantity (JNum pid) (item_quantity item + 1)) \<and>
               sane_op (UpdateQuantity (JNum pid) (item_quantity item - 1))"
      if "find (\<lambda>i. item_id i = JNum pid) (cs_items (pg_cart pg)) = Some item" for item
      using find_wf_integer [OF assms that] by (simp add: is_integer_succ_pred)
    have "sane_op (RemoveItem (JNum pid))" by simp
    with int show ?thesis
      unfolding CartItemsClick Some ap dispatch.simps cart_items_click_cart
      by (auto split: option.splits simp del: exec_op.simps sane_op.simps)
  next
    case None
    with CartItemsClick show ?thesis by (simp add: cart_items_click_def)
  qed
next
  case ConfirmClick
  then show ?thesis by (auto simp: confirm_order_def cart_simps intro!: exI [of _ ClearCart])
next
  case ClearCartClick
  then show ?thesis by (auto simp: cart_simps intro!: exI [of _ ClearCart])
qed (simp_all add: cart_simps)

section \<open>Lemmas: the sidebar stays in step with the cart\<close>

lemma page_inv_updates [cart_simps]:
  "page_inv (pg\<lparr>pg_sidebar_open := b\<rparr>) = page_inv pg"
  "page_inv (pg\<lparr>pg_modal_open := b\<rparr>) = page_inv pg"
  "page_inv (pg\<lparr>pg_checkout_view := cv\<rparr>) = page_inv pg"
  "page_inv (pg\<lparr>pg_alerts := als\<rparr>) = page_inv pg"
  by (simp_all add: page_inv_def)

lemma notified_methods:
  "add_item c p q = Inr c' \<Longrightarrow> notified c c'"
  "notified c (snd (remove_item c pid))"
  "notified c (snd (update_quantity c pid q))"
  "notified c (clear c)"
  by (auto simp: notified_def remove_item_eq update_quantity_eq clear_def dest: add_item_Inr)

lemma after_cart_inv:
  assumes "page_inv pg" and "notified (pg_cart pg) c"
  shows "page_inv (after_cart pg c)"
  using assms(2) unfolding notified_def
proof
  assume "c = pg_cart pg"
  with assms(1) show ?thesis by (simp add: after_cart_same)
next
  assume "\<exists>d its. c = cart_emit ''change'' d (cart_save ((pg_cart pg)\<lparr>cs_items := its\<rparr>))"
  then obtain d its where c: "c = cart_emit ''change'' d (cart_save ((pg_cart pg)\<lparr>cs_items := its\<rparr>))"
    by blast
  from assms(1) have "subscribers (cs_listeners (pg_cart pg)) ''change'' = [RenderCart]"
    by (simp add: page_inv_def)
  with c show ?thesis
    by (simp add: after_cart_emit page_inv_def cart_emit_fields cart_save_fields)
qed

lemma page_inv_add_feedback [cart_simps]: "page_inv (add_feedback k pg) = page_inv pg"
  by (simp add: add_feedback_def page_inv_def Let_def)

lemma dispatch_page_inv:
  assumes "page_inv pg"
  shows "page_inv (dispatch pg ev)"
proof (cases ev)
  case (ProductsClick t)
  with assms show ?thesis
    by (auto simp: products_click_def open_cart_def cart_simps
             intro: after_cart_inv notified_methods split: option.splits sum.splits)
next
  case (CartItemsClick t)
  with assms show ?thesis
    by (auto simp: cart_items_click_def intro: after_cart_inv notified_methods split: option.splits)
next
  case ConfirmClick
  with assms show ?thesis
    by (auto simp: confirm_order_def close_checkout_def cart_simps intro!: after_cart_inv
             intro: notified_methods)
next
  case (FaqClick k)
  with assms show ?thesis by (simp add: faq_button_click_def page_inv_def)
next
  case ContactSubmit
  with assms show ?thesis by (simp add: contact_form_submit_def page_inv_def Let_def)
next
  case (Tick d)
  with assms show ?thesis by (simp add: advance_clock_def page_inv_def Let_def)
next
  case HeroExploreClick
  with assms show ?thesis by (simp add: hero_explore_click_def page_inv_def)
qed (use assms in \<open>auto simp: toggle_cart_def open_cart_def close_cart_def open_checkout_def
                      close_checkout_def cart_simps intro: after_cart_inv notified_methods\<close>)

lemma page_init_inv: "page_inv (page_init stg faqs form)"
  by (simp add: page_init_def page_inv_def cart_on_def subscribers_on new_cart_def)
    (simp add: subscribers_def)

lemma ui_reachable_inv: "ui_reachable pg \<Longrightarrow> page_inv pg"
  by (induction rule: ui_reachable.induct) (simp_all add: page_init_inv dispatch_page_inv)

section \<open>Lemmas: the product grid and its buttons\<close>

lemma widgets_fields [cart_simps]:
  "pg_cards (after_cart pg c) = pg_cards pg \<and> pg_now (after_cart pg c) = pg_now pg \<and>
   pg_buttons (after_cart pg c) = pg_buttons pg \<and> pg_timers (after_cart pg c) = pg_timers pg"
  "pg_cards (open_cart pg) = pg_cards pg \<and> pg_now (open_cart pg) = pg_now pg \<and>
   pg_buttons (open_cart pg) = pg_buttons pg \<and> pg_timers (open_cart pg) = pg_timers pg"
  by (simp_all add: after_cart_def open_cart_def Let_def)

lemma widgets_inv_add_feedback:
  assumes "widgets_inv pg" and "k < length PRODUCTS" and "\<not> btn_disabled (pg_buttons pg ! k)"
  shows "widgets_inv (add_feedback k pg)"
proof -
  have "feedback_ok (pg_now pg) (show_add_feedback (pg_now pg) k (pg_buttons pg, pg_timers pg))"
    using assms by (intro show_add_feedback_ok) (simp_all add: widgets_inv_def)
  with assms show ?thesis
    by (simp add: widgets_inv_def add_feedback_def Let_def show_add_feedback_def)
qed

lemma dispatch_widgets_inv:
  assumes "widgets_inv pg"
  shows "widgets_inv (dispatch pg ev)"
proof (cases ev)
  case (ProductsClick t)
  show ?thesis
  proof (cases "\<exists>k. t = Some k \<and> k < length PRODUCTS \<and> \<not> btn_disabled (pg_buttons pg ! k)")
    case True
    then obtain k where t: "t = Some k" and k: "k < length PRODUCTS" "\<not> btn_disabled (pg_buttons pg ! k)"
      by blast
    have c: "pg_cards pg = render_products" using assms by (simp add: widgets_inv_def)
    have "widgets_inv (add_feedback k (open_cart (after_cart pg c)))" for c
      using assms k by (intro widgets_inv_add_feedback) (simp_all add: widgets_inv_def cart_simps)
    with assms ProductsClick t k c show ?thesis
      by (simp add: products_click_catalog split: sum.splits)
  next
    case False
    with assms ProductsClick show ?thesis
      by (auto simp: add_click_blocked_def products_click_def widgets_inv_def split: option.splits)
  qed
next
  case (Tick d)
  have "feedback_ok (pg_now pg + d) (pg_buttons pg, pg_timers pg)"
    using assms feedback_ok_mono by (auto simp: widgets_inv_def)
  then have "feedback_ok (pg_now pg + d) (run_timers (pg_now pg + d) (pg_buttons pg, pg_timers pg))"
    by (rule run_timers_ok)
  with assms Tick show ?thesis
    using run_timers_length [of "pg_now pg + d" "(pg_buttons pg, pg_timers pg)"]
    by (simp add: widgets_inv_def advance_clock_def Let_def)
qed (use assms in \<open>auto simp: widgets_inv_def cart_items_click_def toggle_cart_def open_cart_def
                      close_cart_def open_checkout_def close_checkout_def confirm_order_def
                      faq_button_click_def contact_form_submit_def after_cart_def Let_def
                      hero_explore_click_def split: option.splits\<close>)

lemma page_init_widgets: "widgets_inv (page_init stg faqs form)"
  by (simp add: page_init_def widgets_inv_def feedback_ok_iff Let_def)

lemma ui_reachable_widgets: "ui_reachable pg \<Longrightarrow> widgets_inv pg"
  by (induction rule: ui_reachable.induct) (simp_all add: page_init_widgets dispatch_widgets_inv)

lemma click_first_card:
  "cs_items (pg_cart (dispatch (page_init \<lparr>st_data = Map.empty, st_readable = True, st_writable = True\<rparr> fs fm)
      (ProductsClick (Some 0)))) = [new_line_item (PRODUCTS ! 0) 1] \<and>
   pg_alerts (dispatch (page_init \<lparr>st_data = Map.empty, st_readable = True, st_writable = True\<rparr> fs fm)
      (ProductsClick (Some 0))) = []"
proof -
  let ?pg = "page_init \<lparr>st_data = Map.empty, st_readable = True, st_writable = True\<rparr> fs fm"
  have "\<not> add_click_blocked ?pg (Some 0)"
    by (simp add: add_click_blocked_def page_init_def Let_def idle_button_def render_products_def
                  PRODUCTS_def)
  moreover have "pg_cards ?pg = render_products" by (simp add: page_init_def Let_def)
  moreover have "\<not> invalid_product (PRODUCTS ! 0)"
    by (simp add: PRODUCTS_def mk_product_def invalid_product_def price_val_def)
  moreover have "(0::nat) < length PRODUCTS" by (simp add: PRODUCTS_def)
  ultimately show ?thesis
    by (simp add: products_click_catalog add_item_valid add_feedback_def open_cart_def after_cart_def
                  Let_def cart_emit_fields cart_save_fields merge_item_def page_init_def cart_on_def
                  new_cart_def load_def clamp_quantity_def MAX_QUANTITY_def)
qed

lemma widget_fields_cart_handlers:
  "pg_faq (after_cart pg c) = pg_faq pg \<and> pg_form (after_cart pg c) = pg_form pg \<and>
   pg_now (after_cart pg c) = pg_now pg \<and> pg_scroll (after_cart pg c) = pg_scroll pg"
  "pg_faq (open_cart pg) = pg_faq pg \<and> pg_form (open_cart pg) = pg_form pg \<and>
   pg_now (open_cart pg) = pg_now pg \<and> pg_scroll (open_cart pg) = pg_scroll pg"
  "pg_faq (add_feedback k pg) = pg_faq pg \<and> pg_form (add_feedback k pg) = pg_form pg \<and>
   pg_now (add_feedback k pg) = pg_now pg \<and> pg_scroll (add_feedback k pg) = pg_scroll pg"
  "pg_faq (close_checkout pg) = pg_faq pg \<and> pg_form (close_checkout pg) = pg_form pg \<and>
   pg_now (close_checkout pg) = pg_now pg \<and> pg_scroll (close_checkout pg) = pg_scroll pg"
  by (simp_all add: after_cart_def open_cart_def add_feedback_def close_checkout_def Let_def)

section \<open>Properties\<close>

text \<open>
  C25.  On every page the user can reach, the sidebar shows the cart as it is: the rows,
  the empty-cart message, the total and the item-count badge are what \<open>renderCart\<close>
  computes from the cart's current items, because the page subscribes \<open>renderCart\<close>
  once and every cart call that changes the items notifies it.
\<close>

theorem sidebar_consistent:
  "ui_reachable pg \<Longrightarrow> pg_cart_view pg = render_cart (cs_items (pg_cart pg))"
  by (drule ui_reachable_inv) (simp add: page_inv_def)

theorem sidebar_consistent_witness:
  "pg_cart_view (dispatch (page_init \<lparr>st_data = Map.empty, st_readable = True, st_writable = True\<rparr> [] [])
       (ProductsClick (Some 0))) =
   render_cart (cs_items (pg_cart (dispatch (page_init \<lparr>st_data = Map.empty, st_readable = True,
       st_writable = True\<rparr> [] []) (ProductsClick (Some 0)))))"
  by (rule sidebar_consistent, rule ui_reachable.step, rule ui_reachable.init)
     (simp_all add: load_def wf_items_Nil)

text \<open>
  C27.  Confirming an order on a non-empty cart shows one confirmation alert, empties the
  cart, persists the empty cart when storage is writable, closes the checkout modal, and
  leaves the sidebar showing the empty-cart message with total 0.
\<close>

theorem confirm_order_clears:
  assumes "page_inv pg" and "cs_items (pg_cart pg) \<noteq> []"
  shows "cs_items (pg_cart (confirm_order pg)) = [] \<and> \<not> pg_modal_open (confirm_order pg) \<and>
         pg_alerts (confirm_order pg) = pg_alerts pg @ [ORDER_CONFIRMED] \<and>
         cv_empty_message (pg_cart_view (confirm_order pg)) \<and>
         cv_total (pg_cart_view (confirm_order pg)) = 0 \<and>
         (st_writable (cs_storage (pg_cart pg)) \<longrightarrow>
            st_data (cs_storage (pg_cart (confirm_order pg))) STORAGE_KEY = Some (serialize []))"
proof -
  let ?pg = "pg\<lparr>pg_alerts := pg_alerts pg @ [ORDER_CONFIRMED]\<rparr>"
  have sub: "subscribers (cs_listeners (pg_cart ?pg)) ''change'' = [RenderCart]"
    using assms(1) by (simp add: page_inv_def)
  have "after_cart ?pg (clear (pg_cart ?pg)) =
      ?pg\<lparr>pg_cart := clear (pg_cart pg), pg_cart_view := render_cart []\<rparr>"
    using after_cart_emit [OF sub] by (simp add: clear_def)
  then have c: "confirm_order pg =
      ?pg\<lparr>pg_cart := clear (pg_cart pg), pg_cart_view := render_cart [], pg_modal_open := False\<rparr>"
    using assms(2) by (simp add: confirm_order_def close_checkout_def is_empty_iff)
  show ?thesis
    by (simp add: c clear_def cart_emit_fields cart_save_fields save_def render_cart_def
                  get_summary_fields get_subtotal_Nil get_item_count_sum get_items_copy
                  no_options_def opt_or_zero_def js_round_0)
qed

theorem confirm_order_clears_witness:
  "cs_items (pg_cart (confirm_order (dispatch (page_init \<lparr>st_data = Map.empty, st_readable = True,
       st_writable = True\<rparr> [] []) (ProductsClick (Some 0))))) = [] \<and>
   pg_alerts (confirm_order (dispatch (page_init \<lparr>st_data = Map.empty, st_readable = True,
       st_writable = True\<rparr> [] []) (ProductsClick (Some 0)))) = [ORDER_CONFIRMED]"
proof -
  let ?pg = "dispatch (page_init \<lparr>st_data = Map.empty, st_readable = True, st_writable = True\<rparr> [] [])
               (ProductsClick (Some 0))"
  have i: "page_inv ?pg" by (intro dispatch_page_inv page_init_inv)
  have "cs_items (pg_cart ?pg) = [new_line_item (PRODUCTS ! 0) 1] \<and> pg_alerts ?pg = []"
    by (rule click_first_card)
  then have ne: "cs_items (pg_cart ?pg) \<noteq> []" and al: "pg_alerts ?pg = []" by simp_all
  from confirm_order_clears [OF i ne] al show ?thesis by simp
qed

text \<open>
  C29.  Clicking "Agregar al carrito" on a catalog product adds one unit of it: viewed as
  a map from id to quantity, the product's id goes to its previous quantity plus one,
  capped at \<open>MAX_QUANTITY\<close>, every other id is unchanged; the sidebar opens and shows
  the new cart.  The click never reaches the error of \<open>addItem\<close>.
\<close>

theorem add_button_adds_one:
  assumes "ui_reachable pg" and "k < length PRODUCTS" and "\<not> btn_disabled (pg_buttons pg ! k)"
  shows "pg_sidebar_open (dispatch pg (ProductsClick (Some k))) \<and>
         qty_map (cs_items (pg_cart (dispatch pg (ProductsClick (Some k))))) =
           (qty_map (cs_items (pg_cart pg)))(prod_id (PRODUCTS ! k) \<mapsto>
              min ((case qty_map (cs_items (pg_cart pg)) (prod_id (PRODUCTS ! k)) of None \<Rightarrow> 0 | Some q \<Rightarrow> q) + 1)
                  MAX_QUANTITY) \<and>
         pg_cart_view (dispatch pg (ProductsClick (Some k))) =
           render_cart (cs_items (pg_cart (dispatch pg (ProductsClick (Some k))))) \<and>
         pg_buttons (dispatch pg (ProductsClick (Some k))) ! k = busy_button \<and>
         pg_timers (dispatch pg (ProductsClick (Some k))) =
           pg_timers pg @ [\<lparr>tm_deadline = pg_now pg + FEEDBACK_DELAY, tm_button = k, tm_original = ADD_LABEL\<rparr>]"
proof -
  let ?p = "PRODUCTS ! k"
  have w: "widgets_inv pg" using assms(1) by (rule ui_reachable_widgets)
  then have cards: "pg_cards pg = render_products" and len: "length (pg_buttons pg) = length PRODUCTS"
    and fb: "feedback_ok (pg_now pg) (pg_buttons pg, pg_timers pg)" by (simp_all add: widgets_inv_def)
  have idle: "pg_buttons pg ! k = idle_button"
    using fb assms(2,3) len by (auto simp: feedback_ok_iff busy_button_def)
  have v: "\<not> invalid_product ?p"
    using catalog_entries_valid assms(2) by (simp add: list_all_length)
  have sub: "subscribers (cs_listeners (pg_cart pg)) ''change'' = [RenderCart]"
    using ui_reachable_inv [OF assms(1)] by (simp add: page_inv_def)
  let ?its = "merge_item (cs_items (pg_cart pg)) ?p 1"
  let ?c = "cart_emit ''change'' (Change ActAdd (Some (prod_id ?p))) (cart_save ((pg_cart pg)\<lparr>cs_items := ?its\<rparr>))"
  have nb: "\<not> add_click_blocked pg (Some k)" using assms(3) by (simp add: add_click_blocked_def)
  obtain a r where a: "card_product_id (render_products ! k) = Some a" and "js_number a = Some r"
    and "find_product (JNum r) = Some ?p"
    using card_click_product [OF assms(2)] by blast
  then have d: "products_click pg (Some k) =
             add_feedback k (open_cart (pg\<lparr>pg_cart := ?c, pg_cart_view := render_cart ?its\<rparr>))"
    using assms(2) cards v after_cart_emit [OF sub] by (simp add: products_click_def add_item_valid)
  have cl: "clamp_quantity 1 = 1" by (simp add: clamp_quantity_def MAX_QUANTITY_def)
  show ?thesis
    using idle assms(2) len
    by (simp add: nb d add_feedback_def show_add_feedback_def open_cart_def Let_def cart_emit_fields
                  cart_save_fields qty_map_merge_item cl idle_button_def busy_button_def)
qed

theorem add_button_adds_one_witness:
  "pg_sidebar_open (dispatch (page_init \<lparr>st_data = Map.empty, st_readable = True, st_writable = True\<rparr> [] [])
       (ProductsClick (Some 2))) \<and>
   qty_map (cs_items (pg_cart (dispatch (page_init \<lparr>st_data = Map.empty, st_readable = True,
       st_writable = True\<rparr> [] []) (ProductsClick (Some 2))))) (JNum 3) = Some 1 \<and>
   pg_buttons (dispatch (page_init \<lparr>st_data = Map.empty, st_readable = True, st_writable = True\<rparr> [] [])
       (ProductsClick (Some 2))) ! 2 = busy_button"
proof -
  let ?pg = "page_init \<lparr>st_data = Map.empty, st_readable = True, st_writable = True\<rparr> [] []"
  have r: "ui_reachable ?pg" by (rule ui_reachable.init) (simp_all add: load_def wf_items_Nil)
  have k: "2 < length PRODUCTS" by (simp add: PRODUCTS_def)
  have b: "\<not> btn_disabled (pg_buttons ?pg ! 2)"
    by (simp add: page_init_def Let_def idle_button_def render_products_def PRODUCTS_def)
  have e: "qty_map (cs_items (pg_cart ?pg)) (prod_id (PRODUCTS ! 2)) = None"
    by (simp add: page_init_def cart_on_def new_cart_def load_def qty_map_None_iff)
  have i: "prod_id (PRODUCTS ! 2) = JNum 3" by (simp add: PRODUCTS_def mk_product_def)
  from add_button_adds_one [OF r k b] e i show ?thesis
    by (simp add: MAX_QUANTITY_def)
qed

text \<open>
  The "decrease" button on a line with quantity 1 removes the line: the handler calls
  \<open>updateQuantity(id, 0)\<close>, which is \<open>removeItem(id)\<close>.
\<close>

theorem decrease_last_removes:
  assumes "find (\<lambda>i. item_id i = JNum n) (cs_items (pg_cart pg)) = Some item"
    and "item_quantity item = 1"
  shows "cs_items (pg_cart (dispatch pg (CartItemsClick (Some (''decrease'', n))))) =
         remove_first (\<lambda>i. item_id i = JNum n) (cs_items (pg_cart pg))"
proof -
  have "JNum n \<in> set (map item_id (cs_items (pg_cart pg)))"
    using assms(1) item_map_Some [of "cs_items (pg_cart pg)" "JNum n" item]
    by (force simp: find_item_map)
  with assms show ?thesis
    by (simp add: cart_items_click_cart update_quantity_eq remove_item_eq cart_emit_fields
                  cart_save_fields)
qed

theorem decrease_last_removes_witness:
  "cs_items (pg_cart (dispatch (dispatch (page_init \<lparr>st_data = Map.empty, st_readable = True,
       st_writable = True\<rparr> [] []) (ProductsClick (Some 0))) (CartItemsClick (Some (''decrease'', 1))))) = []"
proof -
  let ?pg = "dispatch (page_init \<lparr>st_data = Map.empty, st_readable = True, st_writable = True\<rparr> [] [])
               (ProductsClick (Some 0))"
  have "cs_items (pg_cart ?pg) = [new_line_item (PRODUCTS ! 0) 1] \<and> pg_alerts ?pg = []"
    by (rule click_first_card)
  then have its: "cs_items (pg_cart ?pg) = [new_line_item (PRODUCTS ! 0) 1]" by simp
  have f: "find (\<lambda>i. item_id i = JNum 1) (cs_items (pg_cart ?pg)) = Some (new_line_item (PRODUCTS ! 0) 1)"
    unfolding its by (simp add: new_line_item_def PRODUCTS_def mk_product_def)
  have q: "item_quantity (new_line_item (PRODUCTS ! 0) 1) = 1" by (simp add: new_line_item_def)
  have "cs_items (pg_cart (dispatch ?pg (CartItemsClick (Some (''decrease'', 1))))) =
          remove_first (\<lambda>i. item_id i = JNum 1) (cs_items (pg_cart ?pg))"
    by (rule decrease_last_removes [OF f q])
  also have "\<dots> = []" unfolding its by (simp add: new_line_item_def PRODUCTS_def mk_product_def)
  finally show ?thesis .
qed

text \<open>
  C30.  The sidebar's line buttons (lines 387--403) on a well-formed cart, at the level
  of the map from id to quantity: "increase" adds one up to \<open>MAX_QUANTITY\<close>,
  "decrease" subtracts one and removes the line at quantity 1 (through
  \<open>updateQuantity(id, 0)\<close>), and "remove" removes the line; no other id changes.
\<close>

theorem sidebar_buttons:
  assumes w: "wf_items (cs_items (pg_cart pg))" and k: "qty_map (cs_items (pg_cart pg)) (JNum n) = Some k"
  shows "qty_map (cs_items (pg_cart (dispatch pg (CartItemsClick (Some (''increase'', n)))))) =
           (qty_map (cs_items (pg_cart pg)))(JNum n \<mapsto> min (k + 1) MAX_QUANTITY) \<and>
         qty_map (cs_items (pg_cart (dispatch pg (CartItemsClick (Some (''decrease'', n)))))) =
           (if k = 1 then (qty_map (cs_items (pg_cart pg)))(JNum n := None)
            else (qty_map (cs_items (pg_cart pg)))(JNum n \<mapsto> k - 1)) \<and>
         qty_map (cs_items (pg_cart (dispatch pg (CartItemsClick (Some (''remove'', n)))))) =
           (qty_map (cs_items (pg_cart pg)))(JNum n := None)"
proof -
  let ?its = "cs_items (pg_cart pg)"
  obtain item where f: "find (\<lambda>i. item_id i = JNum n) (get_items ?its) = Some item"
    and q: "item_quantity item = k"
    using k by (auto simp: get_items_copy find_item_map qty_map_def)
  have mem: "JNum n \<in> set (map item_id ?its)" using k qty_map_None_iff [of ?its "JNum n"] by auto
  have d: "distinct (map item_id ?its)" using w by (simp add: wf_items_def)
  have "qty_ok k" by (rule qty_map_wf [OF w k])
  then have k1: "1 \<le> k" "k \<le> MAX_QUANTITY" by (simp_all add: qty_ok_def)
  have rm: "qty_map (cs_items (snd (remove_item (pg_cart pg) (JNum n)))) = (qty_map ?its)(JNum n := None)"
    using mem d by (simp add: remove_item_eq cart_emit_fields cart_save_fields qty_map_remove_first)
  have "qty_map (cs_items (pg_cart (dispatch pg (CartItemsClick (Some (''increase'', n)))))) =
          (qty_map ?its)(JNum n \<mapsto> min (k + 1) MAX_QUANTITY)"
    using f q mem k1 k
    by (simp add: cart_items_click_def pg_cart_simps update_quantity_eq cart_emit_fields cart_save_fields
                  qty_map_set_quantity)
  moreover have "qty_map (cs_items (pg_cart (dispatch pg (CartItemsClick (Some (''decrease'', n)))))) =
          (if k = 1 then (qty_map ?its)(JNum n := None) else (qty_map ?its)(JNum n \<mapsto> k - 1))"
  proof (cases "k = 1")
    case True
    with f q mem rm show ?thesis by (simp add: cart_items_click_def pg_cart_simps update_quantity_eq)
  next
    case False
    with f q mem k1 k show ?thesis
      by (simp add: cart_items_click_def pg_cart_simps update_quantity_eq cart_emit_fields cart_save_fields
                    qty_map_set_quantity)
  qed
  moreover have "qty_map (cs_items (pg_cart (dispatch pg (CartItemsClick (Some (''remove'', n)))))) =
          (qty_map ?its)(JNum n := None)"
    using rm by (simp add: cart_items_click_def pg_cart_simps)
  ultimately show ?thesis by blast
qed

theorem sidebar_buttons_witness:
  "qty_map (cs_items (pg_cart (dispatch (dispatch (page_init \<lparr>st_data = Map.empty, st_readable = True,
       st_writable = True\<rparr> [] []) (ProductsClick (Some 0))) (CartItemsClick (Some (''increase'', 1)))))) (JNum 1) = Some 2 \<and>
   qty_map (cs_items (pg_cart (dispatch (dispatch (page_init \<lparr>st_data = Map.empty, st_readable = True,
       st_writable = True\<rparr> [] []) (ProductsClick (Some 0))) (CartItemsClick (Some (''decrease'', 1)))))) (JNum 1) = None \<and>
   qty_map (cs_items (pg_cart (dispatch (dispatch (page_init \<lparr>st_data = Map.empty, st_readable = True,
       st_writable = True\<rparr> [] []) (ProductsClick (Some 0))) (CartItemsClick (Some (''remove'', 1)))))) (JNum 1) = None"
proof -
  let ?pg = "dispatch (page_init \<lparr>st_data = Map.empty, st_readable = True, st_writable = True\<rparr> [] [])
               (ProductsClick (Some 0))"
  have "cs_items (pg_cart ?pg) = [new_line_item (PRODUCTS ! 0) 1] \<and> pg_alerts ?pg = []"
    by (rule click_first_card)
  then have its: "cs_items (pg_cart ?pg) = [new_line_item (PRODUCTS ! 0) 1]" by simp
  have w: "wf_items (cs_items (pg_cart ?pg))"
    unfolding its by (simp add: wf_items_def qty_ok_def is_integer_def MAX_QUANTITY_def new_line_item_def)
  have k: "qty_map (cs_items (pg_cart ?pg)) (JNum 1) = Some 1"
    unfolding its by (simp add: qty_map_def item_map_def new_line_item_def PRODUCTS_def mk_product_def)
  from sidebar_buttons [OF w k] show ?thesis by (simp add: MAX_QUANTITY_def)
qed

text \<open>
  C34.  The add buttons always come back: on every reachable page, once the clock has
  advanced by the feedback delay (800 ms), every add button is idle again (label
  restored, class removed, enabled) and no feedback timer is pending.
\<close>

theorem feedback_restored:
  assumes "ui_reachable pg" and "FEEDBACK_DELAY \<le> d"
  shows "pg_buttons (dispatch pg (Tick d)) = replicate (length PRODUCTS) idle_button \<and>
         pg_timers (dispatch pg (Tick d)) = []"
proof -
  have w: "widgets_inv pg" using assms(1) by (rule ui_reachable_widgets)
  then have "run_timers (pg_now pg + d) (pg_buttons pg, pg_timers pg) =
               (replicate (length (pg_buttons pg)) idle_button, [])"
    using assms(2) by (intro feedback_settles) (simp_all add: widgets_inv_def)
  with w show ?thesis by (simp add: advance_clock_def Let_def widgets_inv_def)
qed

theorem feedback_restored_witness:
  "pg_buttons (dispatch (dispatch (page_init \<lparr>st_data = Map.empty, st_readable = True, st_writable = True\<rparr> [] [])
       (ProductsClick (Some 0))) (Tick 800)) = replicate (length PRODUCTS) idle_button \<and>
   pg_timers (dispatch (dispatch (page_init \<lparr>st_data = Map.empty, st_readable = True, st_writable = True\<rparr> [] [])
       (ProductsClick (Some 0))) (Tick 800)) = []"
  by (rule feedback_restored, rule ui_reachable.step, rule ui_reachable.init)
     (simp_all add: load_def wf_items_Nil FEEDBACK_DELAY_def)

text \<open>
  C35.  Submitting the contact form shows one alert with the entered name and email,
  resets every control to its default value, and does not touch the cart.
\<close>

theorem contact_submit_alert:
  assumes "form_get (pg_form pg) ''name'' = Some n" and "form_get (pg_form pg) ''email'' = Some e"
  shows "pg_alerts (dispatch pg ContactSubmit) =
           pg_alerts pg @ [''Mensaje enviado!'' @ [NEWLINE] @ ''Nombre: '' @ n @ [NEWLINE] @ ''Email: '' @ e] \<and>
         map ff_value (pg_form (dispatch pg ContactSubmit)) = map ff_default (pg_form pg) \<and>
         pg_cart (dispatch pg ContactSubmit) = pg_cart pg"
  using assms
  by (simp add: contact_form_submit_def contact_submit_def contact_message_def shown_value_def Let_def
                o_def)

theorem contact_submit_alert_witness:
  "pg_alerts (dispatch (page_init \<lparr>st_data = Map.empty, st_readable = True, st_writable = True\<rparr> []
       [\<lparr>ff_name = ''name'', ff_value = ''Ana'', ff_default = []\<rparr>,
        \<lparr>ff_name = ''email'', ff_value = ''ana@example.com'', ff_default = []\<rparr>]) ContactSubmit) =
   [''Mensaje enviado!'' @ [NEWLINE] @ ''Nombre: Ana'' @ [NEWLINE] @ ''Email: ana@example.com'']"
proof -
  let ?fs = "[\<lparr>ff_name = ''name'', ff_value = ''Ana'', ff_default = []\<rparr>,
              \<lparr>ff_name = ''email'', ff_value = ''ana@example.com'', ff_default = []\<rparr>]"
  let ?pg = "page_init \<lparr>st_data = Map.empty, st_readable = True, st_writable = True\<rparr> [] ?fs"
  have "form_get (pg_form ?pg) ''name'' = Some ''Ana''"
    and "form_get (pg_form ?pg) ''email'' = Some ''ana@example.com''"
    by (simp_all add: page_init_def Let_def form_get_def)
  from contact_submit_alert [OF this] show ?thesis
    by (simp add: page_init_def Let_def)
qed

text \<open>
  The two halves of the page do not interfere: a widget event (FAQ click, form
  submit, time passing, hero scroll) leaves the cart, the sidebar and the modal and
  what they show unchanged, and every other event leaves the FAQ items, the form, the
  clock and the scroll position unchanged.
\<close>

theorem handlers_independent:
  "(widget_event ev \<longrightarrow>
      pg_cart (dispatch pg ev) = pg_cart pg \<and> pg_sidebar_open (dispatch pg ev) = pg_sidebar_open pg \<and>
      pg_modal_open (dispatch pg ev) = pg_modal_open pg \<and> pg_cart_view (dispatch pg ev) = pg_cart_view pg \<and>
      pg_checkout_view (dispatch pg ev) = pg_checkout_view pg) \<and>
   (\<not> widget_event ev \<longrightarrow>
      pg_faq (dispatch pg ev) = pg_faq pg \<and> pg_form (dispatch pg ev) = pg_form pg \<and>
      pg_now (dispatch pg ev) = pg_now pg \<and> pg_scroll (dispatch pg ev) = pg_scroll pg)"
proof (cases ev)
  case (ProductsClick t)
  then show ?thesis
    by (simp add: products_click_def widget_fields_cart_handlers split: option.splits sum.splits)
next
  case (CartItemsClick t)
  then show ?thesis
    by (simp add: cart_items_click_def widget_fields_cart_handlers split: option.splits)
next
  case ConfirmClick
  then show ?thesis by (simp add: confirm_order_def widget_fields_cart_handlers)
qed (simp_all add: faq_button_click_def contact_form_submit_def advance_clock_def hero_explore_click_def
                   toggle_cart_def open_cart_def close_cart_def open_checkout_def close_checkout_def
                   widget_fields_cart_handlers Let_def)

theorem handlers_independent_witness:
  "pg_cart (dispatch (page_init \<lparr>st_data = Map.empty, st_readable = True, st_writable = True\<rparr> [] [])
       HeroExploreClick) =
     pg_cart (page_init \<lparr>st_data = Map.empty, st_readable = True, st_writable = True\<rparr> [] []) \<and>
   pg_scroll (dispatch (page_init \<lparr>st_data = Map.empty, st_readable = True, st_writable = True\<rparr> [] [])
       ClearCartClick) =
     pg_scroll (page_init \<lparr>st_data = Map.empty, st_readable = True, st_writable = True\<rparr> [] [])"
  using handlers_independent [of HeroExploreClick "page_init \<lparr>st_data = Map.empty, st_readable = True, st_writable = True\<rparr> [] []"]
        handlers_independent [of ClearCartClick "page_init \<lparr>st_data = Map.empty, st_readable = True, st_writable = True\<rparr> [] []"]
  by simp

end
