(* ===== verification/Json_Text.thy ===== *)
theory Json_Text
  imports Js_Values "HOL-Library.AList"
begin

text \<open>
  The text behind the persisted channel: \<open>JSON.stringify\<close> as a printer from JSON
  trees to strings (\<open>json_text\<close>) and \<open>JSON.parse\<close> as a recursive-descent parser
  (\<open>json_parse\<close>), the two library calls of \<open>#save\<close> and \<open>#load\<close> (src/app.js, lines
  176 and 186).  A character is a UTF-16 code unit below 256 (Isabelle's \<open>char\<close>).
  A number is printed as JavaScript's \<open>Number.prototype.toString\<close> prints it in
  decimal notation, for the values whose text the model fixes: integers up to
  \<open>2^53\<close> and decimals of at most 15 significant digits not below \<open>10^-6\<close> (the
  exponent notation and the shortest-round-trip digits of other doubles are left out:
  \<open>num_text\<close> is \<open>None\<close> there).  The parser accepts the JSON grammar and gives the
  exact rational of a number literal.  It carries fuel, decremented by every recursive
  call; \<open>json_parse\<close> gives it \<open>2 * length s + 2\<close>, which the lemma
  \<open>json_parse_terminates\<close> shows is never exhausted.  Errors are values: \<open>SyntaxErr\<close> is
  the \<open>SyntaxError\<close> that \<open>JSON.parse\<close> throws, \<open>Unrepresentable\<close> a \<open>\u\<close> escape
  above \<open>00FF\<close> (outside the character model), \<open>OutOfFuel\<close> the exhausted fuel.
\<close>

section \<open>Characters\<close>

definition QUOTE :: char where
  "QUOTE = CHR 0x22"

definition BSLASH :: char where
  "BSLASH = CHR 0x5C"

text \<open>The white space of the JSON grammar: space, tab, line feed, carriage return.\<close>

definition is_ws :: "char \<Rightarrow> bool" where
  "is_ws c \<longleftrightarrow> c = CHR 0x20 \<or> c = CHR 0x09 \<or> c = CHR 0x0A \<or> c = CHR 0x0D"

definition skip_ws :: "string \<Rightarrow> string" where
  "skip_ws = dropWhile is_ws"

definition hex_char :: "nat \<Rightarrow> char" where
  "hex_char d = (if d < 10 then digit_char d else char_of (87 + d))"

section \<open>JSON.stringify\<close>

text \<open>
  \<open>Number.prototype.toString()\<close> in decimal notation.  The fraction digits are the
  least \<open>k\<close> with \<open>r * 10^k\<close> an integer; the digits of that integer get a decimal
  point before the last \<open>k\<close> of them, padded with leading zeros to one integer digit.
\<close>

definition is_int :: "rat \<Rightarrow> bool" where
  "is_int x \<longleftrightarrow> of_int \<lfloor>x\<rfloor> = x"

definition decimal_point :: "nat \<Rightarrow> string \<Rightarrow> string" where
  "decimal_point k ds =
     (let ds' = replicate (Suc k - length ds) (CHR ''0'') @ ds
      in take (length ds' - k) ds' @ CHR ''.'' # drop (length ds' - k) ds')"

definition pos_num_text :: "rat \<Rightarrow> string option" where
  "pos_num_text r =
     (case find (\<lambda>k. is_int (r * 10 ^ k)) [0..<22] of
        None \<Rightarrow> None
      | Some k \<Rightarrow>
          (let x = r * 10 ^ k in
           if k = 0 then (if r \<le> 2 ^ 53 then Some (dec_string (nat \<lfloor>x\<rfloor>)) else None)
           else if x < 10 ^ 15 \<and> 1 / 10 ^ 6 \<le> r then Some (decimal_point k (dec_string (nat \<lfloor>x\<rfloor>)))
           else None))"

definition num_text :: "rat \<Rightarrow> string option" where
  "num_text r = (if r < 0 then map_option (Cons (CHR ''-'')) (pos_num_text (- r)) else pos_num_text r)"

text \<open>
  \<open>QuoteJSONString\<close>: quotation mark and backslash escaped, the five control
  characters with a short escape, the other control characters as \<open>\u00xx\<close> with
  lower-case hexadecimal digits.
\<close>

definition json_escape :: "char \<Rightarrow> string" where
  "json_escape c =
     (if c = QUOTE then [BSLASH, QUOTE]
      else if c = BSLASH then [BSLASH, BSLASH]
      else if c = CHR 0x08 then [BSLASH, CHR ''b'']
      else if c = CHR 0x09 then [BSLASH, CHR ''t'']
      else if c = CHR 0x0A then [BSLASH, CHR ''n'']
      else if c = CHR 0x0C then [BSLASH, CHR ''f'']
      else if c = CHR 0x0D then [BSLASH, CHR ''r'']
      else if of_char c < (32::nat) then
        [BSLASH, CHR ''u'', CHR ''0'', CHR ''0'', hex_char (of_char c div 16), hex_char (of_char c mod 16)]
      else [c])"

definition json_quote :: "string \<Rightarrow> string" where
  "json_quote s = QUOTE # concat (map json_escape s) @ [QUOTE]"

fun comma_join :: "string list \<Rightarrow> string" where
  "comma_join [] = []"
| "comma_join [t] = t"
| "comma_join (t # ts) = t @ CHR '','' # comma_join ts"

text \<open>
  \<open>SerializeJSONProperty\<close> on a tree that \<open>json_of\<close> has cleaned (no \<open>undefined\<close>
  inside): arrays and objects without white space, members in key order.
\<close>

fun json_text :: "jsval \<Rightarrow> string option"
and json_texts :: "jsval list \<Rightarrow> string list option"
and json_member_texts :: "(string \<times> jsval) list \<Rightarrow> string list option" where
  "json_text JUndef = None"
| "json_text JNull = Some ''null''"
| "json_text (JBool b) = Some (if b then ''true'' else ''false'')"
| "json_text (JNum r) = num_text r"
| "json_text (JStr s) = Some (json_quote s)"
| "json_text (JArr vs) = map_option (\<lambda>ts. CHR ''['' # comma_join ts @ '']'') (json_texts vs)"
| "json_text (JObj kvs) = map_option (\<lambda>ts. CHR ''{'' # comma_join ts @ ''}'') (json_member_texts kvs)"
| "json_texts [] = Some []"
| "json_texts (v # vs) =
     (case json_text v of None \<Rightarrow> None | Some t \<Rightarrow> map_option (Cons t) (json_texts vs))"
| "json_member_texts [] = Some []"
| "json_member_texts ((k, v) # kvs) =
     (case json_text v of
        None \<Rightarrow> None
      | Some t \<Rightarrow> map_option (Cons (json_quote k @ CHR '':'' # t)) (json_member_texts kvs))"

text \<open>\<open>JSON.stringify(v)\<close>: the cleaning of \<open>json_of\<close>, then the text.\<close>

definition stringify :: "jsval \<Rightarrow> string option" where
  "stringify v = json_text (json_of v)"

section \<open>JSON.parse\<close>

datatype perr = SyntaxErr | Unrepresentable | OutOfFuel

text \<open>A parse result: an error, or the value read and the input left.\<close>

type_synonym 'a presult = "perr + ('a \<times> string)"

definition is_hex :: "char \<Rightarrow> bool" where
  "is_hex c \<longleftrightarrow> is_digit c \<or> (97 \<le> (of_char c :: nat) \<and> (of_char c :: nat) \<le> 102) \<or>
                (65 \<le> (of_char c :: nat) \<and> (of_char c :: nat) \<le> 70)"

definition hex_digit_value :: "char \<Rightarrow> nat" where
  "hex_digit_value c =
     (if is_digit c then of_char c - 48 else if (of_char c :: nat) \<ge> 97 then of_char c - 87 else of_char c - 55)"

definition hex_value :: "string \<Rightarrow> nat" where
  "hex_value s = foldl (\<lambda>acc c. 16 * acc + hex_digit_value c) 0 s"

text \<open>The character an escape \<open>\x\<close> stands for, other than \<open>\u\<close>.\<close>

definition unescape :: "char \<Rightarrow> char option" where
  "unescape e =
     (if e = QUOTE \<or> e = BSLASH \<or> e = CHR ''/'' then Some e
      else if e = CHR ''b'' then Some (CHR 0x08)
      else if e = CHR ''f'' then Some (CHR 0x0C)
      else if e = CHR ''n'' then Some (CHR 0x0A)
      else if e = CHR ''r'' then Some (CHR 0x0D)
      else if e = CHR ''t'' then Some (CHR 0x09)
      else None)"

text \<open>The characters of a string literal after its opening quotation mark.\<close>

function parse_chars :: "string \<Rightarrow> string \<Rightarrow> string presult" where
  "parse_chars acc [] = Inl SyntaxErr"
| "parse_chars acc (c # cs) =
     (if c = QUOTE then Inr (rev acc, cs)
      else if c = BSLASH then
        (case cs of
           [] \<Rightarrow> Inl SyntaxErr
         | e # cs' \<Rightarrow>
             if e = CHR ''u'' then
               (if 4 \<le> length cs' \<and> list_all is_hex (take 4 cs') then
                  (if hex_value (take 4 cs') < 256
                   then parse_chars (char_of (hex_value (take 4 cs')) # acc) (drop 4 cs')
                   else Inl Unrepresentable)
                else Inl SyntaxErr)
             else (case unescape e of None \<Rightarrow> Inl SyntaxErr | Some d \<Rightarrow> parse_chars (d # acc) cs'))
      else if of_char c < (32::nat) then Inl SyntaxErr
      else parse_chars (c # acc) cs)"
  by pat_completeness auto
termination by (relation "measure (\<lambda>(acc, s). length s)") auto

text \<open>A literal \<open>null\<close>, \<open>true\<close>, \<open>false\<close>.\<close>

definition parse_literal :: "string \<Rightarrow> jsval \<Rightarrow> string \<Rightarrow> jsval presult" where
  "parse_literal w v s = (if take (length w) s = w then Inr (v, drop (length w) s) else Inl SyntaxErr)"

text \<open>
  A number literal: \<open>-? (0 | [1-9][0-9]* ) (. [0-9]+)? ([eE] [+-]? [0-9]+)?\<close>, read as
  the exact rational it denotes.
\<close>

definition parse_int_part :: "string \<Rightarrow> (string \<times> string) option" where
  "parse_int_part s =
     (case s of
        [] \<Rightarrow> None
      | c # r \<Rightarrow> if c = CHR ''0'' then Some (''0'', r)
                 else if is_digit c then Some (takeWhile is_digit s, dropWhile is_digit s)
                 else None)"

definition parse_frac :: "string \<Rightarrow> (string \<times> string) option" where
  "parse_frac s =
     (case s of
        c # r \<Rightarrow> if c = CHR ''.'' then
                   (if takeWhile is_digit r = [] then None
                    else Some (takeWhile is_digit r, dropWhile is_digit r))
                 else Some ([], s)
      | [] \<Rightarrow> Some ([], []))"

definition parse_sign :: "string \<Rightarrow> bool \<times> string" where
  "parse_sign s =
     (case s of
        c # r \<Rightarrow> if c = CHR ''-'' then (True, r) else if c = CHR ''+'' then (False, r) else (False, s)
      | [] \<Rightarrow> (False, s))"

definition parse_exp :: "string \<Rightarrow> (int \<times> string) option" where
  "parse_exp s =
     (case s of
        c # r \<Rightarrow> if c = CHR ''e'' \<or> c = CHR ''E'' then
                   (let (neg, r') = parse_sign r; ds = takeWhile is_digit r' in
                    if ds = [] then None
                    else Some ((if neg then - int (digits_value ds) else int (digits_value ds)),
                               dropWhile is_digit r'))
                 else Some (0, s)
      | [] \<Rightarrow> Some (0, []))"

definition pow10 :: "int \<Rightarrow> rat" where
  "pow10 e = (if 0 \<le> e then 10 ^ nat e else 1 / 10 ^ nat (- e))"

definition parse_number :: "string \<Rightarrow> jsval presult" where
  "parse_number s =
     (let (neg, s1) = (case s of c # r \<Rightarrow> if c = CHR ''-'' then (True, r) else (False, s) | [] \<Rightarrow> (False, s))
      in case parse_int_part s1 of
           None \<Rightarrow> Inl SyntaxErr
         | Some (ip, s2) \<Rightarrow>
             (case parse_frac s2 of
                None \<Rightarrow> Inl SyntaxErr
              | Some (fp, s3) \<Rightarrow>
                  (case parse_exp s3 of
                     None \<Rightarrow> Inl SyntaxErr
                   | Some (e, s4) \<Rightarrow>
                       Inr (JNum ((if neg then -1 else 1) *
                                  (of_nat (digits_value ip) + of_nat (digits_value fp) / 10 ^ length fp) *
                                  pow10 e), s4))))"

text \<open>
  A value, the elements of an array after its \<open>[\<close>, the members of an object after its
  \<open>{\<close>.  A member whose key occurs before replaces that member's value in place
  (\<open>CreateDataProperty\<close> on an existing key), which \<open>AList.update\<close> does.
\<close>

fun parse_value :: "nat \<Rightarrow> string \<Rightarrow> jsval presult"
and parse_elems :: "nat \<Rightarrow> jsval list \<Rightarrow> string \<Rightarrow> jsval presult"
and parse_members :: "nat \<Rightarrow> (string \<times> jsval) list \<Rightarrow> string \<Rightarrow> jsval presult" where
  "parse_value 0 s = Inl OutOfFuel"
| "parse_value (Suc n) s =
     (case skip_ws s of
        [] \<Rightarrow> Inl SyntaxErr
      | c # r \<Rightarrow>
          if c = CHR ''['' then
            (case skip_ws r of
               [] \<Rightarrow> Inl SyntaxErr
             | d # r' \<Rightarrow> if d = CHR '']'' then Inr (JArr [], r') else parse_elems n [] r)
          else if c = CHR ''{'' then
            (case skip_ws r of
               [] \<Rightarrow> Inl SyntaxErr
             | d # r' \<Rightarrow> if d = CHR ''}'' then Inr (JObj [], r') else parse_members n [] r)
          else if c = QUOTE then
            (case parse_chars [] r of Inl e \<Rightarrow> Inl e | Inr (str, r') \<Rightarrow> Inr (JStr str, r'))
          else if c = CHR ''n'' then parse_literal ''null'' JNull (c # r)
          else if c = CHR ''t'' then parse_literal ''true'' (JBool True) (c # r)
          else if c = CHR ''f'' then parse_literal ''false'' (JBool False) (c # r)
          else if c = CHR ''-'' \<or> is_digit c then parse_number (c # r)
          else Inl SyntaxErr)"
| "parse_elems 0 acc s = Inl OutOfFuel"
| "parse_elems (Suc n) acc s =
     (case parse_value n s of
        Inl e \<Rightarrow> Inl e
      | Inr (v, r) \<Rightarrow>
          (case skip_ws r of
             [] \<Rightarrow> Inl SyntaxErr
           | c # r' \<Rightarrow> if c = CHR '','' then parse_elems n (acc @ [v]) r'
                      else if c = CHR '']'' then Inr (JArr (acc @ [v]), r')
                      else Inl SyntaxErr))"
| "parse_members 0 acc s = Inl OutOfFuel"
| "parse_members (Suc n) acc s =
     (case skip_ws s of
        [] \<Rightarrow> Inl SyntaxErr
      | c # r \<Rightarrow>
          if c \<noteq> QUOTE then Inl SyntaxErr
          else (case parse_chars [] r of
                  Inl e \<Rightarrow> Inl e
                | Inr (k, r1) \<Rightarrow>
                    (case skip_ws r1 of
                       [] \<Rightarrow> Inl SyntaxErr
                     | d # r2 \<Rightarrow>
                         if d \<noteq> CHR '':'' then Inl SyntaxErr
                         else (case parse_value n r2 of
                                 Inl e \<Rightarrow> Inl e
                               | Inr (v, r3) \<Rightarrow>
                                   (case skip_ws r3 of
                                      [] \<Rightarrow> Inl SyntaxErr
                                    | x # r4 \<Rightarrow>
                                        if x = CHR '','' then parse_members n (AList.update k v acc) r4
                                        else if x = CHR ''}'' then Inr (JObj (AList.update k v acc), r4)
                                        else Inl SyntaxErr)))))"

text \<open>\<open>JSON.parse(s)\<close>: one value, surrounded by white space only.\<close>

definition json_parse :: "string \<Rightarrow> perr + jsval" where
  "json_parse s =
     (case parse_value (2 * length s + 2) s of
        Inl e \<Rightarrow> Inl e
      | Inr (v, r) \<Rightarrow> if skip_ws r = [] then Inr v else Inl SyntaxErr)"

text \<open>
  What may follow a number literal without extending it: no digit, no decimal point,
  no exponent marker.
\<close>

definition num_stop :: "string \<Rightarrow> bool" where
  "num_stop s \<longleftrightarrow> (case s of [] \<Rightarrow> True | c # _ \<Rightarrow> \<not> is_digit c \<and> c \<noteq> CHR ''.'' \<and> c \<noteq> CHR ''e'' \<and> c \<noteq> CHR ''E'')"

section \<open>Lemmas\<close>

lemma foldl_digits_acc:
  "foldl (\<lambda>acc c. 10 * acc + (of_char c - 48)) a s = a * 10 ^ length s + digits_value s"
proof (induction s arbitrary: a rule: rev_induct)
  case Nil
  then show ?case by (simp add: digits_value_def)
next
  case (snoc c s)
  then show ?case by (simp add: digits_value_snoc algebra_simps)
qed

lemma digits_value_append: "digits_value (a @ b) = digits_value a * 10 ^ length b + digits_value b"
  unfolding digits_value_def foldl_append by (rule foldl_digits_acc [unfolded digits_value_def])

lemma digits_value_zeros: "digits_value (replicate n (CHR ''0'') @ s) = digits_value s"
proof -
  have "digits_value (replicate n (CHR ''0'')) = 0"
    by (induction n) (simp_all add: digits_value_def)
  then show ?thesis by (simp add: digits_value_append)
qed

lemma dec_string_hd_zero: "hd (dec_string m) = CHR ''0'' \<Longrightarrow> m = 0"
proof (induction m rule: dec_string.induct)
  case (1 m)
  show ?case
  proof (cases "m < 10")
    case True
    then have "(of_char (digit_char m) :: nat) = 48 + m" by (simp add: digit_char_def of_char_of)
    with 1(2) True show ?thesis by (simp add: dec_string.simps [of m])
  next
    case False
    have "dec_string (m div 10) \<noteq> []" using dec_string_digits by blast
    with 1 False have "m div 10 = 0" by (simp add: dec_string.simps [of m])
    with False show ?thesis by simp
  qed
qed

lemma is_digit_simps [simp]:
  "\<not> is_digit (CHR ''.'')" "\<not> is_digit (CHR ''-'')" "is_digit (CHR ''0'')"
  by (simp_all add: is_digit_def)

lemma find_Some_D: "find P xs = Some x \<Longrightarrow> P x \<and> x \<in> set xs"
  by (induction xs) (auto split: if_splits)

lemma dec_string_lead: "dec_string m = ''0'' \<or> hd (dec_string m) \<noteq> CHR ''0''"
proof (cases "hd (dec_string m) = CHR ''0''")
  case True
  then have "m = 0" by (rule dec_string_hd_zero)
  then show ?thesis by (simp add: dec_string.simps [of 0] digit_char_def)
qed simp

lemma takeWhile_nil_drop: "takeWhile P xs = [] \<Longrightarrow> dropWhile P xs = xs"
  by (metis append_Nil takeWhile_dropWhile_id)

lemma parse_int_part_digits:
  assumes "list_all is_digit ds" and "ds \<noteq> []" and "ds = ''0'' \<or> hd ds \<noteq> CHR ''0''"
    and "takeWhile is_digit rest = []"
  shows "parse_int_part (ds @ rest) = Some (ds, rest)"
proof (cases ds)
  case (Cons c cs)
  show ?thesis
  proof (cases "c = CHR ''0''")
    case True
    with assms(3) Cons show ?thesis by (simp add: parse_int_part_def)
  next
    case False
    from assms(1) have "\<forall>x \<in> set ds. is_digit x" by (simp add: list_all_iff)
    then have "takeWhile is_digit (ds @ rest) = ds" and "dropWhile is_digit (ds @ rest) = rest"
      using assms(4) by (simp_all add: takeWhile_append2 dropWhile_append2 takeWhile_nil_drop)
    with False Cons assms(1) show ?thesis by (simp add: parse_int_part_def)
  qed
qed (use assms(2) in simp)

lemma parse_frac_digits:
  assumes "list_all is_digit fp" and "fp \<noteq> []" and "takeWhile is_digit rest = []"
  shows "parse_frac (CHR ''.'' # fp @ rest) = Some (fp, rest)"
proof -
  from assms(1) have "\<forall>x \<in> set fp. is_digit x" by (simp add: list_all_iff)
  then have "takeWhile is_digit (fp @ rest) = fp" and "dropWhile is_digit (fp @ rest) = rest"
    using assms(3) by (simp_all add: takeWhile_append2 dropWhile_append2 takeWhile_nil_drop)
  with assms(2) show ?thesis by (simp add: parse_frac_def)
qed

lemma num_stop_parts:
  assumes "num_stop rest"
  shows "takeWhile is_digit rest = []" and "parse_frac rest = Some ([], rest)"
    and "parse_exp rest = Some (0, rest)"
  using assms by (auto simp: num_stop_def parse_frac_def parse_exp_def split: list.splits)

lemma decimal_point_split:
  assumes "0 < k" and "list_all is_digit ds" and "ds = ''0'' \<or> hd ds \<noteq> CHR ''0''"
  shows "\<exists>ip fp. decimal_point k ds = ip @ CHR ''.'' # fp \<and> length fp = k \<and> ip \<noteq> [] \<and>
           list_all is_digit (ip @ fp) \<and> (ip = ''0'' \<or> hd ip \<noteq> CHR ''0'') \<and>
           digits_value (ip @ fp) = digits_value ds"
proof -
  define ds' where "ds' = replicate (Suc k - length ds) (CHR ''0'') @ ds"
  define ip where "ip = take (length ds' - k) ds'"
  define fp where "fp = drop (length ds' - k) ds'"
  have len: "Suc k \<le> length ds'" by (simp add: ds'_def)
  have dp: "decimal_point k ds = ip @ CHR ''.'' # fp"
    by (simp add: decimal_point_def ds'_def ip_def fp_def Let_def)
  have cat: "ip @ fp = ds'" by (simp add: ip_def fp_def)
  have "list_all is_digit ds'" using assms(2) by (auto simp: ds'_def list_all_iff)
  moreover have "ip = ''0'' \<or> hd ip \<noteq> CHR ''0''"
  proof (cases "Suc k \<le> length ds")
    case True
    then have "ds' = ds" by (simp add: ds'_def)
    moreover have "ds \<noteq> ''0''" using True assms(1) by auto
    ultimately show ?thesis using assms(3) True by (simp add: ip_def hd_take)
  next
    case False
    then have "ds' = CHR ''0'' # replicate (k - length ds) (CHR ''0'') @ ds"
      by (simp add: ds'_def Suc_diff_le)
    moreover have "length ds' = Suc k" using False by (simp add: ds'_def)
    ultimately show ?thesis by (simp add: ip_def)
  qed
  moreover have "ip \<noteq> []" using len by (auto simp: ip_def)
  moreover have "length fp = k" using len by (simp add: fp_def)
  moreover have "digits_value ds' = digits_value ds" by (simp add: ds'_def digits_value_zeros)
  ultimately show ?thesis using dp cat by blast
qed

lemma pos_num_text_parts:
  assumes "pos_num_text r = Some t" and "0 \<le> r" and "num_stop rest"
  shows "t \<noteq> [] \<and> is_digit (hd t) \<and>
         (\<exists>ip fp rest'. parse_int_part (t @ rest) = Some (ip, rest') \<and> parse_frac rest' = Some (fp, rest) \<and>
            of_nat (digits_value ip) + of_nat (digits_value fp) / 10 ^ length fp = r)"
proof -
  obtain k where k: "find (\<lambda>k. is_int (r * 10 ^ k)) [0..<22] = Some k"
    using assms(1) by (auto simp: pos_num_text_def split: option.splits)
  let ?x = "r * 10 ^ k"
  let ?m = "nat \<lfloor>?x\<rfloor>"
  have "is_int ?x" using find_Some_D [OF k] by simp
  then have xm: "of_nat ?m = ?x" using assms(2) by (simp add: is_int_def)
  let ?ds = "dec_string ?m"
  have ds: "?ds \<noteq> []" "list_all is_digit ?ds" "digits_value ?ds = ?m"
    using dec_string_digits [of ?m] by simp_all
  have tw: "takeWhile is_digit rest = []" and pf: "parse_frac rest = Some ([], rest)"
    using num_stop_parts [OF assms(3)] by simp_all
  show ?thesis
  proof (cases "k = 0")
    case True
    then have t: "t = ?ds" using assms(1) k by (simp add: pos_num_text_def Let_def split: if_splits)
    have "parse_int_part (t @ rest) = Some (?ds, rest)"
      unfolding t by (rule parse_int_part_digits [OF ds(2) ds(1) dec_string_lead tw])
    moreover have "of_nat (digits_value ?ds) + of_nat (digits_value []) / 10 ^ length [] = r"
      using xm True ds(3) by (simp add: digits_value_def)
    moreover have "is_digit (hd t)" using ds(1,2) t by (cases ?ds) simp_all
    ultimately show ?thesis using pf ds(1) t by (intro conjI exI) auto
  next
    case False
    then have t: "t = decimal_point k ?ds" using assms(1) k by (simp add: pos_num_text_def Let_def split: if_splits)
    obtain ip fp where s: "decimal_point k ?ds = ip @ CHR ''.'' # fp" and lf: "length fp = k"
      and ne: "ip \<noteq> []" and dg: "list_all is_digit (ip @ fp)" and ld: "ip = ''0'' \<or> hd ip \<noteq> CHR ''0''"
      and dv: "digits_value (ip @ fp) = digits_value ?ds"
      using decimal_point_split [of k ?ds] False ds(2) dec_string_lead by blast
    have "parse_int_part (t @ rest) = Some (ip, CHR ''.'' # fp @ rest)"
      using parse_int_part_digits [of ip "CHR ''.'' # fp @ rest"] t s ne dg ld by simp
    moreover have "parse_frac (CHR ''.'' # fp @ rest) = Some (fp, rest)"
      using parse_frac_digits [of fp rest] dg lf False tw by auto
    moreover have "of_nat (digits_value ip) + of_nat (digits_value fp) / 10 ^ length fp = r"
    proof -
      have "(of_nat (digits_value ip) + of_nat (digits_value fp) / 10 ^ k :: rat) =
              of_nat (digits_value ip * 10 ^ k + digits_value fp) / 10 ^ k"
        by (simp add: field_simps)
      also have "\<dots> = of_nat ?m / 10 ^ k" using dv ds(3) lf by (simp add: digits_value_append)
      also have "\<dots> = r" using xm by simp
      finally show ?thesis using lf by simp
    qed
    moreover have "is_digit (hd t)" using t s ne dg by (cases ip) simp_all
    ultimately show ?thesis using t s by auto
  qed
qed

lemma num_text_parse:
  assumes "num_text r = Some t" and "num_stop rest"
  shows "parse_number (t @ rest) = Inr (JNum r, rest) \<and> t \<noteq> [] \<and> (hd t = CHR ''-'' \<or> is_digit (hd t))"
proof (cases "r < 0")
  case True
  then obtain t' where t: "t = CHR ''-'' # t'" and p: "pos_num_text (- r) = Some t'"
    using assms(1) by (auto simp: num_text_def)
  obtain ip fp rest' where "parse_int_part (t' @ rest) = Some (ip, rest')" "parse_frac rest' = Some (fp, rest)"
    and v: "of_nat (digits_value ip) + of_nat (digits_value fp) / 10 ^ length fp = - r"
    using pos_num_text_parts [OF p _ assms(2)] True by auto
  with num_stop_parts(3) [OF assms(2)] v show ?thesis
    by (simp add: t parse_number_def pow10_def)
next
  case False
  then have p: "pos_num_text r = Some t" using assms(1) by (simp add: num_text_def)
  obtain ip fp rest' where "parse_int_part (t @ rest) = Some (ip, rest')" "parse_frac rest' = Some (fp, rest)"
    and v: "of_nat (digits_value ip) + of_nat (digits_value fp) / 10 ^ length fp = r"
    and h: "t \<noteq> []" "is_digit (hd t)"
    using pos_num_text_parts [OF p _ assms(2)] False by auto
  moreover have "hd t \<noteq> CHR ''-''" using h(2) by auto
  ultimately show ?thesis using num_stop_parts(3) [OF assms(2)]
    by (cases t) (simp_all add: parse_number_def pow10_def)
qed

lemma hex_char_value: "d < 16 \<Longrightarrow> is_hex (hex_char d) \<and> hex_digit_value (hex_char d) = d"
  by (auto simp: hex_char_def is_hex_def hex_digit_value_def digit_char_def is_digit_def of_char_of)

lemma parse_chars_escape: "parse_chars acc (json_escape c @ rest) = parse_chars (c # acc) rest"
proof -
  consider "c = QUOTE" | "c = BSLASH" | "c = CHR 0x08" | "c = CHR 0x09" | "c = CHR 0x0A" | "c = CHR 0x0C"
    | "c = CHR 0x0D"
    | "c \<noteq> QUOTE" "c \<noteq> BSLASH" "c \<notin> {CHR 0x08, CHR 0x09, CHR 0x0A, CHR 0x0C, CHR 0x0D}" "of_char c < (32::nat)"
    | "c \<noteq> QUOTE" "c \<noteq> BSLASH" "c \<notin> {CHR 0x08, CHR 0x09, CHR 0x0A, CHR 0x0C, CHR 0x0D}" "\<not> of_char c < (32::nat)"
    by blast
  then show ?thesis
  proof cases
    case 8
    let ?n = "of_char c :: nat"
    have h: "is_hex (hex_char (?n div 16)) \<and> hex_digit_value (hex_char (?n div 16)) = ?n div 16"
            "is_hex (hex_char (?n mod 16)) \<and> hex_digit_value (hex_char (?n mod 16)) = ?n mod 16"
      using 8(4) by (simp_all add: hex_char_value)
    have "hex_value [CHR ''0'', CHR ''0'', hex_char (?n div 16), hex_char (?n mod 16)] = ?n"
      using h by (simp add: hex_value_def hex_digit_value_def is_digit_def)
    with 8 h show ?thesis
      by (simp add: json_escape_def is_hex_def is_digit_def QUOTE_def BSLASH_def)
  qed (simp_all add: json_escape_def unescape_def QUOTE_def BSLASH_def)
qed

lemma parse_chars_quote:
  "parse_chars acc (concat (map json_escape s) @ QUOTE # rest) = Inr (rev acc @ s, rest)"
  by (induction s arbitrary: acc) (simp_all add: parse_chars_escape)

lemma comma_join_Cons: "ts \<noteq> [] \<Longrightarrow> comma_join (t # ts) = t @ CHR '','' # comma_join ts"
  by (cases ts) simp_all

lemma text_start_char:
  "is_digit c \<Longrightarrow> \<not> is_ws c \<and> c \<noteq> CHR '']'' \<and> c \<noteq> CHR ''}''"
  by (auto simp: is_digit_def is_ws_def)

lemma json_text_hd:
  "json_text v = Some t \<Longrightarrow> t \<noteq> [] \<and> \<not> is_ws (hd t) \<and> hd t \<noteq> CHR '']'' \<and> hd t \<noteq> CHR ''}''"
proof (cases v)
  case (JNum r)
  assume "json_text v = Some t"
  then have "num_text r = Some t" using JNum by simp
  from num_text_parse [OF this, of "[]"] show ?thesis
    by (auto simp: num_stop_def is_ws_def dest: text_start_char)
qed (auto simp: is_ws_def json_quote_def QUOTE_def split: if_splits)

lemma skip_ws_text: "json_text v = Some t \<Longrightarrow> skip_ws (t @ rest) = t @ rest"
  using json_text_hd [of v t] by (cases t) (simp_all add: skip_ws_def)

lemma num_stop_sep [simp]:
  "num_stop [] " "num_stop (CHR '','' # r)" "num_stop (CHR '']'' # r)" "num_stop (CHR ''}'' # r)"
  by (simp_all add: num_stop_def is_digit_def)

lemma skip_ws_sep [simp]:
  "skip_ws (CHR '','' # r) = CHR '','' # r" "skip_ws (CHR '']'' # r) = CHR '']'' # r"
  "skip_ws (CHR ''}'' # r) = CHR ''}'' # r" "skip_ws (CHR '':'' # r) = CHR '':'' # r"
  "skip_ws (QUOTE # r) = QUOTE # r" "skip_ws [] = []"
  "skip_ws (CHR ''['' # r) = CHR ''['' # r" "skip_ws (CHR ''{'' # r) = CHR ''{'' # r"
  by (simp_all add: skip_ws_def is_ws_def QUOTE_def)

lemma length_skip_ws: "length (skip_ws s) \<le> length s"
  by (simp add: skip_ws_def length_dropWhile_le)

lemma parse_chars_shorter: "parse_chars acc s = Inr (x, r) \<Longrightarrow> length r < length s"
proof (induction acc s rule: parse_chars.induct)
  case (2 acc c cs)
  then show ?case
    by (auto split: if_splits list.splits option.splits intro: less_SucI Suc_lessD)
qed simp

lemma parse_chars_fuel: "parse_chars acc s \<noteq> Inl OutOfFuel"
  by (induction acc s rule: parse_chars.induct) (auto split: if_splits list.splits option.splits)

lemma parse_number_shorter: "parse_number s = Inr (v, r) \<Longrightarrow> length r < length s"
proof -
  assume a: "parse_number s = Inr (v, r)"
  obtain neg s1 where sg: "(case s of c # r \<Rightarrow> if c = CHR ''-'' then (True, r) else (False, s) | [] \<Rightarrow> (False, s)) = (neg, s1)"
    by (metis surj_pair)
  have l1: "length s1 \<le> length s" using sg by (auto split: list.splits if_splits)
  from a sg obtain ip s2 fp s3 e where
    p1: "parse_int_part s1 = Some (ip, s2)" and p2: "parse_frac s2 = Some (fp, s3)"
    and p3: "parse_exp s3 = Some (e, r)"
    by (auto simp: parse_number_def split: option.splits)
  have "length s2 < length s1" using p1
    by (auto simp: parse_int_part_def length_dropWhile_le split: list.splits if_splits
             intro: le_less_trans [OF length_dropWhile_le])
  moreover have "length s3 \<le> length s2" using p2
    by (auto simp: parse_frac_def split: list.splits if_splits
             intro: le_trans [OF length_dropWhile_le])
  moreover have "length r \<le> length s3" using p3
    by (auto simp: parse_exp_def parse_sign_def Let_def split: list.splits if_splits prod.splits
             intro: le_trans [OF length_dropWhile_le])
  ultimately show ?thesis using l1 by linarith
qed

lemma parse_literal_shorter: "parse_literal w x s = Inr (v, r) \<Longrightarrow> w \<noteq> [] \<Longrightarrow> length r < length s"
  by (auto simp: parse_literal_def split: if_splits)
     (metis diff_less length_greater_0_conv length_take min.absorb4 take_eq_Nil2 not_less)

lemma parse_number_fuel: "parse_number s \<noteq> Inl OutOfFuel"
  by (auto simp: parse_number_def split: option.splits prod.splits)

lemma parse_literal_fuel: "parse_literal w x s \<noteq> Inl OutOfFuel"
  by (simp add: parse_literal_def)

lemma skip_ws_Cons_shorter: "skip_ws s = c # r \<Longrightarrow> length r < length s"
  using length_skip_ws [of s] by simp

lemma parse_shorter:
  "parse_value n s = Inr (v, r) \<Longrightarrow> length r < length s"
  "parse_elems n acc s = Inr (v, r) \<Longrightarrow> length r < length s"
  "parse_members n kacc s = Inr (v, r) \<Longrightarrow> length r < length s"
proof (induction n s and n acc s and n kacc s arbitrary: v r and v r and v r
       rule: parse_value_parse_elems_parse_members.induct)
  case (2 n s)
  from 2(3) obtain c r0 where sk: "skip_ws s = c # r0" by (cases "skip_ws s") auto
  have l0: "length (c # r0) \<le> length s" using length_skip_ws [of s] sk by simp
  consider (arr) "c = CHR ''[''" | (obj) "c \<noteq> CHR ''[''" "c = CHR ''{''"
    | (other) "c \<noteq> CHR ''[''" "c \<noteq> CHR ''{''" by blast
  then show ?case
  proof cases
    case arr
    from 2(3) sk arr obtain d r' where sk2: "skip_ws r0 = d # r'" by (cases "skip_ws r0") auto
    have "length r' < length r0" by (rule skip_ws_Cons_shorter [OF sk2])
    moreover have "d \<noteq> CHR '']'' \<Longrightarrow> length r < length r0"
      using 2(1) [OF sk arr sk2] 2(3) sk arr sk2 by auto
    ultimately show ?thesis using 2(3) sk arr sk2 l0 by (auto split: if_splits)
  next
    case obj
    from 2(3) sk obj obtain d r' where sk2: "skip_ws r0 = d # r'" by (cases "skip_ws r0") auto
    have "length r' < length r0" by (rule skip_ws_Cons_shorter [OF sk2])
    moreover have "d \<noteq> CHR ''}'' \<Longrightarrow> length r < length r0"
      using 2(2) [OF sk obj(1) obj(2) sk2] 2(3) sk obj sk2 by auto
    ultimately show ?thesis using 2(3) sk obj sk2 l0 by (auto split: if_splits)
  next
    case other
    have e: "parse_value (Suc n) s =
               (if c = QUOTE then (case parse_chars [] r0 of Inl e \<Rightarrow> Inl e | Inr (str, r') \<Rightarrow> Inr (JStr str, r'))
                else if c = CHR ''n'' then parse_literal ''null'' JNull (c # r0)
                else if c = CHR ''t'' then parse_literal ''true'' (JBool True) (c # r0)
                else if c = CHR ''f'' then parse_literal ''false'' (JBool False) (c # r0)
                else if c = CHR ''-'' \<or> is_digit c then parse_number (c # r0)
                else Inl SyntaxErr)"
      using sk other by simp
    have "length r < length (c # r0)"
    proof (cases "c = QUOTE")
      case True
      with 2(3) e obtain str where "parse_chars [] r0 = Inr (str, r)" by (auto split: sum.splits prod.splits)
      then show ?thesis by (auto dest: parse_chars_shorter)
    next
      case False
      then have "parse_literal ''null'' JNull (c # r0) = Inr (v, r) \<or>
                 parse_literal ''true'' (JBool True) (c # r0) = Inr (v, r) \<or>
                 parse_literal ''false'' (JBool False) (c # r0) = Inr (v, r) \<or>
                 parse_number (c # r0) = Inr (v, r)"
        using 2(3) [unfolded e] by (simp split: if_splits)
      then show ?thesis by (auto dest: parse_number_shorter parse_literal_shorter)
    qed
    then show ?thesis using l0 by simp
  qed
next
  case (4 n acc s)
  from 4(3) obtain x r1 where p: "parse_value n s = Inr (x, r1)" by (auto split: sum.splits)
  have l1: "length r1 < length s" using 4(1) p by blast
  from 4(3) p obtain c r2 where sk: "skip_ws r1 = c # r2" by (cases "skip_ws r1") auto
  have l2: "length r2 < length r1" by (rule skip_ws_Cons_shorter [OF sk])
  show ?case
  proof (cases "c = CHR '',''")
    case True
    with 4(3) p sk have "parse_elems n (acc @ [x]) r2 = Inr (v, r)" by simp
    with 4(2) [OF p refl sk True] l1 l2 show ?thesis by fastforce
  next
    case False
    with 4(3) p sk l1 l2 show ?thesis by (auto split: if_splits)
  qed
next
  case (6 n kacc s)
  from 6(3) obtain q r0 where sk: "skip_ws s = q # r0" and q: "q = QUOTE"
    by (auto split: list.splits if_splits)
  from 6(3) sk q obtain k r1 where pc: "parse_chars [] r0 = Inr (k, r1)"
    by (auto split: sum.splits)
  from 6(3) sk q pc obtain r2 where sk1: "skip_ws r1 = CHR '':'' # r2"
    by (auto split: list.splits if_splits)
  from 6(3) sk q pc sk1 obtain x r3 where pv: "parse_value n r2 = Inr (x, r3)"
    by (auto split: sum.splits)
  from 6(3) sk q pc sk1 pv obtain e r4 where sk3: "skip_ws r3 = e # r4"
    by (auto split: list.splits)
  have l: "length r0 < length s" "length r1 < length r0" "length r2 < length r1" "length r4 < length r3"
    using skip_ws_Cons_shorter [OF sk] parse_chars_shorter [OF pc] skip_ws_Cons_shorter [OF sk1]
          skip_ws_Cons_shorter [OF sk3] by simp_all
  have l3: "length r3 < length r2" using 6(1) sk q pc sk1 pv by blast
  show ?case
  proof (cases "e = CHR '',''")
    case True
    with 6(3) sk q pc sk1 pv sk3 have "parse_members n (AList.update k x kacc) r4 = Inr (v, r)" by simp
    then have "length r < length r4" using 6(2) sk q pc sk1 pv sk3 True by blast
    with l l3 show ?thesis by simp
  next
    case False
    with 6(3) sk q pc sk1 pv sk3 l l3 show ?thesis by (auto split: if_splits)
  qed
qed simp_all

lemma parse_no_out_of_fuel:
  "2 * length s + 2 \<le> n \<Longrightarrow> parse_value n s \<noteq> Inl OutOfFuel"
  "2 * length s + 3 \<le> n \<Longrightarrow> parse_elems n acc s \<noteq> Inl OutOfFuel"
  "2 * length s + 3 \<le> n \<Longrightarrow> parse_members n kacc s \<noteq> Inl OutOfFuel"
proof (induction n s and n acc s and n kacc s rule: parse_value_parse_elems_parse_members.induct)
  case (2 n s)
  show ?case
  proof
    assume o: "parse_value (Suc n) s = Inl OutOfFuel"
    then obtain c r0 where sk: "skip_ws s = c # r0" by (cases "skip_ws s") auto
    have l0: "length r0 < length s" by (rule skip_ws_Cons_shorter [OF sk])
    consider (arr) "c = CHR ''[''" | (obj) "c \<noteq> CHR ''[''" "c = CHR ''{''"
      | (other) "c \<noteq> CHR ''[''" "c \<noteq> CHR ''{''" by blast
    then show False
    proof cases
      case arr
      from o sk arr obtain d r' where sk2: "skip_ws r0 = d # r'" and d: "d \<noteq> CHR '']''"
        and e: "parse_elems n [] r0 = Inl OutOfFuel"
        by (cases "skip_ws r0") (auto split: if_splits)
      with 2(1) [OF sk arr sk2 d] l0 2(3) show False by simp
    next
      case obj
      from o sk obj obtain d r' where sk2: "skip_ws r0 = d # r'" and d: "d \<noteq> CHR ''}''"
        and e: "parse_members n [] r0 = Inl OutOfFuel"
        by (cases "skip_ws r0") (auto split: if_splits)
      with 2(2) [OF sk obj(1) obj(2) sk2 d] l0 2(3) show False by simp
    next
      case other
      have e: "parse_value (Suc n) s =
               (if c = QUOTE then (case parse_chars [] r0 of Inl e \<Rightarrow> Inl e | Inr (str, r') \<Rightarrow> Inr (JStr str, r'))
                else if c = CHR ''n'' then parse_literal ''null'' JNull (c # r0)
                else if c = CHR ''t'' then parse_literal ''true'' (JBool True) (c # r0)
                else if c = CHR ''f'' then parse_literal ''false'' (JBool False) (c # r0)
                else if c = CHR ''-'' \<or> is_digit c then parse_number (c # r0)
                else Inl SyntaxErr)"
        using sk other by simp
      from o [unfolded e] show False
        using parse_chars_fuel [of "[]" r0] parse_literal_fuel parse_number_fuel
        by (auto split: if_splits sum.splits prod.splits)
    qed
  qed
next
  case (4 n acc s)
  show ?case
  proof
    assume o: "parse_elems (Suc n) acc s = Inl OutOfFuel"
    have b: "2 * length s + 2 \<le> n" using 4(3) by simp
    show False
    proof (cases "parse_value n s")
      case (Inl e)
      with o have "parse_value n s = Inl OutOfFuel" by simp
      with 4(1) b show False by simp
    next
      case (Inr p)
      then obtain x r1 where p: "parse_value n s = Inr (x, r1)" by (cases p) auto
      have l1: "length r1 < length s" by (rule parse_shorter(1) [OF p])
      from o p obtain c r2 where sk: "skip_ws r1 = c # r2" by (cases "skip_ws r1") auto
      have l2: "length r2 < length r1" by (rule skip_ws_Cons_shorter [OF sk])
      from o p sk have c: "c = CHR '',''" and e: "parse_elems n (acc @ [x]) r2 = Inl OutOfFuel"
        by (auto split: if_splits)
      with 4(2) [OF p refl sk c] l1 l2 4(3) show False by simp
    qed
  qed
next
  case (6 n kacc s)
  show ?case
  proof
    assume o: "parse_members (Suc n) kacc s = Inl OutOfFuel"
    from o obtain q r0 where sk: "skip_ws s = q # r0" and q: "q = QUOTE"
      by (auto split: list.splits if_splits)
    from o sk q obtain k r1 where pc: "parse_chars [] r0 = Inr (k, r1)"
      using parse_chars_fuel [of "[]" r0] by (auto split: sum.splits)
    from o sk q pc obtain r2 where sk1: "skip_ws r1 = CHR '':'' # r2"
      by (auto split: list.splits if_splits)
    have l: "length r0 < length s" "length r1 < length r0" "length r2 < length r1"
      using skip_ws_Cons_shorter [OF sk] parse_chars_shorter [OF pc] skip_ws_Cons_shorter [OF sk1]
      by simp_all
    show False
    proof (cases "parse_value n r2")
      case (Inl e)
      with o sk q pc sk1 have "parse_value n r2 = Inl OutOfFuel" by simp
      with 6(1) [OF sk _ pc refl sk1] q l 6(3) show False by simp
    next
      case (Inr p)
      then obtain x r3 where pv: "parse_value n r2 = Inr (x, r3)" by (cases p) auto
      from o sk q pc sk1 pv obtain e r4 where sk3: "skip_ws r3 = e # r4"
        by (auto split: list.splits)
      have l3: "length r3 < length r2" "length r4 < length r3"
        using parse_shorter(1) [OF pv] skip_ws_Cons_shorter [OF sk3] by simp_all
      from o sk q pc sk1 pv sk3 have c: "e = CHR '',''"
        and m: "parse_members n (AList.update k x kacc) r4 = Inl OutOfFuel"
        by (auto split: if_splits)
      with 6(2) [OF sk _ pc refl sk1 _ pv refl sk3 c] q l l3 6(3) show False by simp
    qed
  qed
qed simp_all

section \<open>Properties\<close>

text \<open>
  \<open>JSON.parse\<close> terminates on every text: the fuel \<open>2 * length s + 2\<close> that
  \<open>json_parse\<close> gives the parser is never exhausted, so its outcome is a tree, a
  \<open>SyntaxError\<close>, or a character outside the model, never \<open>OutOfFuel\<close>.
\<close>

theorem json_parse_terminates: "json_parse s \<noteq> Inl OutOfFuel"
  using parse_no_out_of_fuel(1) [of s "2 * length s + 2"]
  by (auto simp: json_parse_def split: sum.splits prod.splits)

end
