(* ===== verification/Json_Roundtrip.thy ===== *)
theory Json_Roundtrip
  imports Json_Text
begin

text \<open>
  The round trip of the persisted text: a JSON tree that the model prints is read back
  by the parser as the same tree.  The lemma \<open>parse_text_fuel\<close> gives the fuel a
  printed value needs (twice its length plus two), so that the round trip holds at the
  fuel \<open>json_parse\<close> supplies.
\<close>

text \<open>
  The trees whose text the model fixes: no \<open>undefined\<close> inside, every number
  printable by \<open>num_text\<close>, object keys distinct (a parsed object has distinct keys).
\<close>

fun printable :: "jsval \<Rightarrow> bool" where
  "printable JUndef = False"
| "printable (JNum r) = (num_text r \<noteq> None)"
| "printable (JArr vs) = (\<forall>v \<in> set vs. printable v)"
| "printable (JObj kvs) = (distinct (map fst kvs) \<and> (\<forall>kv \<in> set kvs. printable (snd kv)))"
| "printable v = True"

section \<open>Lemmas\<close>

lemma update_fresh: "k \<notin> set (map fst acc) \<Longrightarrow> AList.update k v acc = acc @ [(k, v)]"
  by (induction acc) auto

lemma fuel_Suc: "(\<And>n. B \<le> n \<Longrightarrow> f (Suc n) = x) \<Longrightarrow> Suc B \<le> K \<Longrightarrow> \<forall>m \<ge> K. f m = x"
  by (metis Suc_le_D Suc_le_mono order_trans)

lemma value_start_char:
  "is_digit c \<or> c = CHR ''-'' \<Longrightarrow>
     c \<noteq> CHR ''['' \<and> c \<noteq> CHR ''{'' \<and> c \<noteq> QUOTE \<and> c \<noteq> CHR ''n'' \<and> c \<noteq> CHR ''t'' \<and> c \<noteq> CHR ''f''"
  by (auto simp: is_digit_def QUOTE_def)

lemma json_texts_start:
  assumes "json_texts vs = Some ts" and "vs \<noteq> []"
  shows "\<exists>d r'. comma_join ts @ rest = d # r' \<and> \<not> is_ws d \<and> d \<noteq> CHR '']''"
proof -
  obtain v vs' where vs: "vs = v # vs'" using assms(2) by (cases vs) auto
  then obtain t ts' where "json_text v = Some t" and ts: "ts = t # ts'"
    using assms(1) by (auto split: option.splits)
  with json_text_hd [of v t] show ?thesis
    by (cases ts') (cases t; auto)+
qed

lemma json_member_texts_start:
  assumes "json_member_texts kvs = Some ts" and "kvs \<noteq> []"
  shows "\<exists>r'. comma_join ts @ rest = QUOTE # r'"
proof -
  obtain k v kvs' where "kvs = (k, v) # kvs'" using assms(2) by (cases kvs) auto
  with assms(1) obtain t ts' where "ts = (json_quote k @ CHR '':'' # t) # ts'"
    by (auto split: option.splits)
  then show ?thesis by (cases ts') (simp_all add: json_quote_def)
qed

lemma parse_text_fuel:
  "\<And>t rest. printable v \<Longrightarrow> json_text v = Some t \<Longrightarrow> num_stop rest \<Longrightarrow>
     \<forall>m \<ge> 2 * length t + 2. parse_value m (t @ rest) = Inr (v, rest)"
  and "\<And>ts acc rest. vs \<noteq> [] \<Longrightarrow> \<forall>v \<in> set vs. printable v \<Longrightarrow> json_texts vs = Some ts \<Longrightarrow>
     \<forall>m \<ge> 2 * length (comma_join ts) + 3.
        parse_elems m acc (comma_join ts @ CHR '']'' # rest) = Inr (JArr (acc @ vs), rest)"
  and "\<And>ts acc rest. kvs \<noteq> [] \<Longrightarrow> distinct (map fst (acc @ kvs)) \<Longrightarrow> \<forall>kv \<in> set kvs. printable (snd kv) \<Longrightarrow>
     json_member_texts kvs = Some ts \<Longrightarrow>
     \<forall>m \<ge> 2 * length (comma_join ts) + 3.
        parse_members m acc (comma_join ts @ CHR ''}'' # rest) = Inr (JObj (acc @ kvs), rest)"
proof (induction v and vs and kvs rule: json_text_json_texts_json_member_texts.induct)
  case 1
  then show ?case by simp
next
  case 2
  then have "t = ''null''" by simp
  then show ?case
    by (intro fuel_Suc [where B = 0]) (simp_all add: skip_ws_def is_ws_def parse_literal_def QUOTE_def)
next
  case (3 b)
  then have "t = (if b then ''true'' else ''false'')" by simp
  then show ?case
    by (intro fuel_Suc [where B = 0]) (cases b; simp add: skip_ws_def is_ws_def parse_literal_def QUOTE_def)+
next
  case (4 r)
  then have p: "parse_number (t @ rest) = Inr (JNum r, rest)" and h: "t \<noteq> []" "hd t = CHR ''-'' \<or> is_digit (hd t)"
    using num_text_parse [of r t rest] by simp_all
  have s: "skip_ws (t @ rest) = t @ rest" using 4(2) by (rule skip_ws_text)
  obtain c t' where t: "t = c # t'" using h(1) by (cases t) auto
  have "c \<noteq> CHR ''['' \<and> c \<noteq> CHR ''{'' \<and> c \<noteq> QUOTE \<and> c \<noteq> CHR ''n'' \<and> c \<noteq> CHR ''t'' \<and> c \<noteq> CHR ''f''"
    using h(2) t value_start_char by auto
  with p s h(2) t show ?case by (intro fuel_Suc [where B = 0]) auto
next
  case (5 str)
  then have t: "t @ rest = QUOTE # (concat (map json_escape str) @ QUOTE # rest)"
    by (simp add: json_quote_def)
  have "\<not> is_ws QUOTE" "QUOTE \<noteq> CHR ''[''" "QUOTE \<noteq> CHR ''{''" by (simp_all add: QUOTE_def is_ws_def)
  then show ?case by (intro fuel_Suc [where B = 0]) (simp_all add: t skip_ws_def parse_chars_quote)
next
  case (6 vs)
  show ?case
  proof (cases "vs = []")
    case True
    with 6(3) have "t = ''[]''" by simp
    then show ?thesis using True by (intro fuel_Suc [where B = 0]) (simp_all add: skip_ws_def is_ws_def)
  next
    case False
    from 6(3) obtain ts where ts: "json_texts vs = Some ts" and t: "t = CHR ''['' # comma_join ts @ '']''"
      by auto
    have N: "\<forall>m \<ge> 2 * length (comma_join ts) + 3.
               parse_elems m [] (comma_join ts @ CHR '']'' # rest) = Inr (JArr vs, rest)"
      using 6(1) [OF False _ ts, of "[]" rest] 6(2) by auto
    obtain d r' where d: "comma_join ts @ CHR '']'' # rest = d # r'" "\<not> is_ws d" "d \<noteq> CHR '']''"
      using json_texts_start [OF ts False] by blast
    have sk: "skip_ws (d # r') = d # r'" using d(2) by (simp add: skip_ws_def)
    have t': "t @ rest = CHR ''['' # d # r'" using t d(1) by simp
    show ?thesis
      by (rule fuel_Suc [where B = "2 * length (comma_join ts) + 3"]) (simp add: t' sk d(3) N [unfolded d(1)], simp add: t)
  qed
next
  case (7 kvs)
  show ?case
  proof (cases "kvs = []")
    case True
    with 7(3) have "t = ''{}''" by simp
    then show ?thesis using True by (intro fuel_Suc [where B = 0]) (simp_all add: skip_ws_def is_ws_def)
  next
    case False
    from 7(3) obtain ts where ts: "json_member_texts kvs = Some ts" and t: "t = CHR ''{'' # comma_join ts @ ''}''"
      by auto
    have N: "\<forall>m \<ge> 2 * length (comma_join ts) + 3.
               parse_members m [] (comma_join ts @ CHR ''}'' # rest) = Inr (JObj kvs, rest)"
      using 7(1) [OF False _ _ ts, of "[]" rest] 7(2) by auto
    obtain r' where d: "comma_join ts @ CHR ''}'' # rest = QUOTE # r'"
      using json_member_texts_start [OF ts False] by blast
    have t': "t @ rest = CHR ''{'' # QUOTE # r'" using t d by simp
    have "QUOTE \<noteq> CHR ''}''" by (simp add: QUOTE_def)
    then show ?thesis
      by (intro fuel_Suc [where B = "2 * length (comma_join ts) + 3"]) (simp add: t' N [unfolded d], simp add: t)
  qed
next
  case 8
  then show ?case by simp
next
  case (9 v vs)
  from 9(5) obtain t ts' where tv: "json_text v = Some t" and tvs: "json_texts vs = Some ts'"
    and ts: "ts = t # ts'" by (auto split: option.splits)
  have pv: "printable v" using 9(4) by simp
  show ?case
  proof (cases "vs = []")
    case True
    then have "ts' = []" using tvs by simp
    then have c: "comma_join ts = t" by (simp add: ts)
    have "\<forall>m \<ge> 2 * length t + 2. parse_value m (t @ CHR '']'' # rest) = Inr (v, CHR '']'' # rest)"
      using 9(1) [OF pv tv num_stop_sep(3)] .
    then show ?thesis using True by (intro fuel_Suc [where B = "2 * length t + 2"]) (simp_all add: c)
  next
    case False
    then have "ts' \<noteq> []" using tvs by (cases vs) (auto split: option.splits)
    then have c: "comma_join ts = t @ CHR '','' # comma_join ts'" by (simp add: ts comma_join_Cons)
    have N1: "\<forall>m \<ge> 2 * length t + 2. parse_value m (t @ CHR '','' # (comma_join ts' @ CHR '']'' # rest)) =
                Inr (v, CHR '','' # (comma_join ts' @ CHR '']'' # rest))"
      using 9(1) [OF pv tv num_stop_sep(2)] .
    have N2: "\<forall>m \<ge> 2 * length (comma_join ts') + 3.
                parse_elems m (acc @ [v]) (comma_join ts' @ CHR '']'' # rest) = Inr (JArr ((acc @ [v]) @ vs), rest)"
      using 9(2) [OF tv False _ tvs, of "acc @ [v]" rest] 9(4) by auto
    have "parse_elems (Suc n) acc (comma_join ts @ CHR '']'' # rest) = Inr (JArr (acc @ v # vs), rest)"
      if "2 * length (comma_join ts) + 2 \<le> n" for n
    proof -
      have "2 * length t + 2 \<le> n" "2 * length (comma_join ts') + 3 \<le> n" using that c by simp_all
      with N1 N2 show ?thesis by (simp add: c)
    qed
    then show ?thesis by (intro fuel_Suc [where B = "2 * length (comma_join ts) + 2"]) simp_all
  qed
next
  case 10
  then show ?case by simp
next
  case (11 k v kvs)
  from 11(6) obtain t ts' where tv: "json_text v = Some t" and tkvs: "json_member_texts kvs = Some ts'"
    and ts: "ts = (json_quote k @ CHR '':'' # t) # ts'" by (auto split: option.splits)
  have pv: "printable v" using 11(5) by simp
  have fresh: "AList.update k v acc = acc @ [(k, v)]"
    using 11(4) by (intro update_fresh) auto
  have key: "\<And>X. parse_chars [] (concat (map json_escape k) @ QUOTE # X) = Inr (k, X)"
    by (simp add: parse_chars_quote)
  show ?case
  proof (cases "kvs = []")
    case True
    then have "ts' = []" using tkvs by simp
    then have c: "comma_join ts = QUOTE # concat (map json_escape k) @ QUOTE # CHR '':'' # t"
      by (simp add: ts json_quote_def)
    have N: "\<forall>m \<ge> 2 * length t + 2. parse_value m (t @ CHR ''}'' # rest) = Inr (v, CHR ''}'' # rest)"
      using 11(1) [OF pv tv num_stop_sep(4)] .
    have "parse_members (Suc n) acc (comma_join ts @ CHR ''}'' # rest) = Inr (JObj (acc @ (k, v) # kvs), rest)"
      if "2 * length (comma_join ts) + 2 \<le> n" for n
    proof -
      have "2 * length t + 2 \<le> n" using that c by simp
      with N True show ?thesis by (simp add: c key fresh)
    qed
    then show ?thesis by (intro fuel_Suc [where B = "2 * length (comma_join ts) + 2"]) simp_all
  next
    case False
    then have "ts' \<noteq> []" using tkvs by (cases kvs) (auto split: option.splits)
    then have c: "comma_join ts =
                  QUOTE # concat (map json_escape k) @ QUOTE # CHR '':'' # t @ CHR '','' # comma_join ts'"
      by (simp add: ts json_quote_def comma_join_Cons)
    have N1: "\<forall>m \<ge> 2 * length t + 2. parse_value m (t @ CHR '','' # (comma_join ts' @ CHR ''}'' # rest)) =
                Inr (v, CHR '','' # (comma_join ts' @ CHR ''}'' # rest))"
      using 11(1) [OF pv tv num_stop_sep(2)] .
    have N2: "\<forall>m \<ge> 2 * length (comma_join ts') + 3.
                parse_members m (acc @ [(k, v)]) (comma_join ts' @ CHR ''}'' # rest) =
                Inr (JObj ((acc @ [(k, v)]) @ kvs), rest)"
      using 11(2) [OF tv False _ _ tkvs, of "acc @ [(k, v)]" rest] 11(4,5) by auto
    have "parse_members (Suc n) acc (comma_join ts @ CHR ''}'' # rest) = Inr (JObj (acc @ (k, v) # kvs), rest)"
      if "2 * length (comma_join ts) + 2 \<le> n" for n
    proof -
      have "2 * length t + 2 \<le> n" "2 * length (comma_join ts') + 3 \<le> n" using that c by simp_all
      with N1 N2 show ?thesis by (simp add: c key fresh)
    qed
    then show ?thesis by (intro fuel_Suc [where B = "2 * length (comma_join ts) + 2"]) simp_all
  qed
qed

lemma printable_text:
  "printable v \<Longrightarrow> json_text v \<noteq> None"
  "\<forall>v \<in> set vs. printable v \<Longrightarrow> json_texts vs \<noteq> None"
  "\<forall>kv \<in> set kvs. printable (snd kv) \<Longrightarrow> json_member_texts kvs \<noteq> None"
  by (induction v and vs and kvs rule: json_text_json_texts_json_member_texts.induct)
     (auto split: option.splits)

lemma json_parse_text: "printable v \<Longrightarrow> json_text v = Some t \<Longrightarrow> json_parse t = Inr v"
proof -
  assume p: "printable v" and t: "json_text v = Some t"
  have "parse_value (2 * length t + 2) (t @ []) = Inr (v, [])"
    using parse_text_fuel(1) [OF p t num_stop_sep(1)] by blast
  then show ?thesis by (simp add: json_parse_def)
qed

section \<open>Properties\<close>

text \<open>
  Round trip of the persisted text: every JSON tree that the model prints
  (numbers in decimal notation, distinct keys, no \<open>undefined\<close>) has a text under
  \<open>JSON.stringify\<close>, and \<open>JSON.parse\<close> of that text gives back the same tree.
\<close>

theorem json_roundtrip: "printable v \<Longrightarrow> \<exists>t. json_text v = Some t \<and> json_parse t = Inr v"
  using printable_text(1) json_parse_text by blast

theorem json_roundtrip_witness:
  "printable (JArr [JObj [(''id'', JNum 1), (''name'', JStr (''Gojo '' @ [QUOTE, CHR 0x0A])),
                          (''price'', JNum (1299 / 100)), (''quantity'', JNum 2)], JNull]) \<and>
   (\<exists>t. json_text (JArr [JObj [(''id'', JNum 1), (''name'', JStr (''Gojo '' @ [QUOTE, CHR 0x0A])),
                                (''price'', JNum (1299 / 100)), (''quantity'', JNum 2)], JNull]) = Some t \<and>
        json_parse t = Inr (JArr [JObj [(''id'', JNum 1), (''name'', JStr (''Gojo '' @ [QUOTE, CHR 0x0A])),
                                       (''price'', JNum (1299 / 100)), (''quantity'', JNum 2)], JNull]))"
proof -
  have p: "printable (JArr [JObj [(''id'', JNum 1), (''name'', JStr (''Gojo '' @ [QUOTE, CHR 0x0A])),
                                  (''price'', JNum (1299 / 100)), (''quantity'', JNum 2)], JNull])"
    by code_simp
  from json_roundtrip [OF p] p show ?thesis by simp
qed

end
