(* ===== verification/Persistence_Text.thy ===== *)
theory Persistence_Text
  imports Persistence Json_Roundtrip
begin

text \<open>
  \<open>#save\<close> and \<open>#load\<close> (src/app.js, lines 174--200) over the \<open>localStorage\<close> the
  browser has: a map from keys to strings.  \<open>save_text\<close> writes the text of
  \<open>JSON.stringify(this.#items)\<close> (theory \<open>Json_Text\<close>); \<open>load_text\<close> reads the raw
  string, returns on a missing or empty one (\<open>if (!raw) return\<close>), runs \<open>JSON.parse\<close>
  and catches its \<open>SyntaxError\<close>, then filters the array.  The rest of the development
  uses the channel of theory \<open>Persistence\<close>, which stores the outcome of \<open>JSON.parse\<close>
  instead of the text; \<open>abs_storage\<close> maps the one to the other, and the lemmas below
  show that the text channel refines it: loading commutes with the abstraction for
  every stored text, and saving does for items whose numbers the model prints
  (\<open>item_printable\<close>: the text of other numbers is outside the model, where
  \<open>save_text\<close> is \<open>None\<close>).
\<close>

record text_storage =
  ts_data :: "string \<Rightarrow> string option"
  ts_readable :: bool
  ts_writable :: bool

section \<open>save and load over text\<close>

definition save_text :: "items \<Rightarrow> text_storage \<Rightarrow> (text_storage \<times> string list) option" where
  "save_text its st =
     (case stringify (JArr (map item_to_json its)) of
        None \<Rightarrow> None
      | Some jt \<Rightarrow>
          Some (if ts_writable st then (st\<lparr>ts_data := (ts_data st)(STORAGE_KEY \<mapsto> jt)\<rparr>, [])
                else (st, [''CartManager: failed to persist cart''])))"

definition load_text :: "text_storage \<Rightarrow> items" where
  "load_text st =
     (if \<not> ts_readable st then []
      else case ts_data st STORAGE_KEY of
        None \<Rightarrow> []
      | Some raw \<Rightarrow>
          if raw = [] then []
          else (case json_parse raw of
                  Inl e \<Rightarrow> []
                | Inr parsed \<Rightarrow>
                    (case parsed of
                       JArr vs \<Rightarrow> map item_of_json (filter valid_record vs)
                     | _ \<Rightarrow> [])))"

section \<open>The tree channel as an abstraction\<close>

text \<open>A stored text as the tree channel records it: the parsed tree, or a parse failure.\<close>

definition stored_of_text :: "string \<Rightarrow> stored" where
  "stored_of_text raw = (case json_parse raw of Inr v \<Rightarrow> Stored v | Inl e \<Rightarrow> Unparseable)"

definition abs_storage :: "text_storage \<Rightarrow> storage" where
  "abs_storage st =
     \<lparr>st_data = (\<lambda>k. map_option stored_of_text (ts_data st k)),
      st_readable = ts_readable st, st_writable = ts_writable st\<rparr>"

text \<open>
  An item whose text the model fixes: price and quantity printable numbers, and id,
  name and image either \<open>undefined\<close> (dropped by \<open>JSON.stringify\<close>) or printable.
\<close>

definition item_printable :: "line_item \<Rightarrow> bool" where
  "item_printable i \<longleftrightarrow>
     num_text (item_price i) \<noteq> None \<and> num_text (item_quantity i) \<noteq> None \<and>
     list_all (\<lambda>v. v = JUndef \<or> printable (json_of v)) [item_id i, item_name i, item_image i]"

section \<open>Lemmas\<close>

lemma json_parse_Nil: "json_parse [] = Inl SyntaxErr"
  by (simp add: json_parse_def skip_ws_def)

lemma load_text_abs: "load_text st = load (abs_storage st)"
  by (auto simp: load_text_def load_def abs_storage_def stored_of_text_def json_parse_Nil
           split: option.splits sum.splits)

lemma item_printable_json: "item_printable i \<Longrightarrow> printable (json_of (item_to_json i))"
  by (auto simp: item_printable_def item_to_json_def)

lemma items_printable_json:
  "list_all item_printable its \<Longrightarrow> printable (json_of (JArr (map item_to_json its)))"
proof -
  assume a: "list_all item_printable its"
  have "item_to_json i \<noteq> JUndef" for i by (simp add: item_to_json_def)
  with a show ?thesis
    by (auto simp: list_all_iff item_printable_json simp del: json_of.simps(2))
qed

lemma stringify_items:
  assumes "list_all item_printable its"
  shows "\<exists>jt. stringify (JArr (map item_to_json its)) = Some jt \<and> stored_of_text jt = serialize its"
proof -
  have p: "printable (json_of (JArr (map item_to_json its)))" using assms by (rule items_printable_json)
  then obtain jt where t: "json_text (json_of (JArr (map item_to_json its))) = Some jt"
    using printable_text(1) by blast
  have "json_parse jt = Inr (json_of (JArr (map item_to_json its)))" by (rule json_parse_text [OF p t])
  then have "stored_of_text jt = serialize its" by (simp only: stored_of_text_def serialize_def sum.case)
  moreover have "stringify (JArr (map item_to_json its)) = Some jt" using t by (simp only: stringify_def)
  ultimately show ?thesis by blast
qed

section \<open>Properties\<close>

text \<open>
  The text channel refines the tree channel: for every stored text, \<open>#load\<close>
  over the text gives what \<open>#load\<close> over its parsed form gives; and for items whose
  numbers the model prints, \<open>#save\<close> writes a text whose parsed form is what the tree
  channel stores, with the same console messages.
\<close>

theorem text_channel_refines:
  assumes "list_all item_printable its"
  shows "load_text st = load (abs_storage st) \<and>
         (\<exists>st' msgs. save_text its st = Some (st', msgs) \<and> (abs_storage st', msgs) = save its (abs_storage st))"
proof
  show "load_text st = load (abs_storage st)"
    by (auto simp: load_text_def load_def abs_storage_def stored_of_text_def json_parse_Nil
             split: option.splits sum.splits)
  obtain jt where t: "stringify (JArr (map item_to_json its)) = Some jt"
    and s: "stored_of_text jt = serialize its"
    using stringify_items [OF assms] by blast
  have "abs_storage (st\<lparr>ts_data := (ts_data st)(STORAGE_KEY \<mapsto> jt)\<rparr>) =
          (abs_storage st)\<lparr>st_data := (st_data (abs_storage st))(STORAGE_KEY \<mapsto> serialize its)\<rparr>"
    using s by (auto simp: abs_storage_def)
  then show "\<exists>st' msgs. save_text its st = Some (st', msgs) \<and> (abs_storage st', msgs) = save its (abs_storage st)"
    using t by (simp add: save_text_def save_def abs_storage_def)
qed

theorem text_channel_refines_witness:
  "load_text \<lparr>ts_data = Map.empty, ts_readable = True, ts_writable = True\<rparr> =
     load (abs_storage \<lparr>ts_data = Map.empty, ts_readable = True, ts_writable = True\<rparr>) \<and>
   (\<exists>st' msgs. save_text [\<lparr>item_id = JNum 1, item_name = JStr ''Mai Sakurajima'', item_price = 1299 / 100,
        item_image = JStr ''images/mai-sakurajima.png'', item_quantity = 2\<rparr>]
        \<lparr>ts_data = Map.empty, ts_readable = True, ts_writable = True\<rparr> = Some (st', msgs) \<and>
      (abs_storage st', msgs) =
        save [\<lparr>item_id = JNum 1, item_name = JStr ''Mai Sakurajima'', item_price = 1299 / 100,
        item_image = JStr ''images/mai-sakurajima.png'', item_quantity = 2\<rparr>]
        (abs_storage \<lparr>ts_data = Map.empty, ts_readable = True, ts_writable = True\<rparr>))"
proof -
  have p: "list_all item_printable [\<lparr>item_id = JNum 1, item_name = JStr ''Mai Sakurajima'', item_price = 1299 / 100,
        item_image = JStr ''images/mai-sakurajima.png'', item_quantity = 2\<rparr>]"
    by code_simp
  from text_channel_refines [OF p] show ?thesis by simp
qed

text \<open>
  C36.  Round trip of the cart through the text of \<open>localStorage\<close>: on a storage that
  accepts the write and the read, \<open>#save\<close> writes a text and logs nothing, and
  \<open>#load\<close> of that text gives back the same items, for items with numeric ids,
  positive quantities, JSON names and images, and numbers the model prints.
\<close>

theorem text_reload:
  assumes "ts_readable st" and "ts_writable st" and "list_all persistable its"
    and "list_all item_printable its"
  shows "\<exists>st'. save_text its st = Some (st', []) \<and> load_text st' = its"
proof -
  obtain jt where t: "stringify (JArr (map item_to_json its)) = Some jt"
    and s: "stored_of_text jt = serialize its"
    using stringify_items [OF assms(4)] by blast
  let ?st' = "st\<lparr>ts_data := (ts_data st)(STORAGE_KEY \<mapsto> jt)\<rparr>"
  have sv: "save_text its st = Some (?st', [])" using t assms(2) by (simp add: save_text_def)
  have "st_data (abs_storage ?st') STORAGE_KEY = Some (serialize its)" using s by (simp add: abs_storage_def)
  moreover have "st_readable (abs_storage ?st')" using assms(1) by (simp add: abs_storage_def)
  ultimately have "load (abs_storage ?st') = its" using assms(3) by (intro load_serialize)
  with sv show ?thesis by (auto simp: load_text_abs)
qed

theorem text_reload_witness:
  "\<exists>st'. save_text [\<lparr>item_id = JNum 1, item_name = JStr ''Mai Sakurajima'', item_price = 1299 / 100,
        item_image = JStr ''images/mai-sakurajima.png'', item_quantity = 2\<rparr>]
        \<lparr>ts_data = Map.empty, ts_readable = True, ts_writable = True\<rparr> = Some (st', []) \<and>
     load_text st' = [\<lparr>item_id = JNum 1, item_name = JStr ''Mai Sakurajima'', item_price = 1299 / 100,
        item_image = JStr ''images/mai-sakurajima.png'', item_quantity = 2\<rparr>]"
proof -
  have p: "list_all item_printable [\<lparr>item_id = JNum 1, item_name = JStr ''Mai Sakurajima'', item_price = 1299 / 100,
        item_image = JStr ''images/mai-sakurajima.png'', item_quantity = 2\<rparr>]"
    by code_simp
  have q: "list_all persistable [\<lparr>item_id = JNum 1, item_name = JStr ''Mai Sakurajima'', item_price = 1299 / 100,
        item_image = JStr ''images/mai-sakurajima.png'', item_quantity = 2\<rparr>]"
    by (simp add: persistable_def)
  show ?thesis by (rule text_reload [OF _ _ q p]) simp_all
qed

end
