(* ===== verification/Tabs.thy ===== *)
theory Tabs
  imports Cart_Manager
begin

text \<open>
  Several tabs on one \<open>localStorage\<close> key (spec, "Concurrency": multiple cart
  instances may read and write the same key, last writer wins, instances do not
  live-sync).  Each tab runs its own \<open>CartManager\<close> (src/app.js, lines 60--201) with
  its own \<open>#items\<close> and \<open>#listeners\<close>; the storage is shared.  A step is one public
  method called in one tab, run to completion (JavaScript runs one event at a time per
  origin here, so calls interleave but do not overlap), or the reload of one tab,
  which constructs a new \<open>CartManager\<close> on the storage as it is then.  The lemmas
  show that the data-model invariant holds in every tab whatever the interleaving,
  and that a reload always restores exactly the cart of one tab: the one that wrote
  last.
\<close>

datatype tab = TabA | TabB

record 'cb tabs =
  tab_a :: "'cb cart_state"
  tab_b :: "'cb cart_state"
  shared :: storage

text \<open>A tab's cart as its next call sees it: its own fields, the shared storage.\<close>

definition tab_cart :: "'cb tabs \<Rightarrow> tab \<Rightarrow> 'cb cart_state" where
  "tab_cart s i = (case i of TabA \<Rightarrow> tab_a s | TabB \<Rightarrow> tab_b s)\<lparr>cs_storage := shared s\<rparr>"

definition set_tab :: "'cb tabs \<Rightarrow> tab \<Rightarrow> 'cb cart_state \<Rightarrow> 'cb tabs" where
  "set_tab s i c = (case i of TabA \<Rightarrow> s\<lparr>tab_a := c\<rparr> | TabB \<Rightarrow> s\<lparr>tab_b := c\<rparr>)\<lparr>shared := cs_storage c\<rparr>"

text \<open>One public method called in tab \<open>i\<close>.\<close>

definition tab_step :: "'cb tabs \<Rightarrow> tab \<Rightarrow> 'cb cart_op \<Rightarrow> 'cb tabs" where
  "tab_step s i op = set_tab s i (exec_op (tab_cart s i) op)"

text \<open>Tab \<open>i\<close> reloads: \<open>new CartManager()\<close> on the shared storage.\<close>

definition tab_reload :: "'cb tabs \<Rightarrow> tab \<Rightarrow> ('cb \<Rightarrow> change \<Rightarrow> bool) \<Rightarrow> 'cb tabs" where
  "tab_reload s i throws = set_tab s i (new_cart (shared s) throws)"

definition tabs_init :: "storage \<Rightarrow> ('cb \<Rightarrow> change \<Rightarrow> bool) \<Rightarrow> 'cb tabs" where
  "tabs_init stg throws = \<lparr>tab_a = new_cart stg throws, tab_b = new_cart stg throws, shared = stg\<rparr>"

inductive tabs_reachable :: "'cb tabs \<Rightarrow> bool" where
  init: "wf_items (load stg) \<Longrightarrow> list_all persistable (load stg) \<Longrightarrow> tabs_reachable (tabs_init stg throws)"
| call: "tabs_reachable s \<Longrightarrow> sane_op op \<Longrightarrow> tabs_reachable (tab_step s i op)"
| reload: "tabs_reachable s \<Longrightarrow> tabs_reachable (tab_reload s i throws)"

text \<open>
  The invariant: what the storage loads and what every tab holds are well-formed and
  persistable, and with a working storage what it loads is the cart of some tab.
\<close>

definition tabs_inv :: "'cb tabs \<Rightarrow> bool" where
  "tabs_inv s \<longleftrightarrow>
     list_all persistable (load (shared s)) \<and> wf_items (load (shared s)) \<and>
     (\<forall>i. list_all persistable (cs_items (tab_cart s i)) \<and> wf_items (cs_items (tab_cart s i))) \<and>
     (st_readable (shared s) \<and> st_writable (shared s) \<longrightarrow> (\<exists>i. load (shared s) = cs_items (tab_cart s i)))"

section \<open>Lemmas\<close>

lemma tab_cart_fields [simp]:
  "cs_items (tab_cart s TabA) = cs_items (tab_a s)" "cs_items (tab_cart s TabB) = cs_items (tab_b s)"
  "cs_storage (tab_cart s i) = shared s"
  by (simp_all add: tab_cart_def)

lemma set_tab_cart:
  "cs_items (tab_cart (set_tab s i c) j) = (if j = i then cs_items c else cs_items (tab_cart s j))"
  "shared (set_tab s i c) = cs_storage c"
  by (cases i; cases j; simp add: set_tab_def tab_cart_def)+

lemma tab_step_flags [simp]:
  "st_readable (shared (tab_step s i op)) = st_readable (shared s)"
  "st_writable (shared (tab_step s i op)) = st_writable (shared s)"
  using exec_op_storage_flags [of "tab_cart s i" op]
  by (simp_all add: tab_step_def set_tab_cart del: exec_op.simps)

lemma load_save_persistable:
  assumes "list_all persistable its"
  shows "load (fst (save its stg)) = (if st_readable stg \<and> st_writable stg then its else load stg)"
proof (cases "st_writable stg")
  case True
  then have "st_data (fst (save its stg)) STORAGE_KEY = Some (serialize its)" by (simp add: save_def)
  moreover have "st_readable (fst (save its stg)) = st_readable stg" by (rule save_storage_flags)
  ultimately show ?thesis using True assms load_serialize [of "fst (save its stg)" its]
    by (auto simp: load_def)
next
  case False
  then show ?thesis by (simp add: save_def)
qed

lemma tabs_inv_step:
  assumes "tabs_inv s" and "sane_op op"
  shows "tabs_inv (tab_step s i op)"
proof -
  let ?c = "exec_op (tab_cart s i) op"
  have p: "list_all persistable (cs_items ?c)" and w: "wf_items (cs_items ?c)"
    using assms exec_op_persistable [of "tab_cart s i" op] exec_op_wf [of "tab_cart s i" op]
    by (simp_all add: tabs_inv_def del: exec_op.simps)
  have tabs: "\<forall>j. list_all persistable (cs_items (tab_cart (tab_step s i op) j)) \<and>
                  wf_items (cs_items (tab_cart (tab_step s i op) j))"
    using assms(1) p w by (simp add: tab_step_def set_tab_cart tabs_inv_def del: exec_op.simps)
  have flags: "st_readable (cs_storage ?c) = st_readable (shared s)"
              "st_writable (cs_storage ?c) = st_writable (shared s)"
    using exec_op_storage_flags [of "tab_cart s i" op] by simp_all
  from exec_op_storage [of "tab_cart s i" op] show ?thesis
  proof
    assume u: "cs_storage ?c = cs_storage (tab_cart s i) \<and> cs_items ?c = cs_items (tab_cart s i)"
    then have "cs_items (tab_cart (tab_step s i op) j) = cs_items (tab_cart s j)" for j
      by (simp add: tab_step_def set_tab_cart del: exec_op.simps)
    with u assms(1) show ?thesis by (simp add: tabs_inv_def tab_step_def set_tab_cart del: exec_op.simps)
  next
    assume sv: "cs_storage ?c = fst (save (cs_items ?c) (cs_storage (tab_cart s i)))"
    then have l: "load (cs_storage ?c) =
                    (if st_readable (shared s) \<and> st_writable (shared s) then cs_items ?c else load (shared s))"
      using load_save_persistable [OF p, of "shared s"] by simp
    have "\<exists>j. load (cs_storage ?c) = cs_items (tab_cart (tab_step s i op) j)"
      if "st_readable (shared s) \<and> st_writable (shared s)"
      using l that by (intro exI [of _ i]) (simp add: tab_step_def set_tab_cart del: exec_op.simps)
    with l assms(1) tabs flags p w show ?thesis
      by (auto simp: tabs_inv_def tab_step_def set_tab_cart simp del: exec_op.simps)
  qed
qed

lemma tabs_inv_reload:
  assumes "tabs_inv s"
  shows "tabs_inv (tab_reload s i throws)"
proof -
  have "cs_items (tab_cart (tab_reload s i throws) j) = (if j = i then load (shared s) else cs_items (tab_cart s j))"
    and "shared (tab_reload s i throws) = shared s" for j
    by (simp_all add: tab_reload_def set_tab_cart new_cart_def)
  with assms show ?thesis by (auto simp: tabs_inv_def)
qed

lemma tabs_inv_init:
  "wf_items (load stg) \<Longrightarrow> list_all persistable (load stg) \<Longrightarrow> tabs_inv (tabs_init stg throws)"
  by (auto simp: tabs_inv_def tabs_init_def tab_cart_def new_cart_def split: tab.splits)

lemma tabs_reachable_inv: "tabs_reachable s \<Longrightarrow> tabs_inv s"
  by (induction rule: tabs_reachable.induct) (simp_all add: tabs_inv_init tabs_inv_step tabs_inv_reload)

section \<open>Properties\<close>

text \<open>
  C31.  Last writer wins, and nothing worse: however the calls and reloads of two tabs
  on the same \<open>localStorage\<close> interleave, both tabs keep the data-model invariant, and
  with a working storage a reload restores exactly the cart of one of the two tabs
  (so the other tab's changes since that tab's last write are lost on reload).
\<close>

theorem tabs_last_writer_wins:
  assumes "tabs_reachable s" and "st_readable (shared s)" and "st_writable (shared s)"
  shows "(load (shared s) = cs_items (tab_a s) \<or> load (shared s) = cs_items (tab_b s)) \<and>
         wf_items (cs_items (tab_a s)) \<and> wf_items (cs_items (tab_b s))"
proof -
  have i: "tabs_inv s" using assms(1) by (rule tabs_reachable_inv)
  then obtain j where "load (shared s) = cs_items (tab_cart s j)"
    using assms(2,3) by (auto simp: tabs_inv_def)
  moreover have "wf_items (cs_items (tab_cart s TabA))" "wf_items (cs_items (tab_cart s TabB))"
    using i unfolding tabs_inv_def by blast+
  ultimately show ?thesis by (cases j) simp_all
qed

theorem tabs_last_writer_wins_witness:
  "(load (shared (tab_step (tab_step (tabs_init \<lparr>st_data = Map.empty, st_readable = True, st_writable = True\<rparr>
        (\<lambda>(cb::nat) d. False)) TabA (AddItem (PRODUCTS ! 0) 1)) TabB (AddItem (PRODUCTS ! 1) 1))) =
      cs_items (tab_a (tab_step (tab_step (tabs_init \<lparr>st_data = Map.empty, st_readable = True, st_writable = True\<rparr>
        (\<lambda>(cb::nat) d. False)) TabA (AddItem (PRODUCTS ! 0) 1)) TabB (AddItem (PRODUCTS ! 1) 1))) \<or>
    load (shared (tab_step (tab_step (tabs_init \<lparr>st_data = Map.empty, st_readable = True, st_writable = True\<rparr>
        (\<lambda>(cb::nat) d. False)) TabA (AddItem (PRODUCTS ! 0) 1)) TabB (AddItem (PRODUCTS ! 1) 1))) =
      cs_items (tab_b (tab_step (tab_step (tabs_init \<lparr>st_data = Map.empty, st_readable = True, st_writable = True\<rparr>
        (\<lambda>(cb::nat) d. False)) TabA (AddItem (PRODUCTS ! 0) 1)) TabB (AddItem (PRODUCTS ! 1) 1)))) \<and>
   wf_items (cs_items (tab_a (tab_step (tab_step (tabs_init \<lparr>st_data = Map.empty, st_readable = True, st_writable = True\<rparr>
        (\<lambda>(cb::nat) d. False)) TabA (AddItem (PRODUCTS ! 0) 1)) TabB (AddItem (PRODUCTS ! 1) 1)))) \<and>
   wf_items (cs_items (tab_b (tab_step (tab_step (tabs_init \<lparr>st_data = Map.empty, st_readable = True, st_writable = True\<rparr>
        (\<lambda>(cb::nat) d. False)) TabA (AddItem (PRODUCTS ! 0) 1)) TabB (AddItem (PRODUCTS ! 1) 1))))"
proof -
  let ?E = "\<lparr>st_data = Map.empty, st_readable = True, st_writable = True\<rparr>"
  let ?S = "tab_step (tab_step (tabs_init ?E (\<lambda>(cb::nat) d. False)) TabA (AddItem (PRODUCTS ! 0) 1))
              TabB (AddItem (PRODUCTS ! 1) 1)"
  have e: "load ?E = []" by (simp add: load_def)
  have r: "tabs_reachable ?S"
  proof (intro tabs_reachable.call tabs_reachable.init)
    show "wf_items (load ?E)" "list_all persistable (load ?E)" by (simp_all add: e wf_items_Nil)
    show "sane_op (AddItem (PRODUCTS ! 0) 1)" "sane_op (AddItem (PRODUCTS ! 1) 1)"
      by (simp_all add: PRODUCTS_def mk_product_def is_integer_def)
  qed
  have f: "st_readable (shared ?S)" "st_writable (shared ?S)"
    by (simp_all add: tabs_init_def)
  show ?thesis by (rule tabs_last_writer_wins [OF r f])
qed

text \<open>
  C32.  The last writer is the one a reload sees: on a working storage, when a call in
  tab \<open>i\<close> changes that tab's cart, the shared key afterwards loads exactly tab
  \<open>i\<close>'s new cart, whatever the other tab holds (its changes since its own last write
  are lost; no merge).
\<close>

theorem tab_write_wins:
  assumes "tabs_reachable s" and "st_readable (shared s)" and "st_writable (shared s)" and "sane_op op"
    and "cs_items (tab_cart (tab_step s i op) i) \<noteq> cs_items (tab_cart s i)"
  shows "load (shared (tab_step s i op)) = cs_items (tab_cart (tab_step s i op) i)"
proof -
  let ?c = "exec_op (tab_cart s i) op"
  have sh: "shared (tab_step s i op) = cs_storage ?c"
    by (cases i) (simp_all add: tab_step_def set_tab_def)
  have it: "cs_items (tab_cart (tab_step s i op) i) = cs_items ?c"
    by (cases i) (simp_all add: tab_step_def set_tab_def tab_cart_def)
  have "list_all persistable (cs_items (tab_cart s i))"
    using tabs_reachable_inv [OF assms(1)] by (simp add: tabs_inv_def)
  then have p: "list_all persistable (cs_items ?c)" using assms(4) by (rule exec_op_persistable)
  have "cs_storage ?c = fst (save (cs_items ?c) (shared s))"
    using exec_op_storage [of "tab_cart s i" op] assms(5) it by auto
  then show ?thesis
    using load_save_persistable [OF p, of "shared s"] assms(2,3) sh it by simp
qed

theorem tab_write_wins_witness:
  "load (shared (tab_step (tab_step (tabs_init \<lparr>st_data = Map.empty, st_readable = True, st_writable = True\<rparr>
        (\<lambda>(cb::nat) d. False)) TabA (AddItem (PRODUCTS ! 0) 1)) TabB (AddItem (PRODUCTS ! 1) 1))) =
   cs_items (tab_cart (tab_step (tab_step (tabs_init \<lparr>st_data = Map.empty, st_readable = True, st_writable = True\<rparr>
        (\<lambda>(cb::nat) d. False)) TabA (AddItem (PRODUCTS ! 0) 1)) TabB (AddItem (PRODUCTS ! 1) 1)) TabB)"
proof -
  let ?E = "\<lparr>st_data = Map.empty, st_readable = True, st_writable = True\<rparr>"
  let ?s = "tab_step (tabs_init ?E (\<lambda>(cb::nat) d. False)) TabA (AddItem (PRODUCTS ! 0) 1)"
  have e: "load ?E = []" by (simp add: load_def)
  have so: "sane_op (AddItem (PRODUCTS ! 0) 1)" "sane_op (AddItem (PRODUCTS ! 1) 1)"
    by (simp_all add: PRODUCTS_def mk_product_def is_integer_def)
  have r: "tabs_reachable ?s"
    by (intro tabs_reachable.call tabs_reachable.init)
       (simp_all add: e wf_items_Nil PRODUCTS_def mk_product_def is_integer_def)
  have f: "st_readable (shared ?s)" "st_writable (shared ?s)" by (simp_all add: tabs_init_def)
  have b: "cs_items (tab_cart ?s TabB) = []"
    unfolding tab_step_def set_tab_cart by (simp add: tabs_init_def new_cart_def e)
  have nv: "\<not> invalid_product (PRODUCTS ! 1)"
    by (simp add: invalid_product_def price_val_def PRODUCTS_def mk_product_def)
  have "cs_items (tab_cart (tab_step ?s TabB (AddItem (PRODUCTS ! 1) 1)) TabB) =
          cs_items (exec_op (tab_cart ?s TabB) (AddItem (PRODUCTS ! 1) 1))"
    unfolding tab_step_def set_tab_cart by simp
  also have "\<dots> = [new_line_item (PRODUCTS ! 1) (clamp_quantity 1)]"
    unfolding cs_items_exec_op cart_op.case add_item_valid [OF nv] sum.case b
    by (simp add: merge_item_def)
  finally have "cs_items (tab_cart (tab_step ?s TabB (AddItem (PRODUCTS ! 1) 1)) TabB) \<noteq> cs_items (tab_cart ?s TabB)"
    unfolding b by simp
  from tab_write_wins [OF r f so(2) this] show ?thesis .
qed

end
