(* ===== verification/Spec2Isabelle.thy ===== *)
theory Spec2Isabelle
  imports Storefront Persistence_Text Tabs
begin

text \<open>
  \<^bold>\<open>A verified model of the storefront cart of src/app.js.\<close>

  \<^emph>\<open>The program.\<close>  src/app.js is one IIFE with six sections: the product catalog
  \<open>PRODUCTS\<close>; the class \<open>CartManager\<close>, which owns the line items (\<open>#items\<close>),
  the change-event registry (\<open>#listeners\<close>) and their persistence in
  \<open>localStorage\<close>; DOM references; rendering; event listeners; initialization.  The
  presentation code calls the cart's public methods and re-renders on its
  \<open>"change"\<close> events; it never touches the cart's fields.

  \<^emph>\<open>The theories.\<close>
  \<^item> \<open>Cart_Prelude\<close>: the array methods the cart calls (\<open>findIndex\<close>, \<open>splice\<close>,
    \<open>find\<close> with an in-place write, \<open>reduce\<close>) as list functions, the generic lemmas
    about them, and the collection \<open>cart_simps\<close>.
  \<^item> \<open>Js_Values\<close>: JavaScript values (\<open>jsval\<close>), truthiness, \<open>typeof\<close>, property
    reads, \<open>Math.round\<close> and the value transformation of \<open>JSON.stringify\<close>.
  \<^item> \<open>Line_Items\<close>: \<open>MAX_QUANTITY\<close>, the product and line-item records, the
    item-list part of \<open>addItem\<close> (guard \<open>invalid_product\<close>, clamp, merge
    \<open>merge_item\<close>), of \<open>removeItem\<close> (\<open>splice_item\<close>) and of \<open>updateQuantity\<close>
    (\<open>set_quantity\<close>), the accessors \<open>getItems\<close>, \<open>getItemCount\<close>,
    \<open>getSubtotal\<close>, \<open>isEmpty\<close>; the data-model invariant \<open>wf_items\<close>, the weaker
    \<open>cart_inv\<close>, and the abstraction \<open>qty_map\<close> from the list to a map id to quantity.
  \<^item> \<open>Pricing\<close>: \<open>getSummary\<close> with its option defaults.
  \<^item> \<open>Events\<close>: \<open>on\<close>, the unsubscribe closure and \<open>#emit\<close>; effects are the
    sequence of callbacks invoked and messages logged.
  \<^item> \<open>Persistence\<close>: \<open>STORAGE_KEY\<close>, \<open>#save\<close>, \<open>#load\<close> and its record filter,
    over a \<open>localStorage\<close> record whose reads and writes may fail; the channel
    stores the outcome of \<open>JSON.parse\<close> (a tree or a parse failure).
  \<^item> \<open>Json_Text\<close>: the two built-ins \<open>#save\<close> and \<open>#load\<close> call, as code:
    \<open>JSON.stringify\<close> as a printer (\<open>json_text\<close>, numbers by \<open>num_text\<close>,
    strings by \<open>json_quote\<close>) and \<open>JSON.parse\<close> as a recursive-descent parser with
    fuel (\<open>parse_value\<close>, \<open>parse_elems\<close>, \<open>parse_members\<close>, \<open>json_parse\<close>),
    whose errors are values of \<open>perr\<close>.  \<open>Json_Roundtrip\<close>: the trees the printer
    handles (\<open>printable\<close>) and the round trip.
  \<^item> \<open>Persistence_Text\<close>: \<open>#save\<close> and \<open>#load\<close> over the strings the browser
    stores (\<open>save_text\<close>, \<open>load_text\<close>), related to the tree channel of
    \<open>Persistence\<close> by the abstraction \<open>abs_storage\<close>.
  \<^item> \<open>Catalog\<close>: the twenty \<open>PRODUCTS\<close> and the lookup by id of the click handler.
  \<^item> \<open>Rendering\<close>: what \<open>renderProducts\<close>, \<open>renderCart\<close> and \<open>openCheckout\<close> write
    into the page, as values (\<open>render_products\<close>, \<open>render_cart\<close>,
    \<open>render_checkout\<close>); a number written into an attribute is the string of the
    template literal (\<open>js_to_string\<close> in \<open>Js_Values\<close>) and is read back by
    \<open>Number()\<close> (\<open>js_number\<close>).
  \<^item> \<open>Widgets\<close>: the DOM-only state of the page: the add buttons with the pending
    \<open>setTimeout\<close> timers of \<open>showAddFeedback\<close> (\<open>show_add_feedback\<close>, fired by
    \<open>run_timers\<close> once a millisecond clock reaches their deadline), the FAQ accordion
    (\<open>faq_click\<close>) and the contact form (\<open>contact_submit\<close>).
  \<^item> \<open>Cart_Manager\<close>: the class as a state record (\<open>cs_items\<close>, \<open>cs_listeners\<close>,
    \<open>cs_storage\<close>, the effect trace \<open>cs_trace\<close>, the callbacks' behaviour
    \<open>cs_throws\<close>); the constructor \<open>new_cart\<close>; one definition per public method
    (\<open>add_item\<close>, \<open>remove_item\<close>, \<open>update_quantity\<close>, \<open>clear\<close>, \<open>cart_on\<close>,
    \<open>cart_unsubscribe\<close>), each the item-list step followed by \<open>cart_save\<close> and
    \<open>cart_emit\<close> as in the source; the operation datatype \<open>cart_op\<close>, its step
    function \<open>exec_op\<close> and the inductive set of \<open>reachable\<close> states.
  \<^item> \<open>Storefront\<close>: the presentation layer as a page state (\<open>page\<close>: the cart, the
    sidebar and modal flags, what \<open>renderCart\<close> and \<open>openCheckout\<close> last displayed, the
    alerts), the renderers \<open>render_cart\<close> and \<open>render_checkout\<close>, one handler per
    listener of \<open>bindEvents\<close> (\<open>products_click\<close>, \<open>cart_items_click\<close>,
    \<open>confirm_order\<close>, \<open>open_checkout\<close>, ...) dispatched by \<open>dispatch\<close>, the
    initialization \<open>page_init\<close>, and the pages reachable by clicking and by time
    passing (\<open>ui_reachable\<close>).  The page also holds the product cards, the add
    buttons and their timers, the clock \<open>pg_now\<close>, the FAQ items and the form fields;
    the events \<open>FaqClick\<close>, \<open>ContactSubmit\<close> and \<open>Tick d\<close> (the clock advances by
    \<open>d\<close> ms and the due timers fire) drive them; \<open>HeroExploreClick\<close> records the
    scroll to the product grid in \<open>pg_scroll\<close>.  A click on a disabled add button
    does nothing (\<open>add_click_blocked\<close>).
    The subscription \<open>cart.on("change", renderCart)\<close> is \<open>after_cart\<close>: the sidebar
    is re-rendered exactly when the cart's trace shows \<open>renderCart\<close> invoked.
  \<^item> \<open>Tabs\<close>: two tabs of the page, each with its own \<open>CartManager\<close>, over one
    shared storage (\<open>tabs\<close>); a step is a public method called in one tab
    (\<open>tab_step\<close>, through \<open>exec_op\<close>) or a reload of one tab (\<open>tab_reload\<close>,
    through \<open>new_cart\<close>); the interleavings are \<open>tabs_reachable\<close>.
  \<^item> this theory: the properties that span the manager, its persistence and the page.

  \<^emph>\<open>What is proved.\<close>  Per method: the result on every branch (\<open>addItem\<close> merges and
  caps, throws exactly on an invalid product, survives a failed write;
  \<open>removeItem\<close>/\<open>updateQuantity\<close> on a missing id return false and change nothing;
  \<open>updateQuantity\<close> with \<open>q \<le> 0\<close> equals \<open>removeItem\<close>; \<open>clear\<close> empties,
  persists the empty cart and notifies once), as refinements of the map abstraction \<open>qty_map\<close> where the method has
  a map-level contract.  Invariants: every mutation keeps ids unique and quantities in
  \<open>(0, 99]\<close> for any arguments (\<open>exec_op_cart_inv\<close>); the full invariant (integers in
  \<open>[1, 99]\<close>) holds in every reachable state (\<open>reachable_wf\<close>).  Persistence: what
  \<open>#save\<close> writes, a fresh cart loads back, in every reachable state
  (\<open>reachable_reload\<close> below).  Pricing, events and loading have their own lemmas.
  Storefront: every page reachable by clicks holds a reachable cart, so the
  storefront's own calls keep the invariant (\<open>storefront_keeps_wf\<close>); the sidebar always
  shows the current cart (\<open>sidebar_consistent\<close>); a reload restores items and sidebar
  (\<open>page_reload\<close>); the handlers do what their buttons say (add one; the sidebar's
  increase, decrease and remove buttons at the level of \<open>qty_map\<close>,
  \<open>sidebar_buttons\<close>; confirm and its empty-cart guard; agreeing totals); the id a
  card writes into its button reads back as the id of the card's product
  (\<open>card_ids_roundtrip\<close>, a check over the fixed catalog).  Several tabs: whatever the interleaving of calls and
  reloads, both tabs keep the invariant and a reload restores exactly the cart of one
  of them, the last to write (\<open>tabs_last_writer_wins\<close>, by rule induction through the
  invariant \<open>tabs_inv\<close>); a call that changes a tab's cart makes the shared key load
  exactly that cart (\<open>tab_write_wins\<close>).  Widgets: \<open>run_timers\<close> terminates (a measure on
  the pending timers) and fires exactly the timers that are due
  (\<open>run_timers_drains\<close>, a property of the model of the browser's timer queue); every add button is idle again once 800 ms have passed
  (\<open>feedback_restored\<close>, a liveness property over all reachable pages, through the
  invariant \<open>feedback_ok\<close>: every busy button has a pending timer due within the
  delay); at most one FAQ answer is open (\<open>faq_at_most_one_open\<close>); submitting the
  form alerts the entered name and email and resets the fields
  (\<open>contact_submit_alert\<close>); widget events and cart events touch disjoint parts
  of the page (\<open>handlers_independent\<close>).  JSON text: the models of the two built-ins are
  checked against each other (\<open>JSON.parse\<close> of the text \<open>JSON.stringify\<close> prints gives
  back the tree, \<open>json_roundtrip\<close>; the parser never runs out of its fuel,
  \<open>json_parse_terminates\<close>): these are lemmas about the library functions the cart
  calls, not about src/app.js, and serve the properties of the cart; the text channel refines
  the tree channel the rest of the development uses (\<open>text_channel_refines\<close>), and
  the cart survives a save and a load through the text (\<open>text_reload\<close>).
  Some theorems record, for all inputs of a kind, where the code departs from the spec:
  any quantity in \<open>(0, 1)\<close> through \<open>updateQuantity\<close>
  (\<open>update_fraction_breaks_invariant\<close>), any negative coupon
  (\<open>negative_coupon_raises_total\<close>), any loaded quantity above 99 or fractional
  (\<open>load_breaks_invariant\<close>), any string id (\<open>string_id_lost\<close>); the findings of the
  manifest list them.

  \<^emph>\<open>Modelling choices.\<close>  A JavaScript number is an exact rational: the cart's
  arithmetic is sums, products and \<open>Math.round\<close> on finite values, and rationals
  give the exact value the code approximates; \<open>NaN\<close>, the infinities and IEEE
  rounding are not modelled, nor are prices that are not numbers.  The persisted channel
  of the cart holds what \<open>JSON.parse\<close> returns; the text itself is modelled in
  \<open>Json_Text\<close> and \<open>Persistence_Text\<close>, and the refinement lemma there shows that
  nothing is lost by the abstraction.  Every loop of the cart is a \<open>forEach\<close>,
  \<open>filter\<close>, \<open>find\<close> or \<open>reduce\<close> over a finite array, modelled by structural
  recursion.  The timer loop \<open>run_timers\<close> is a \<open>function\<close> whose termination is
  proved: each round removes one timer.  The JSON parser is the one definition with
  fuel: every recursive call takes one unit, and \<open>json_parse\<close> supplies
  \<open>2 * length s + 2\<close>, enough because each nesting level consumes at least one
  character for every two calls (\<open>json_parse_terminates\<close>).
  The reachable states are those reached from a well-formed persisted
  payload by calls with integer quantities and catalog-like products (\<open>sane_op\<close>);
  \<open>storefront_keeps_wf\<close> shows that the storefront makes no other calls.

  \<^emph>\<open>Not modelled.\<close>  DOM references (the model holds the values they show),
  the smooth-scroll animation (the model records only where the viewport ends), the
  markup of the FAQ items and of the form (\<open>page_init\<close> takes them as parameters),
  characters outside ASCII in labels and messages (left out of the strings), characters
  above \<open>00FF\<close> in stored text (\<open>Unrepresentable\<close>), the exponent notation of
  \<open>Number::toString\<close> and the shortest-digit text of doubles with more than 15
  significant digits (\<open>num_text\<close> is \<open>None\<close> there), the order of integer-like
  keys in a parsed object (\<open>#load\<close> never enumerates keys),
  callbacks that call back into the cart, the \<open>storage\<close> event between tabs (the
  code registers no listener for it, so tabs never resynchronise; \<open>Tabs\<close> models
  exactly that).  \<open>renderCart\<close> is taken not to throw (the page's DOM
  elements exist), which is why \<open>page_init\<close> builds the cart with no throwing
  callbacks.
\<close>

definition synced :: "'cb cart_state \<Rightarrow> bool" where
  "synced st \<longleftrightarrow>
     list_all persistable (cs_items st) \<and>
     (st_readable (cs_storage st) \<and> st_writable (cs_storage st) \<longrightarrow> load (cs_storage st) = cs_items st)"

section \<open>Persistence across the public methods\<close>

lemma exec_op_synced:
  assumes "synced st" and "sane_op op"
  shows "synced (exec_op st op)"
proof -
  let ?st' = "exec_op st op"
  have p: "list_all persistable (cs_items ?st')"
    using assms by (simp add: synced_def exec_op_persistable del: exec_op.simps)
  have "load (cs_storage ?st') = cs_items ?st'"
    if rw: "st_readable (cs_storage ?st')" "st_writable (cs_storage ?st')"
  proof (cases "cs_storage ?st' = cs_storage st \<and> cs_items ?st' = cs_items st")
    case True
    with assms rw show ?thesis by (simp add: synced_def del: exec_op.simps)
  next
    case False
    then have s: "cs_storage ?st' = fst (save (cs_items ?st') (cs_storage st))"
      using exec_op_storage [of st op] by blast
    have "st_writable (cs_storage st)" using rw by (simp add: exec_op_storage_flags del: exec_op.simps)
    then have d: "st_data (cs_storage ?st') STORAGE_KEY = Some (serialize (cs_items ?st'))"
      by (simp add: s save_def)
    from rw(1) d p show ?thesis by (rule load_serialize)
  qed
  with p show ?thesis by (simp add: synced_def del: exec_op.simps)
qed

lemma reachable_synced: "reachable st \<Longrightarrow> synced st"
proof (induction rule: reachable.induct)
  case (init stg throws)
  then show ?case by (simp add: synced_def new_cart_def)
next
  case (step st op)
  then show ?case by (blast intro: exec_op_synced)
qed

section \<open>Round trip\<close>

text \<open>
  C12.  Round trip of the persisted cart: in every reachable state whose
  \<open>localStorage\<close> accepts reads and writes, constructing a fresh \<open>CartManager\<close> on
  the same storage loads exactly the current items (same ids, names, prices, images,
  quantities, in the same order).
\<close>

theorem reachable_reload:
  assumes "reachable st" and "st_readable (cs_storage st)" and "st_writable (cs_storage st)"
  shows "cs_items (new_cart (cs_storage st) throws) = cs_items st"
  using reachable_synced [OF assms(1)] assms(2,3) by (simp add: synced_def new_cart_def)

theorem reachable_reload_witness:
  "cs_items (new_cart (cs_storage (exec_op (new_cart \<lparr>st_data = Map.empty, st_readable = True,
       st_writable = True\<rparr> (\<lambda>(cb::nat) d. False)) (AddItem (PRODUCTS ! 4) 2))) (\<lambda>(cb::nat) d. False)) =
   [new_line_item (PRODUCTS ! 4) 2]"
proof -
  let ?init = "new_cart \<lparr>st_data = Map.empty, st_readable = True, st_writable = True\<rparr> (\<lambda>(cb::nat) d. False)"
  let ?st = "exec_op ?init (AddItem (PRODUCTS ! 4) 2)"
  have r0: "reachable ?init" by (rule reachable.init) (simp_all add: load_def wf_items_Nil)
  from r0 have r: "reachable ?st"
    by (rule reachable.step [where op = "AddItem (PRODUCTS ! 4) 2"]) (simp add: example_simps is_integer_def)
  have "st_readable (cs_storage ?st)" and "st_writable (cs_storage ?st)"
    by (simp_all add: exec_op_storage_flags new_cart_def del: exec_op.simps)
  from reachable_reload [OF r this] have "cs_items (new_cart (cs_storage ?st) (\<lambda>(cb::nat) d. False)) = cs_items ?st" .
  also have "cs_items ?st = [new_line_item (PRODUCTS ! 4) 2]"
    by (simp add: add_item_valid example_simps cart_emit_fields cart_save_fields merge_item_def
        new_line_item_def)
  finally show ?thesis .
qed

section \<open>The storefront drives the cart\<close>

lemma ui_reachable_cart:
  "ui_reachable pg \<Longrightarrow> reachable (pg_cart pg) \<and> wf_items (cs_items (pg_cart pg))"
proof (induction rule: ui_reachable.induct)
  case (init stg faqs form)
  let ?c = "new_cart stg (\<lambda>(cb::ui_callback) d. False)"
  have "reachable ?c" using init by (rule reachable.init)
  then have "reachable (exec_op ?c (On ''change'' RenderCart))" by (rule reachable.step) simp
  moreover have "pg_cart (page_init stg faqs form) = exec_op ?c (On ''change'' RenderCart)"
    by (simp add: page_init_def Let_def)
  ultimately show ?case using init by (simp add: page_init_def Let_def cart_on_def new_cart_def)
next
  case (step pg ev)
  from step.IH have r: "reachable (pg_cart pg)" and w: "wf_items (cs_items (pg_cart pg))" by simp_all
  from dispatch_cart [OF w, of ev] show ?case
  proof
    assume "pg_cart (dispatch pg ev) = pg_cart pg"
    with step.IH show ?thesis by simp
  next
    assume "\<exists>op. sane_op op \<and> pg_cart (dispatch pg ev) = exec_op (pg_cart pg) op"
    then obtain op where "sane_op op" and c: "pg_cart (dispatch pg ev) = exec_op (pg_cart pg) op"
      by blast
    with r w show ?thesis by (simp add: reachable.step exec_op_wf del: exec_op.simps)
  qed
qed

text \<open>
  C24.  The storefront only makes the calls the cart's invariant allows: on every page the
  user can reach by clicking, the cart is a reachable cart, so its ids are unique and its
  quantities are integers in \<open>[1, 99]\<close>, whatever the sequence of clicks.
\<close>

theorem storefront_keeps_wf:
  assumes "ui_reachable pg"
  shows "reachable (pg_cart pg) \<and> wf_items (cs_items (pg_cart pg))"
  using assms by (rule ui_reachable_cart)

theorem storefront_keeps_wf_witness:
  "reachable (pg_cart (dispatch (page_init \<lparr>st_data = Map.empty, st_readable = True, st_writable = True\<rparr> [] [])
     (ProductsClick (Some 0)))) \<and>
   wf_items (cs_items (pg_cart (dispatch (page_init \<lparr>st_data = Map.empty, st_readable = True,
     st_writable = True\<rparr> [] []) (ProductsClick (Some 0)))))"
  by (rule storefront_keeps_wf, rule ui_reachable.step, rule ui_reachable.init)
     (simp_all add: load_def wf_items_Nil)

text \<open>
  C26.  Reloading the page restores what the user saw: on every reachable page whose
  \<open>localStorage\<close> accepts reads and writes, initializing the page again on the same
  storage gives the same items and the same sidebar.
\<close>

theorem page_reload:
  assumes "ui_reachable pg" and "st_readable (cs_storage (pg_cart pg))"
    and "st_writable (cs_storage (pg_cart pg))"
  shows "cs_items (pg_cart (page_init (cs_storage (pg_cart pg)) faqs form)) = cs_items (pg_cart pg) \<and>
         pg_cart_view (page_init (cs_storage (pg_cart pg)) faqs form) = pg_cart_view pg"
proof -
  have "synced (pg_cart pg)" using ui_reachable_cart [OF assms(1)] by (simp add: reachable_synced)
  then have l: "load (cs_storage (pg_cart pg)) = cs_items (pg_cart pg)"
    using assms(2,3) by (simp add: synced_def)
  have "page_inv pg" using assms(1) by (rule ui_reachable_inv)
  with l show ?thesis by (simp add: page_init_def Let_def cart_on_def new_cart_def page_inv_def)
qed

theorem page_reload_witness:
  "cs_items (pg_cart (page_init (cs_storage (pg_cart (dispatch (page_init \<lparr>st_data = Map.empty,
       st_readable = True, st_writable = True\<rparr> [] []) (ProductsClick (Some 0))))) [] [])) =
   cs_items (pg_cart (dispatch (page_init \<lparr>st_data = Map.empty, st_readable = True,
       st_writable = True\<rparr> [] []) (ProductsClick (Some 0))))"
proof -
  let ?init = "page_init \<lparr>st_data = Map.empty, st_readable = True, st_writable = True\<rparr> [] []"
  let ?pg = "dispatch ?init (ProductsClick (Some 0))"
  have r: "ui_reachable ?pg"
    by (rule ui_reachable.step, rule ui_reachable.init) (simp_all add: load_def wf_items_Nil)
  have f: "st_readable (cs_storage (pg_cart ?init)) \<and> st_writable (cs_storage (pg_cart ?init))"
    and w: "wf_items (cs_items (pg_cart ?init))"
    by (simp_all add: page_init_def Let_def cart_on_def new_cart_def load_def wf_items_Nil)
  from dispatch_cart [OF w, of "ProductsClick (Some 0)"] f
  have "st_readable (cs_storage (pg_cart ?pg)) \<and> st_writable (cs_storage (pg_cart ?pg))"
    by (auto simp: exec_op_storage_flags simp del: exec_op.simps dispatch.simps)
  with page_reload [OF r] show ?thesis by simp
qed

end
